(* ===== verification/Prelude.thy ===== *)
theory Prelude
  imports Complex_Main "HOL-Library.Word" "HOL-Library.AList" "HOL-Library.Sublist"
begin

text \<open>
  Shared vocabulary of the PeerConnect development.

  \<^item> \<open>byte\<close>, \<open>bytes\<close>: Python's \<open>bytes\<close> as lists of 8-bit words.
  \<^item> \<open>py_exn\<close>, \<open>'a res\<close>: the exceptions the sources raise or catch, as values, with the part of
    Python's exception hierarchy that the \<open>except\<close> clauses rely on (\<open>is_OSError\<close>).
  \<^item> Python dictionaries as association lists in insertion order: \<open>AList.update\<close> overwrites in
    place and appends new keys at the end, exactly as \<open>d[k] = v\<close> does, and \<open>AList.delete\<close> is
    \<open>d.pop(k, None)\<close>. The locale \<open>pydict_client\<close> states the laws clients use.
  \<^item> Python slices, \<open>pyslice a b xs\<close> for \<open>xs[a:b]\<close> with non-negative bounds.
  \<^item> the locale \<open>inv_system\<close>: a transition system with an invariant, and the reachability facts
    every component's state machine reuses.
\<close>

named_theorems py_simps \<open>unfolding rules of the small operations\<close>
named_theorems inv_intros \<open>preservation lemmas of component invariants\<close>

section \<open>Bytes, exceptions, results\<close>

type_synonym byte = "8 word"
type_synonym bytes = "byte list"
type_synonym addr = "string \<times> nat"

datatype py_exn =
    StructError | NameError | ValueError | KeyError | IndexError | TypeError | AttributeError
  | AssertionError | OverflowError | LookupError | RuntimeError
  | StopIteration | StopAsyncIteration
  | OSError | BlockingIOError | ConnectionError | ConnectionResetError
  | ConnectionRefusedError | TimeoutError | FileNotFoundError | FileExistsError
  | NotADirectoryError | CancelledError
  | InvalidPacket | UnpackException | PackException | WebSocketException
  | ConfigError | TransferIncomplete | TransferRejected | CancelTransfer | InvalidStateError
  | KeyboardInterrupt | SystemExit | AddressValueError | PlainException

type_synonym 'a res = "py_exn + 'a"

text \<open>
  The subclasses of \<open>OSError\<close> in Python 3.11 and later, where \<open>asyncio.TimeoutError\<close> is the
  builtin \<open>TimeoutError\<close>.
\<close>

definition is_OSError :: "py_exn \<Rightarrow> bool" where
  "is_OSError e \<longleftrightarrow> e \<in> {OSError, BlockingIOError, ConnectionError, ConnectionResetError,
     ConnectionRefusedError, TimeoutError, FileNotFoundError, FileExistsError, NotADirectoryError}"

fun res_bind :: "'a res \<Rightarrow> ('a \<Rightarrow> 'b res) \<Rightarrow> 'b res" where
  "res_bind (Inl e) f = Inl e"
| "res_bind (Inr x) f = f x"

lemma res_bind_Inr_iff [simp]:
  "res_bind r f = Inr y \<longleftrightarrow> (\<exists>x. r = Inr x \<and> f x = Inr y)"
  by (cases r) auto

lemma map_sum_Inr_iff [simp]:
  "map_sum f g r = Inr y \<longleftrightarrow> (\<exists>x. r = Inr x \<and> y = g x)"
  by (cases r) auto

section \<open>Slices\<close>

definition pyslice :: "nat \<Rightarrow> nat \<Rightarrow> 'a list \<Rightarrow> 'a list" where
  "pyslice a b xs = drop a (take b xs)"

lemma pyslice_append_exact [simp]:
  "pyslice (length xs) (length xs + length ys) (xs @ ys @ zs) = ys"
  by (simp add: pyslice_def)

lemma length_pyslice: "length (pyslice a b xs) = min b (length xs) - a"
  by (simp add: pyslice_def)

lemma pyslice_concat:
  "a \<le> b \<Longrightarrow> b \<le> c \<Longrightarrow> pyslice a b xs @ pyslice b c xs = pyslice a c xs"
proof -
  assume "a \<le> b" "b \<le> c"
  then have "take c xs = take b xs @ drop b (take c xs)"
    by (metis append_take_drop_id min.absorb1 take_take)
  moreover have "drop a (take b xs @ drop b (take c xs)) =
      drop a (take b xs) @ drop (a - length (take b xs)) (drop b (take c xs))"
    by simp
  moreover have "drop (a - length (take b xs)) (drop b (take c xs)) = drop b (take c xs)"
    using \<open>a \<le> b\<close> by (cases "b \<le> length xs") auto
  ultimately show ?thesis by (simp add: pyslice_def)
qed

lemma pyslice_full [simp]: "length xs \<le> b \<Longrightarrow> pyslice 0 b xs = xs"
  by (simp add: pyslice_def)

section \<open>Dictionaries in insertion order\<close>

type_synonym ('k, 'v) pydict = "('k \<times> 'v) list"

definition dict_wf :: "('k, 'v) pydict \<Rightarrow> bool" where
  "dict_wf d \<longleftrightarrow> distinct (map fst d)"

abbreviation dget :: "('k, 'v) pydict \<Rightarrow> 'k \<Rightarrow> 'v option" where
  "dget d k \<equiv> map_of d k"

abbreviation dset :: "'k \<Rightarrow> 'v \<Rightarrow> ('k, 'v) pydict \<Rightarrow> ('k, 'v) pydict" where
  "dset k v d \<equiv> AList.update k v d"

abbreviation ddel :: "'k \<Rightarrow> ('k, 'v) pydict \<Rightarrow> ('k, 'v) pydict" where
  "ddel k d \<equiv> AList.delete k d"

definition dkeys :: "('k, 'v) pydict \<Rightarrow> 'k list" where
  "dkeys d = map fst d"

definition dmem :: "'k \<Rightarrow> ('k, 'v) pydict \<Rightarrow> bool" where
  "dmem k d \<longleftrightarrow> k \<in> set (dkeys d)"

text \<open>\<open>d[k]\<close>: the value, or \<open>KeyError\<close>.\<close>

definition dindex :: "('k, 'v) pydict \<Rightarrow> 'k \<Rightarrow> 'v res" where
  "dindex d k = (case dget d k of None \<Rightarrow> Inl KeyError | Some v \<Rightarrow> Inr v)"

lemma dict_wf_empty [simp, inv_intros]: "dict_wf []"
  by (simp add: dict_wf_def)

lemma dict_wf_update [simp, inv_intros]: "dict_wf d \<Longrightarrow> dict_wf (dset k v d)"
  by (simp add: dict_wf_def distinct_update)

lemma dict_wf_delete [simp, inv_intros]: "dict_wf d \<Longrightarrow> dict_wf (ddel k d)"
  by (simp add: dict_wf_def distinct_delete)

lemma dget_dset: "dget (dset k v d) = (dget d)(k \<mapsto> v)"
  by (rule update_conv')

lemma dget_ddel: "dget (ddel k d) = (dget d)(k := None)"
  by (rule delete_conv')

lemmas dget_simps [simp] = dget_dset dget_ddel

lemma dmem_iff: "dmem k d \<longleftrightarrow> dget d k \<noteq> None"
  by (simp add: dmem_def dkeys_def map_of_eq_None_iff)

lemma dmem_update [simp]: "dmem j (dset k v d) \<longleftrightarrow> j = k \<or> dmem j d"
  by (auto simp: dmem_iff)

lemma dmem_delete [simp]: "dmem j (ddel k d) \<longleftrightarrow> j \<noteq> k \<and> dmem j d"
  by (auto simp: dmem_iff)

lemma dmem_empty [simp]: "\<not> dmem k []"
  by (simp add: dmem_iff)

lemma dindex_Inr [simp]: "dindex d k = Inr v \<longleftrightarrow> dget d k = Some v"
  by (simp add: dindex_def split: option.split)

lemma dindex_Inl [simp]: "dindex d k = Inl e \<longleftrightarrow> dget d k = None \<and> e = KeyError"
  by (auto simp: dindex_def split: option.split)

lemma dset_new: "\<not> dmem k d \<Longrightarrow> dset k v d = d @ [(k, v)]"
  by (simp add: dmem_def dkeys_def update_nonempty)
    (induction d; auto)

lemma ddel_absent: "\<not> dmem k d \<Longrightarrow> ddel k d = d"
  by (induction d) (auto simp: dmem_def dkeys_def)

lemma length_dset: "length (dset k v d) = (if dmem k d then length d else Suc (length d))"
  by (induction d) (auto simp: dmem_def dkeys_def)

lemma length_ddel:
  assumes "dict_wf d"
  shows "length (ddel k d) = (if dmem k d then length d - 1 else length d)"
proof -
  have "length (ddel k d) = length (remove1 k (map fst d))"
    using assms
    by (metis delete_keys dict_wf_def distinct_remove1_removeAll length_map)
  then show ?thesis
    by (simp add: length_remove1 dmem_def dkeys_def)
qed

lemma set_dict_dget: "dict_wf d \<Longrightarrow> (k, v) \<in> set d \<longleftrightarrow> dget d k = Some v"
  by (simp add: dict_wf_def)

text \<open>
  The interface clients of a dictionary rely on: what a lookup returns after each operation, and
  that the operations keep the representation invariant.
\<close>

locale pydict_client =
  fixes lookup :: "'s \<Rightarrow> 'k \<Rightarrow> 'v option"
    and put :: "'k \<Rightarrow> 'v \<Rightarrow> 's \<Rightarrow> 's"
    and remove :: "'k \<Rightarrow> 's \<Rightarrow> 's"
    and wf :: "'s \<Rightarrow> bool"
  assumes lookup_put: "wf s \<Longrightarrow> lookup (put k v s) = (lookup s)(k \<mapsto> v)"
    and lookup_remove: "wf s \<Longrightarrow> lookup (remove k s) = (lookup s)(k := None)"
    and wf_put: "wf s \<Longrightarrow> wf (put k v s)"
    and wf_remove: "wf s \<Longrightarrow> wf (remove k s)"
begin

lemma put_same [simp]: "wf s \<Longrightarrow> lookup (put k v s) k = Some v"
  by (simp add: lookup_put)

lemma put_other: "wf s \<Longrightarrow> j \<noteq> k \<Longrightarrow> lookup (put k v s) j = lookup s j"
  by (simp add: lookup_put)

lemma remove_same [simp]: "wf s \<Longrightarrow> lookup (remove k s) k = None"
  by (simp add: lookup_remove)

lemma put_remove: "wf s \<Longrightarrow> lookup (remove k (put k v s)) = (lookup s)(k := None)"
  by (simp add: lookup_remove lookup_put wf_put)

lemma wf_puts: "wf s \<Longrightarrow> wf (fold (\<lambda>(k, v). put k v) kvs s)"
  by (induction kvs arbitrary: s) (auto simp: wf_put)

lemma lookup_puts:
  "wf s \<Longrightarrow> lookup (fold (\<lambda>(k, v). put k v) kvs s) = lookup s ++ map_of (rev kvs)"
proof (induction kvs arbitrary: s)
  case Nil
  then show ?case by simp
next
  case (Cons p kvs)
  obtain k v where p: "p = (k, v)" by (cases p)
  have "lookup (fold (\<lambda>(k, v). put k v) (p # kvs) s) = lookup (put k v s) ++ map_of (rev kvs)"
    using Cons.IH[of "put k v s"] Cons.prems by (simp add: p wf_put)
  also have "\<dots> = lookup s ++ map_of (rev (p # kvs))"
    using Cons.prems by (simp add: p lookup_put map_add_def fun_eq_iff split: option.split)
  finally show ?case .
qed

end

interpretation assoc: pydict_client map_of AList.update AList.delete dict_wf
  by unfold_locales auto

section \<open>Transition systems with invariants\<close>

inductive reachable :: "('s \<Rightarrow> bool) \<Rightarrow> ('s \<Rightarrow> 's \<Rightarrow> bool) \<Rightarrow> 's \<Rightarrow> bool"
  for init step where
  reach_init: "init s \<Longrightarrow> reachable init step s"
| reach_step: "reachable init step s \<Longrightarrow> step s t \<Longrightarrow> reachable init step t"

lemma reachable_one: "init s \<Longrightarrow> step s t \<Longrightarrow> reachable init step t"
  by (blast intro: reachable.intros)

locale inv_system =
  fixes init :: "'s \<Rightarrow> bool"
    and step :: "'s \<Rightarrow> 's \<Rightarrow> bool"
    and inv :: "'s \<Rightarrow> bool"
  assumes init_inv: "init s \<Longrightarrow> inv s"
    and step_inv: "inv s \<Longrightarrow> step s t \<Longrightarrow> inv t"
begin

lemma reachable_inv: "reachable init step s \<Longrightarrow> inv s"
  by (induction rule: reachable.induct) (auto intro: init_inv step_inv)

lemma steps_inv: "step\<^sup>*\<^sup>* s t \<Longrightarrow> inv s \<Longrightarrow> inv t"
  by (induction rule: rtranclp_induct) (auto intro: step_inv)

end

section \<open>Searching for a free number\<close>

text \<open>
  The loop that counts up until a numbered name is free, as the name searches of the file code
  do. The numbers of a given range that are taken are finitely many because the names differ.
\<close>

definition taken_from :: "(nat \<Rightarrow> 'a) \<Rightarrow> 'a list \<Rightarrow> nat \<Rightarrow> nat set" where
  "taken_from name names c = {k. c \<le> k \<and> name k \<in> set names}"

lemma finite_taken_from: "inj name \<Longrightarrow> finite (taken_from name names c)"
proof -
  assume "inj name"
  then have "inj_on name (taken_from name names c)" by (rule inj_on_subset) simp
  moreover have "name ` taken_from name names c \<subseteq> set names"
    by (auto simp: taken_from_def)
  ultimately show ?thesis
    by (meson finite_imageD finite_set finite_subset)
qed

lemma card_taken_Suc:
  assumes "inj name" "name c \<in> set names"
  shows "card (taken_from name names (Suc c)) < card (taken_from name names c)"
proof -
  have "taken_from name names c = insert c (taken_from name names (Suc c))"
    using assms(2) by (auto simp: taken_from_def le_Suc_eq not_less_eq_eq)
  moreover have "c \<notin> taken_from name names (Suc c)"
    by (simp add: taken_from_def)
  ultimately show ?thesis
    using finite_taken_from[OF assms(1)] by simp
qed

locale counter_search =
  fixes name :: "nat \<Rightarrow> 'a"
    and names :: "'a list"
    and search :: "nat \<Rightarrow> nat"
  assumes name_inj: "inj name"
    and search_rec: "search c = (if name c \<in> set names then search (Suc c) else c)"
begin

lemma search_least:
  "name (search c) \<notin> set names \<and> c \<le> search c \<and> (\<forall>k. c \<le> k \<and> k < search c \<longrightarrow> name k \<in> set names)"
proof (induction "card (taken_from name names c)" arbitrary: c rule: less_induct)
  case less
  show ?case
  proof (cases "name c \<in> set names")
    case True
    then have eq: "search c = search (Suc c)" by (subst search_rec) simp
    show ?thesis
      using less[OF card_taken_Suc[OF name_inj True]] True unfolding eq
      by (metis Suc_leD Suc_leI le_neq_implies_less)
  next
    case False
    then have "search c = c" by (subst search_rec) simp
    then show ?thesis using False by auto
  qed
qed

end

end
