(* ===== verification/Struct_Codec.thy ===== *)
theory Struct_Codec
  imports Prelude
begin

text \<open>
  The fixed-width integers of the wire formats. \<open>struct.pack('!I', n)\<close>, \<open>struct.pack('!Q', n)\<close>
  and their inverses are part of Python's standard library; every framed message, file header and
  resume offset of PeerConnect goes through them. The locale \<open>stream_codec\<close> is the contract the
  higher layers use: decoding an encoded value followed by anything gives the value back and
  leaves the rest.
\<close>

section \<open>Big-endian numbers\<close>

fun be_encode :: "nat \<Rightarrow> nat \<Rightarrow> bytes" where
  "be_encode 0 n = []"
| "be_encode (Suc k) n = be_encode k (n div 256) @ [of_nat n]"

definition be_decode :: "bytes \<Rightarrow> nat" where
  "be_decode bs = foldl (\<lambda>a b. a * 256 + unat b) 0 bs"

lemma length_be_encode [simp]: "length (be_encode k n) = k"
  by (induction k arbitrary: n) auto

lemma be_decode_simps [simp]:
  "be_decode [] = 0"
  "be_decode (bs @ [b]) = be_decode bs * 256 + unat b"
  by (simp_all add: be_decode_def)

lemma unat_of_nat_byte: "unat (of_nat n :: byte) = n mod 256"
  by (simp add: unat_of_nat)

lemma be_decode_encode_mod: "be_decode (be_encode k n) = n mod 256 ^ k"
proof (induction k arbitrary: n)
  case 0
  then show ?case by simp
next
  case (Suc k)
  have "be_decode (be_encode (Suc k) n) = n div 256 mod 256 ^ k * 256 + n mod 256"
    by (simp add: Suc.IH unat_of_nat_byte)
  also have "\<dots> = n mod (256 * 256 ^ k)"
    by (simp add: mod_mult2_eq)
  finally show ?case by simp
qed

lemma be_decode_encode [simp]: "n < 256 ^ k \<Longrightarrow> be_decode (be_encode k n) = n"
  by (simp add: be_decode_encode_mod)

lemma byte_lt: "unat (b :: byte) < 256"
  using unsigned_less[of b] by simp

lemma be_decode_lt: "be_decode bs < 256 ^ length bs"
proof (induction bs rule: rev_induct)
  case Nil
  then show ?case by simp
next
  case (snoc b bs)
  have "unat b < 256" by (rule byte_lt)
  with snoc have "be_decode bs * 256 + unat b < (be_decode bs + 1) * 256"
    by simp
  also have "\<dots> \<le> 256 ^ length bs * 256"
    using snoc by (intro mult_right_mono) auto
  finally show ?case by simp
qed

lemma be_encode_decode [simp]: "be_encode (length bs) (be_decode bs) = bs"
proof (induction bs rule: rev_induct)
  case Nil
  then show ?case by simp
next
  case (snoc b bs)
  have "(be_decode bs * 256 + unat b) div 256 = be_decode bs"
    using byte_lt[of b] by simp
  moreover have "(of_nat (be_decode bs * 256 + unat b) :: byte) = b"
  proof -
    have "unat (of_nat (be_decode bs * 256 + unat b) :: byte) = unat b"
      using byte_lt[of b] by (simp only: unat_of_nat_byte) simp
    then show ?thesis by (rule unsigned_word_eqI)
  qed
  ultimately show ?case
    by (simp add: snoc)
qed

lemma be_decode_inj:
  assumes "length a = length b" and "be_decode a = be_decode b"
  shows "a = b"
  using assms by (metis be_encode_decode)

section \<open>struct.pack and struct.unpack\<close>

text \<open>\<open>'!I'\<close> is four bytes, \<open>'!Q'\<close> eight; out of range packs and wrong-size unpacks raise.\<close>

definition struct_pack :: "nat \<Rightarrow> nat \<Rightarrow> bytes res" where
  "struct_pack w n = (if n < 256 ^ w then Inr (be_encode w n) else Inl StructError)"

definition struct_unpack :: "nat \<Rightarrow> bytes \<Rightarrow> nat res" where
  "struct_unpack w bs = (if length bs = w then Inr (be_decode bs) else Inl StructError)"

abbreviation pack_I :: "nat \<Rightarrow> bytes res" where "pack_I \<equiv> struct_pack 4"
abbreviation unpack_I :: "bytes \<Rightarrow> nat res" where "unpack_I \<equiv> struct_unpack 4"
abbreviation pack_Q :: "nat \<Rightarrow> bytes res" where "pack_Q \<equiv> struct_pack 8"
abbreviation unpack_Q :: "bytes \<Rightarrow> nat res" where "unpack_Q \<equiv> struct_unpack 8"

lemma struct_pack_Inr [simp]:
  "struct_pack w n = Inr bs \<longleftrightarrow> n < 256 ^ w \<and> bs = be_encode w n"
  by (auto simp: struct_pack_def)

lemma struct_unpack_Inr [simp]:
  "struct_unpack w bs = Inr n \<longleftrightarrow> length bs = w \<and> n = be_decode bs"
  by (auto simp: struct_unpack_def)

lemma struct_unpack_encode [simp]:
  "n < 256 ^ w \<Longrightarrow> struct_unpack w (be_encode w n) = Inr n"
  by (simp add: struct_unpack_def)

text \<open>Evaluation of the two widths on concrete numbers.\<close>

lemma be_encode_eval:
  "be_encode 4 n = [of_nat (n div 256 div 256 div 256), of_nat (n div 256 div 256),
     of_nat (n div 256), of_nat n]"
  "be_encode 8 n = be_encode 4 (n div 256 div 256 div 256 div 256) @ be_encode 4 n"
proof -
  have four: "(4::nat) = Suc (Suc (Suc (Suc 0)))" and eight: "(8::nat) = Suc (Suc (Suc (Suc 4)))"
    by simp_all
  show "be_encode 4 n = [of_nat (n div 256 div 256 div 256), of_nat (n div 256 div 256),
     of_nat (n div 256), of_nat n]"
    by (simp add: four)
  then show "be_encode 8 n = be_encode 4 (n div 256 div 256 div 256 div 256) @ be_encode 4 n"
    by (simp only: eight be_encode.simps append_assoc append.simps)
qed

lemma struct_unpack_pack: "struct_pack w n = Inr bs \<Longrightarrow> struct_unpack w bs = Inr n"
  by simp

lemma struct_pack_unpack: "struct_unpack w bs = Inr n \<Longrightarrow> struct_pack w n = Inr bs"
  using be_decode_lt by auto

section \<open>Self-delimiting codecs\<close>

locale stream_codec =
  fixes enc :: "'a \<Rightarrow> bytes"
    and dec :: "bytes \<Rightarrow> ('a \<times> bytes) res"
    and ok :: "'a \<Rightarrow> bool"
  assumes dec_enc: "ok x \<Longrightarrow> dec (enc x @ rest) = Inr (x, rest)"
begin

lemma enc_prefix_free:
  assumes "ok x" "ok y" "enc x @ r = enc y @ s"
  shows "x = y" and "r = s"
proof -
  have "Inr (x, r) = (Inr (y, s) :: ('a \<times> bytes) res)"
    using dec_enc[OF assms(1), of r] dec_enc[OF assms(2), of s] assms(3) by metis
  then show "x = y" and "r = s" by simp_all
qed

lemma enc_inj: "ok x \<Longrightarrow> ok y \<Longrightarrow> enc x = enc y \<Longrightarrow> x = y"
  by (metis append_Nil2 enc_prefix_free(1))

text \<open>A concatenation of encoded values has one reading only.\<close>

lemma concat_inj:
  "list_all ok xs \<Longrightarrow> list_all ok ys \<Longrightarrow> length xs = length ys \<Longrightarrow>
   concat (map enc xs) @ r = concat (map enc ys) @ s \<Longrightarrow> xs = ys \<and> r = s"
proof (induction xs ys rule: list_induct2')
  case (4 x xs y ys)
  then have "enc x @ (concat (map enc xs) @ r) = enc y @ (concat (map enc ys) @ s)"
    by simp
  with 4 have "x = y" "concat (map enc xs) @ r = concat (map enc ys) @ s"
    using enc_prefix_free[of x y "concat (map enc xs) @ r" "concat (map enc ys) @ s"] by auto
  with 4 show ?case by simp
qed auto

end

text \<open>Reading one number off the front of a byte stream.\<close>

definition read_uint :: "nat \<Rightarrow> bytes \<Rightarrow> (nat \<times> bytes) res" where
  "read_uint w bs = (case struct_unpack w (take w bs) of
     Inl e \<Rightarrow> Inl e | Inr n \<Rightarrow> Inr (n, drop w bs))"

interpretation uint32: stream_codec "be_encode 4" "read_uint 4" "\<lambda>n. n < 256 ^ 4"
  by unfold_locales (simp add: read_uint_def struct_unpack_def)

interpretation uint64: stream_codec "be_encode 8" "read_uint 8" "\<lambda>n. n < 256 ^ 8"
  by unfold_locales (simp add: read_uint_def struct_unpack_def)

end
