(* ===== verification/Net_Stream.thy ===== *)
theory Net_Stream
  imports Struct_Codec
begin

text \<open>
  A connected stream socket as PeerConnect's code sees it through \<open>avails/connect.py\<close>: the bytes
  the other end has sent up to its end of stream (\<open>pending\<close>) and the schedule of what the
  operating system does on the successive \<open>recv\<close> calls (\<open>sched\<close>): hand over at most so many bytes,
  report that reading would block, or report a reset. When the schedule is used up every call
  delivers as much as was asked for. Every theorem that quantifies over a schedule therefore
  covers every fragmentation of the stream.
\<close>

datatype recv_event = Chunk nat | Block | Reset

record stream =
  pending :: bytes
  sched :: "recv_event list"

text \<open>
  \<open>socket.recv(n)\<close> on a non-blocking socket: \<open>Chunk c\<close> delivers at most \<open>c + 1\<close> bytes (a readable
  socket gives at least one), an exhausted stream gives \<open>b""\<close>.
\<close>

definition sock_recv :: "nat \<Rightarrow> stream \<Rightarrow> bytes res \<times> stream" where
  "sock_recv n s =
     (case sched s of
        [] \<Rightarrow> (Inr (take n (pending s)), s\<lparr>pending := drop n (pending s)\<rparr>)
      | Chunk c # es \<Rightarrow>
          (let k = min n (Suc c)
           in (Inr (take k (pending s)), s\<lparr>pending := drop k (pending s), sched := es\<rparr>))
      | Block # es \<Rightarrow> (Inl BlockingIOError, s\<lparr>sched := es\<rparr>)
      | Reset # es \<Rightarrow> (Inl ConnectionResetError, s\<lparr>sched := es\<rparr>))"

text \<open>\<open>Socket.arecv\<close> (\<open>loop.sock_recv\<close>): waits until the socket is readable, so it never blocks.\<close>

definition arecv :: "nat \<Rightarrow> stream \<Rightarrow> bytes res \<times> stream" where
  "arecv n s = sock_recv n (s\<lparr>sched := dropWhile (\<lambda>e. e = Block) (sched s)\<rparr>)"

text \<open>A schedule without resets, and one that never splits a read.\<close>

definition no_reset :: "stream \<Rightarrow> bool" where
  "no_reset s \<longleftrightarrow> Reset \<notin> set (sched s)"

definition unsplit :: "stream \<Rightarrow> bool" where
  "unsplit s \<longleftrightarrow> sched s = []"

lemma sock_recv_data:
  assumes "sock_recv n s = (Inr d, s')"
  shows "pending s = d @ pending s'" and "length d \<le> n" and "suffix (sched s') (sched s)"
  using assms
  by (auto simp: sock_recv_def Let_def suffix_def split: list.splits recv_event.splits)

lemma sock_recv_progress:
  assumes "sock_recv n s = (Inr d, s')" "0 < n" "pending s \<noteq> []"
  shows "d \<noteq> []"
  using assms by (auto simp: sock_recv_def Let_def split: list.splits recv_event.splits)

lemma sock_recv_eof: "sock_recv n s = (Inr d, s') \<Longrightarrow> pending s = [] \<Longrightarrow> d = []"
  using sock_recv_data(1) by fastforce

lemma sock_recv_err:
  assumes "sock_recv n s = (Inl e, s')"
  shows "pending s' = pending s" and "length (sched s') < length (sched s)"
    and "suffix (sched s') (sched s)"
    and "e \<noteq> BlockingIOError \<Longrightarrow> \<not> no_reset s"
  using assms
  by (auto simp: sock_recv_def Let_def suffix_def no_reset_def split: list.splits recv_event.splits)

lemma no_reset_suffix: "no_reset s \<Longrightarrow> suffix (sched s') (sched s) \<Longrightarrow> no_reset s'"
  by (auto simp: no_reset_def suffix_def)

lemma arecv_unsplit [simp]:
  "unsplit s \<Longrightarrow> arecv n s = (Inr (take n (pending s)), s\<lparr>pending := drop n (pending s)\<rparr>)"
  by (simp add: unsplit_def arecv_def sock_recv_def)

section \<open>Reading an exact number of bytes\<close>

text \<open>
  The loop of \<open>Wire.receive\<close>: collect until \<open>need\<close> bytes are there, wait and retry on
  \<open>BlockingIOError\<close>, raise \<open>ConnectionError\<close> when the stream ends early.
\<close>

function recv_loop :: "nat \<Rightarrow> bytes \<Rightarrow> stream \<Rightarrow> bytes res \<times> stream" where
  "recv_loop need buf s =
     (if length buf < need then
        (case sock_recv (need - length buf) s of
           (Inr d, s') \<Rightarrow> if d = [] then (Inl ConnectionError, s') else recv_loop need (buf @ d) s'
         | (Inl e, s') \<Rightarrow> if e = BlockingIOError then recv_loop need buf s' else (Inl e, s'))
      else (Inr buf, s))"
  by pat_completeness auto
termination
proof (relation "measure (\<lambda>(need, buf, s). need - length buf + length (sched s))", goal_cases)
  case 1
  then show ?case by simp
next
  case (2 need buf s x s' e)
  then show ?case
    using sock_recv_err(2)[of "need - length buf" s e s'] by simp
next
  case (3 need buf s x s' d)
  then have "suffix (sched s') (sched s)"
    using sock_recv_data(3)[of "need - length buf" s d s'] by simp
  then have "length (sched s') \<le> length (sched s)"
    by (rule suffix_length_le)
  with 3 show ?case
    by (cases d) auto
qed

declare recv_loop.simps [simp del]

lemma recv_loop_done: "need \<le> length buf \<Longrightarrow> recv_loop need buf s = (Inr buf, s)"
  by (simp add: recv_loop.simps)

text \<open>
  Whatever the fragmentation, the loop collects the next \<open>need\<close> bytes when they are there and
  raises \<open>ConnectionError\<close> when they are not; it takes exactly those bytes off the stream.
\<close>

lemma recv_loop_exact:
  assumes "no_reset s" "length buf \<le> need"
  shows "if need - length buf \<le> length (pending s)
         then \<exists>s'. recv_loop need buf s = (Inr (buf @ take (need - length buf) (pending s)), s')
               \<and> pending s' = drop (need - length buf) (pending s)
               \<and> suffix (sched s') (sched s)
         else fst (recv_loop need buf s) = Inl ConnectionError"
  using assms
proof (induction need buf s rule: recv_loop.induct)
  case (1 need buf s)
  show ?case
  proof (cases "length buf < need")
    case False
    with "1.prems" show ?thesis by (auto simp: recv_loop_done)
  next
    case less: True
    obtain r s' where r: "sock_recv (need - length buf) s = (r, s')"
      by (cases "sock_recv (need - length buf) s")
    show ?thesis
    proof (cases r)
      case (Inl e)
      note err = sock_recv_err[OF r[unfolded Inl]]
      have e: "e = BlockingIOError"
        using err(4) "1.prems"(1) by blast
      have "no_reset s'"
        using "1.prems"(1) err(3) by (rule no_reset_suffix)
      from "1.IH"(1)[OF less r[symmetric] Inl e this "1.prems"(2)] show ?thesis
        using less r Inl e err(1,3)
        by (auto simp: recv_loop.simps[of need buf s] intro: suffix_order.trans)
    next
      case (Inr d)
      note dat = sock_recv_data[OF r[unfolded Inr]]
      show ?thesis
      proof (cases "d = []")
        case True
        then have "pending s = []"
          using sock_recv_progress[OF r[unfolded Inr]] less by auto
        with True less r Inr show ?thesis
          by (auto simp: recv_loop.simps[of need buf s])
      next
        case False
        have nr: "no_reset s'"
          using "1.prems"(1) dat(3) by (rule no_reset_suffix)
        have len: "length (buf @ d) \<le> need"
          using dat(2) less by simp
        from "1.IH"(2)[OF less r[symmetric] Inr False nr len] show ?thesis
          using less r Inr False dat
          by (auto simp: recv_loop.simps[of need buf s] not_le intro: suffix_order.trans
              split: if_splits)
      qed
    qed
  qed
qed

lemma recv_loop_ok:
  assumes "no_reset s" "need \<le> length (pending s)"
  obtains s' where "recv_loop need [] s = (Inr (take need (pending s)), s')"
    and "pending s' = drop need (pending s)" and "no_reset s'"
  using recv_loop_exact[OF assms(1), of "[]" need] assms no_reset_suffix by fastforce

lemma recv_loop_short:
  assumes "no_reset s" "length (pending s) < need"
  shows "fst (recv_loop need [] s) = Inl ConnectionError"
  using recv_loop_exact[OF assms(1), of "[]" need] assms by simp

end
