(* ===== verification/Wire.thy ===== *)
theory Wire
  imports Net_Stream
begin

text \<open>
  The wire formats of \<open>src/avails/wire.py\<close>.

  \<^item> \<open>Wire\<close>: length-prefixed frames on streams and datagrams.
  \<^item> \<open>WireData\<close>, \<open>GossipMessage\<close>, \<open>DataWeaver\<close>: the message envelopes.
  \<^item> \<open>PalmTreeInformResponse\<close>, \<open>OTMChunk\<close> and the session records of the one-to-many transfer.

  The serialiser \<open>umsgpack\<close> is a third-party package, so \<open>dumps\<close> and \<open>loads\<close> are arguments of the
  definitions. What the code relies on is the package's documented behaviour: a packable value
  comes back with its tuples turned into lists (\<open>msgpack_norm\<close>), stated for the value at hand by
  \<open>packs\<close>; and \<open>loads\<close> signals malformed input by \<open>UnpackException\<close> (\<open>loads_documented\<close>).
\<close>

section \<open>Values\<close>

text \<open>The values that travel; \<open>PObj\<close> stands for any object the serialiser does not know.\<close>

datatype pyval =
    PNone | PBool bool | PInt int | PFloat rat | PStr string | PBytes bytes
  | PList "pyval list" | PTuple "pyval list" | PDict "(pyval \<times> pyval) list" | PObj nat

fun msgpack_norm :: "pyval \<Rightarrow> pyval" where
  "msgpack_norm (PList xs) = PList (map msgpack_norm xs)"
| "msgpack_norm (PTuple xs) = PList (map msgpack_norm xs)"
| "msgpack_norm (PDict kvs) = PDict (map (\<lambda>p. (fst p, msgpack_norm (snd p))) kvs)"
| "msgpack_norm v = v"

text \<open>Iterating over a value, as tuple unpacking and \<open>tuple(v)\<close> do: \<open>None\<close> is a \<open>TypeError\<close>.\<close>

fun py_iter :: "pyval \<Rightarrow> pyval list option" where
  "py_iter (PList xs) = Some xs"
| "py_iter (PTuple xs) = Some xs"
| "py_iter (PStr s) = Some (map (\<lambda>c. PStr [c]) s)"
| "py_iter (PBytes bs) = Some (map (\<lambda>b. PInt (uint b)) bs)"
| "py_iter (PDict kvs) = Some (map fst kvs)"
| "py_iter v = None"

text \<open>Truth value testing, as \<open>if v\<close>, \<open>v or w\<close> and \<open>not v\<close> do.\<close>

fun py_truth :: "pyval \<Rightarrow> bool" where
  "py_truth PNone = False"
| "py_truth (PBool b) = b"
| "py_truth (PInt i) = (i \<noteq> 0)"
| "py_truth (PFloat r) = (r \<noteq> 0)"
| "py_truth (PStr s) = (s \<noteq> [])"
| "py_truth (PBytes b) = (b \<noteq> [])"
| "py_truth (PList xs) = (xs \<noteq> [])"
| "py_truth (PTuple xs) = (xs \<noteq> [])"
| "py_truth (PDict kvs) = (kvs \<noteq> [])"
| "py_truth (PObj n) = True"

definition packs :: "(pyval \<Rightarrow> bytes res) \<Rightarrow> (bytes \<Rightarrow> pyval res) \<Rightarrow> pyval \<Rightarrow> bool" where
  "packs dumps loads v \<longleftrightarrow> (\<exists>b. dumps v = Inr b \<and> loads b = Inr (msgpack_norm v))"

definition loads_documented :: "(bytes \<Rightarrow> pyval res) \<Rightarrow> bool" where
  "loads_documented loads \<longleftrightarrow> (\<forall>b e. loads b = Inl e \<longrightarrow> e = UnpackException)"

section \<open>Wire: length-prefixed frames\<close>

definition MAX_DATAGRAM_RECV_SIZE :: nat where "MAX_DATAGRAM_RECV_SIZE = 1024 * 256"
definition MAX_DATAGRAM_SEND_SIZE :: nat where "MAX_DATAGRAM_SEND_SIZE = 1024 * 63"

text \<open>The bytes handed to \<open>sock.asendall\<close>, \<open>sock.sendall\<close> and \<open>sock.sendto\<close>.\<close>

definition Wire_send_async :: "bytes \<Rightarrow> bytes res" where
  "Wire_send_async data = (case pack_I (length data) of
     Inl e \<Rightarrow> Inl e | Inr data_size \<Rightarrow> Inr (data_size @ data))"

definition Wire_send :: "bytes \<Rightarrow> bytes res" where
  "Wire_send data = (case pack_I (length data) of
     Inl e \<Rightarrow> Inl e | Inr data_size \<Rightarrow> Inr (data_size @ data))"

definition Wire_send_datagram :: "bytes \<Rightarrow> bytes res" where
  "Wire_send_datagram data =
     (if length data > MAX_DATAGRAM_SEND_SIZE then Inl ValueError
      else case pack_I (length data) of
        Inl e \<Rightarrow> Inl e | Inr data_size \<Rightarrow> Inr (data_size @ data))"

text \<open>
  \<open>Wire.receive_async\<close> reads the size and the payload with one \<open>arecv\<close> each. The flag
  \<open>conn_ok\<close> is what \<open>is_socket_connected\<close> answers after a \<open>struct.error\<close>.
\<close>

definition Wire_receive_async :: "bool \<Rightarrow> stream \<Rightarrow> bytes res \<times> stream" where
  "Wire_receive_async conn_ok s =
     (case arecv 4 s of
        (Inl e, s') \<Rightarrow> (Inl e, s')
      | (Inr raw, s') \<Rightarrow>
          (case unpack_I raw of
             Inl e \<Rightarrow> (Inl (if conn_ok then e else OSError), s')
           | Inr data_size \<Rightarrow> arecv data_size s'))"

text \<open>\<open>Wire.receive\<close>: two exact-length loops (the blocking flag is put back as it was found).\<close>

definition Wire_receive :: "stream \<Rightarrow> bytes res \<times> stream" where
  "Wire_receive s =
     (case recv_loop 4 [] s of
        (Inl e, s') \<Rightarrow> (Inl e, s')
      | (Inr length_buf, s') \<Rightarrow>
          (case unpack_I length_buf of
             Inl e \<Rightarrow> (Inl e, s')
           | Inr data_length \<Rightarrow> recv_loop data_length [] s'))"

definition load_datagram :: "bytes \<Rightarrow> bytes res" where
  "load_datagram data_payload = (case unpack_I (take 4 data_payload) of
     Inl e \<Rightarrow> Inl e
   | Inr data_size \<Rightarrow> Inr (pyslice 4 (data_size + 4) data_payload))"

text \<open>\<open>recvfrom\<close> cuts a datagram at the buffer size before it is loaded.\<close>

definition recv_datagram :: "bytes \<Rightarrow> addr \<Rightarrow> (bytes \<times> addr) res" where
  "recv_datagram d a = (case load_datagram (take MAX_DATAGRAM_RECV_SIZE d) of
     Inl e \<Rightarrow> Inl e | Inr data \<Rightarrow> Inr (data, a))"

definition recv_datagram_async :: "bytes \<Rightarrow> addr \<Rightarrow> (bytes \<times> addr) res" where
  "recv_datagram_async d a = (case load_datagram (take MAX_DATAGRAM_RECV_SIZE d) of
     Inl e \<Rightarrow> Inl e | Inr data \<Rightarrow> Inr (data, a))"

section \<open>WireData\<close>

record wire_data =
  w_header :: pyval
  w_id :: pyval
  w_version :: pyval
  w_body :: "(string, pyval) pydict"
  w_peer_id :: pyval

definition WIRE_VERSION :: pyval where "WIRE_VERSION = PFloat 1"

text \<open>\<open>WireData(header, msg_id, peer_id, version, **kwargs)\<close>.\<close>

definition WireData :: "pyval \<Rightarrow> pyval \<Rightarrow> pyval \<Rightarrow> pyval \<Rightarrow> (string, pyval) pydict \<Rightarrow> wire_data" where
  "WireData header msg_id peer_id version kwargs =
     \<lparr>w_header = header, w_id = msg_id, w_version = version, w_body = kwargs, w_peer_id = peer_id\<rparr>"

definition wire_attributes :: "wire_data \<Rightarrow> pyval" where
  "wire_attributes w = PList [w_header w, w_id w, w_version w,
     PDict (map (\<lambda>p. (PStr (fst p), snd p)) (w_body w)), w_peer_id w]"

definition WireData_bytes :: "(pyval \<Rightarrow> bytes res) \<Rightarrow> wire_data \<Rightarrow> bytes res" where
  "WireData_bytes dumps w = dumps (wire_attributes w)"

text \<open>
  \<open>**body\<close> in a call: the value must be a mapping with string keys, none of which is a named
  parameter of \<open>__init__\<close>; otherwise Python raises \<open>TypeError\<close>.
\<close>

definition init_params :: "string list" where
  "init_params = [''self'', ''header'', ''msg_id'', ''peer_id'', ''version'']"

fun str_keys :: "(pyval \<times> pyval) list \<Rightarrow> (string, pyval) pydict option" where
  "str_keys [] = Some []"
| "str_keys ((PStr k, v) # kvs) = map_option ((#) (k, v)) (str_keys kvs)"
| "str_keys (_ # kvs) = None"

definition kwargs_of :: "pyval \<Rightarrow> (string, pyval) pydict res" where
  "kwargs_of v = (case v of
     PDict kvs \<Rightarrow> (case str_keys kvs of
        None \<Rightarrow> Inl TypeError
      | Some d \<Rightarrow> if list_ex (\<lambda>k. k \<in> set init_params) (map fst d) then Inl TypeError else Inr d)
   | _ \<Rightarrow> Inl TypeError)"

definition WireData_load_from :: "(bytes \<Rightarrow> pyval res) \<Rightarrow> bytes \<Rightarrow> wire_data res" where
  "WireData_load_from loads data =
     (case loads data of
        Inl e \<Rightarrow> Inl (if e = UnpackException \<or> e = ValueError then InvalidPacket else e)
      | Inr v \<Rightarrow>
          (case py_iter v of
             None \<Rightarrow> Inl TypeError
           | Some [header, i, version, body, peer_id] \<Rightarrow>
               (case kwargs_of body of
                  Inl e \<Rightarrow> Inl e
                | Inr d \<Rightarrow> Inr (WireData header i peer_id version d))
           | Some _ \<Rightarrow> Inl InvalidPacket))"

definition WireData_match_header :: "wire_data \<Rightarrow> pyval \<Rightarrow> bool" where
  "WireData_match_header w data \<longleftrightarrow> w_header w = data"

definition WireData_getitem :: "wire_data \<Rightarrow> string \<Rightarrow> pyval res" where
  "WireData_getitem w item = dindex (w_body w) item"

definition WireData_setitem :: "wire_data \<Rightarrow> string \<Rightarrow> pyval \<Rightarrow> wire_data" where
  "WireData_setitem w key value = w\<lparr>w_body := dset key value (w_body w)\<rparr>"

definition WireData_dict :: "wire_data \<Rightarrow> (string, pyval) pydict" where
  "WireData_dict w = fold (\<lambda>(k, v). dset k v) (w_body w)
     [(''header'', w_header w), (''msg_id'', w_id w), (''version'', w_version w),
      (''peer_id'', w_peer_id w)]"

text \<open>\<open>unpack_datagram\<close> turns every failure it expects into \<open>InvalidPacket\<close>.\<close>

definition unpack_datagram :: "(bytes \<Rightarrow> pyval res) \<Rightarrow> bytes \<Rightarrow> wire_data res" where
  "unpack_datagram loads data_payload =
     (case res_bind (load_datagram data_payload) (WireData_load_from loads) of
        Inl e \<Rightarrow> Inl (if e \<in> {UnpackException, TypeError, StructError} then InvalidPacket else e)
      | Inr w \<Rightarrow> Inr w)"

section \<open>GossipMessage\<close>

text \<open>A view on a \<open>WireData\<close>; \<open>body.get(k, None)\<close> is \<open>PNone\<close> when the key is absent.\<close>

definition empty_WireData :: wire_data where
  "empty_WireData = WireData PNone PNone PNone WIRE_VERSION []"

definition body_get :: "string \<Rightarrow> wire_data \<Rightarrow> pyval" where
  "body_get k w = (case dget (w_body w) k of None \<Rightarrow> PNone | Some v \<Rightarrow> v)"

definition gossip_message :: "wire_data \<Rightarrow> pyval" where "gossip_message = body_get ''message''"
definition gossip_ttl :: "wire_data \<Rightarrow> pyval" where "gossip_ttl = body_get ''ttl''"
definition gossip_created :: "wire_data \<Rightarrow> pyval" where "gossip_created = body_get ''created''"

definition set_gossip_message :: "pyval \<Rightarrow> wire_data \<Rightarrow> wire_data" where
  "set_gossip_message data g = WireData_setitem g ''message'' data"
definition set_gossip_ttl :: "pyval \<Rightarrow> wire_data \<Rightarrow> wire_data" where
  "set_gossip_ttl ttl g = WireData_setitem g ''ttl'' ttl"
definition set_gossip_created :: "pyval \<Rightarrow> wire_data \<Rightarrow> wire_data" where
  "set_gossip_created value g = WireData_setitem g ''created'' value"
definition set_gossip_header :: "pyval \<Rightarrow> wire_data \<Rightarrow> wire_data" where
  "set_gossip_header value g = g\<lparr>w_header := value\<rparr>"
definition set_gossip_id :: "pyval \<Rightarrow> wire_data \<Rightarrow> wire_data" where
  "set_gossip_id value g = g\<lparr>w_id := value\<rparr>"

definition fields_check :: "wire_data \<Rightarrow> bool" where
  "fields_check g \<longleftrightarrow>
     (let d = WireData_dict g
      in dmem ''id'' d \<and> dmem ''header'' d \<and> dmem ''created'' d \<and> dmem ''ttl'' d)"

section \<open>DataWeaver\<close>

text \<open>
  The envelope of the page handlers. A \<open>DataWeaver\<close> built from fields sits on a
  \<open>defaultdict(str)\<close>, whose missing keys read as the empty string and are inserted; one built from
  a JSON text sits on a plain \<open>dict\<close>. \<open>json_loads\<close> is given as an argument.
\<close>

record weaver =
  wv_data :: "(string, pyval) pydict"
  wv_default :: bool

definition DataWeaver_fields :: "pyval \<Rightarrow> pyval \<Rightarrow> pyval \<Rightarrow> pyval \<Rightarrow> pyval \<Rightarrow> weaver" where
  "DataWeaver_fields header content peer_id msg_id typ =
     \<lparr>wv_data = [(''header'', header), (''content'', content), (''peerId'', peer_id),
                 (''msgId'', msg_id), (''type'', typ)],
      wv_default = True\<rparr>"

definition DataWeaver_serial :: "(string \<Rightarrow> (string, pyval) pydict res) \<Rightarrow> string \<Rightarrow> weaver res" where
  "DataWeaver_serial json_loads serial_data =
     (if serial_data = [] then Inr (DataWeaver_fields PNone PNone PNone PNone (PInt 1))
      else case json_loads serial_data of
        Inl e \<Rightarrow> Inl e | Inr d \<Rightarrow> Inr \<lparr>wv_data = d, wv_default = False\<rparr>)"

definition weaver_getitem :: "weaver \<Rightarrow> string \<Rightarrow> pyval res \<times> weaver" where
  "weaver_getitem w key = (case dget (wv_data w) key of
     Some v \<Rightarrow> (Inr v, w)
   | None \<Rightarrow> if wv_default w then (Inr (PStr []), w\<lparr>wv_data := dset key (PStr []) (wv_data w)\<rparr>)
             else (Inl KeyError, w))"

definition weaver_setitem :: "weaver \<Rightarrow> string \<Rightarrow> pyval \<Rightarrow> weaver" where
  "weaver_setitem w key value = w\<lparr>wv_data := dset key value (wv_data w)\<rparr>"

definition field_check :: "weaver \<Rightarrow> unit res" where
  "field_check w =
     (if dmem ''msgId'' (wv_data w) \<and> dmem ''content'' (wv_data w) \<and>
         dmem ''header'' (wv_data w) \<and> dmem ''peerId'' (wv_data w)
      then Inr () else Inl InvalidPacket)"

definition weaver_missing_fields :: "weaver \<Rightarrow> string list" where
  "weaver_missing_fields w =
     filter (\<lambda>f. \<not> dmem f (wv_data w)) [''msgId'', ''content'', ''header'']"

section \<open>Palm-tree and one-to-many records\<close>

record rumor_item =
  ri_message_id :: pyval
  ri_time_in :: rat
  ri_creation_time :: pyval
  ri_peer_list :: "string set"

record inform_response =
  ir_peer_id :: pyval
  ir_passive_addr :: "pyval list"
  ir_active_addr :: "pyval list"
  ir_session_key :: pyval

definition inform_tuple :: "inform_response \<Rightarrow> pyval" where
  "inform_tuple r = PTuple [ir_peer_id r, PTuple (ir_passive_addr r), PTuple (ir_active_addr r),
     ir_session_key r]"

definition InformResponse_bytes :: "(pyval \<Rightarrow> bytes res) \<Rightarrow> inform_response \<Rightarrow> bytes res" where
  "InformResponse_bytes dumps r = dumps (inform_tuple r)"

definition InformResponse_load_from :: "(bytes \<Rightarrow> pyval res) \<Rightarrow> bytes \<Rightarrow> inform_response res" where
  "InformResponse_load_from loads data =
     (case loads data of
        Inl e \<Rightarrow> Inl e
      | Inr v \<Rightarrow>
          (case py_iter v of
             None \<Rightarrow> Inl TypeError
           | Some [peer_id, passive_addr, active_addr, session_key] \<Rightarrow>
               (case (py_iter passive_addr, py_iter active_addr) of
                  (Some p, Some a) \<Rightarrow>
                    Inr \<lparr>ir_peer_id = peer_id, ir_passive_addr = p, ir_active_addr = a,
                         ir_session_key = session_key\<rparr>
                | _ \<Rightarrow> Inl TypeError)
           | Some _ \<Rightarrow> Inl ValueError))"

record palm_session =
  ps_originate_id :: pyval
  ps_session_id :: pyval
  ps_key :: pyval
  ps_fanout :: nat
  ps_link_wait_timeout :: rat
  ps_adjacent_peers :: "pyval list"
  ps_chunk_size :: nat

record otm_session = palm_session +
  os_file_count :: nat

record otm_chunk =
  oc_chunk_number :: pyval
  oc_data :: pyval

definition OTMChunk_bytes :: "(pyval \<Rightarrow> bytes res) \<Rightarrow> otm_chunk \<Rightarrow> bytes res" where
  "OTMChunk_bytes dumps c = dumps (PTuple [oc_chunk_number c, oc_data c])"

definition OTMChunk_load_from :: "(bytes \<Rightarrow> pyval res) \<Rightarrow> bytes \<Rightarrow> otm_chunk res" where
  "OTMChunk_load_from loads data = (case loads data of
     Inl e \<Rightarrow> Inl e
   | Inr v \<Rightarrow> (case py_iter v of
        Some [n, d] \<Rightarrow> Inr \<lparr>oc_chunk_number = n, oc_data = d\<rparr>
      | _ \<Rightarrow> Inl TypeError))"


section \<open>Frames\<close>

definition frame :: "bytes \<Rightarrow> bytes" where
  "frame data = be_encode 4 (length data) @ data"

definition frameable :: "bytes \<Rightarrow> bool" where
  "frameable data \<longleftrightarrow> length data < 256 ^ 4"

lemma unpack_frame_size [simp]: "frameable d \<Longrightarrow> unpack_I (be_encode 4 (length d)) = Inr (length d)"
  unfolding frameable_def by (rule struct_unpack_encode)

lemma Wire_send_async_frame:
  "Wire_send_async data = (if frameable data then Inr (frame data) else Inl StructError)"
  by (simp add: Wire_send_async_def frame_def frameable_def struct_pack_def)

lemma Wire_send_frame:
  "Wire_send data = (if frameable data then Inr (frame data) else Inl StructError)"
  by (simp add: Wire_send_def frame_def frameable_def struct_pack_def)

lemma Wire_send_datagram_frame:
  "Wire_send_datagram data =
     (if length data \<le> MAX_DATAGRAM_SEND_SIZE then Inr (frame data) else Inl ValueError)"
  by (simp add: Wire_send_datagram_def frame_def struct_pack_def MAX_DATAGRAM_SEND_SIZE_def)

lemma take_frame [simp]:
  "take 4 (frame d @ r) = be_encode 4 (length d)" "take 4 (frame d) = be_encode 4 (length d)"
  by (simp_all add: frame_def)

lemma drop_frame [simp]: "drop 4 (frame d @ r) = d @ r"
  by (simp add: frame_def)

lemma length_frame [simp]: "length (frame d) = 4 + length d"
  by (simp add: frame_def)

lemma Wire_receive_frame_step:
  assumes "no_reset s" "frameable d" "pending s = frame d @ rest"
  obtains s' where "Wire_receive s = (Inr d, s')" "pending s' = rest" "no_reset s'"
proof -
  have four: "4 \<le> length (pending s)"
    using assms(3) by simp
  obtain s1 where s1: "recv_loop 4 [] s = (Inr (be_encode 4 (length d)), s1)"
      "pending s1 = d @ rest" "no_reset s1"
    using recv_loop_ok[OF assms(1) four] assms(3) by (metis drop_frame take_frame(1))
  have "length d \<le> length (pending s1)"
    using s1(2) by simp
  then obtain s2 where "recv_loop (length d) [] s1 = (Inr d, s2)" "pending s2 = rest" "no_reset s2"
    using recv_loop_ok[OF s1(3)] s1(2)
    by (metis append_eq_conv_conj)
  then show thesis
    using that s1(1) assms(2) by (simp add: Wire_receive_def)
qed

text \<open>Reading \<open>n\<close> frames one after the other, as a connection's reader does.\<close>

fun receive_many :: "nat \<Rightarrow> stream \<Rightarrow> bytes list res \<times> stream" where
  "receive_many 0 s = (Inr [], s)"
| "receive_many (Suc n) s =
     (case Wire_receive s of
        (Inl e, s') \<Rightarrow> (Inl e, s')
      | (Inr d, s') \<Rightarrow>
          (case receive_many n s' of
             (Inl e, s'') \<Rightarrow> (Inl e, s'')
           | (Inr ds, s'') \<Rightarrow> (Inr (d # ds), s'')))"

definition read_frame :: "bytes \<Rightarrow> (bytes \<times> bytes) res" where
  "read_frame bs = (case Wire_receive \<lparr>pending = bs, sched = []\<rparr> of
     (Inl e, _) \<Rightarrow> Inl e | (Inr d, s') \<Rightarrow> Inr (d, pending s'))"

interpretation frames: stream_codec frame read_frame frameable
proof unfold_locales
  fix d rest assume "frameable d"
  then obtain s' where "Wire_receive \<lparr>pending = frame d @ rest, sched = []\<rparr> = (Inr d, s')"
      "pending s' = rest"
    using Wire_receive_frame_step[of "\<lparr>pending = frame d @ rest, sched = []\<rparr>" d rest]
    by (auto simp: no_reset_def)
  then show "read_frame (frame d @ rest) = Inr (d, rest)"
    by (simp add: read_frame_def)
qed

section \<open>Properties of the frame layer\<close>

text \<open>
  C2. \<open>Wire.receive\<close> reads what \<open>Wire.send\<close> wrote, for every message that fits a 32-bit length and
  every fragmentation of the stream: a sequence of frames is delivered message by message, in
  order, and exactly the frames are taken off the stream.
\<close>

theorem receive_many_frames:
  assumes "no_reset s" and "list_all (\<lambda>d. \<exists>b. Wire_send d = Inr b) ds"
    and "pending s = concat (map (\<lambda>d. case Wire_send d of Inr b \<Rightarrow> b) ds) @ rest"
  shows "\<exists>s'. receive_many (length ds) s = (Inr ds, s') \<and> pending s' = rest"
  using assms
proof (induction ds arbitrary: s)
  case Nil
  then show ?case by simp
next
  case (Cons d ds)
  have fr: "frameable d"
    using Cons.prems(2) by (auto simp: Wire_send_frame split: if_splits)
  then have "pending s = frame d @ (concat (map (\<lambda>d. case Wire_send d of Inr b \<Rightarrow> b) ds) @ rest)"
    using Cons.prems(3) by (simp add: Wire_send_frame)
  then obtain s' where s': "Wire_receive s = (Inr d, s')" "no_reset s'"
      "pending s' = concat (map (\<lambda>d. case Wire_send d of Inr b \<Rightarrow> b) ds) @ rest"
    using Wire_receive_frame_step[OF Cons.prems(1) fr] by metis
  from Cons.IH[OF s'(2) _ s'(3)] Cons.prems(2) s'(1) show ?case
    by auto
qed

theorem receive_many_frames_witness:
  "\<exists>s'. receive_many 2 \<lparr>pending = [0,0,0,2,7,8, 0,0,0,1,9, 5], sched = [Chunk 1, Block, Chunk 0]\<rparr>
      = (Inr [[7, 8], [9]], s') \<and> pending s' = [5]"
  using receive_many_frames[of "\<lparr>pending = [0,0,0,2,7,8, 0,0,0,1,9, 5], sched = [Chunk 1, Block, Chunk 0]\<rparr>"
      "[[7, 8], [9]]" "[5]"]
  by (simp add: no_reset_def Wire_send_def struct_pack_def be_encode_eval numeral_2_eq_2)

text \<open>
  C25. When the peer closes the connection in the middle of a frame, \<open>Wire.receive\<close> raises
  \<open>ConnectionError\<close> whatever the fragmentation; it never returns a truncated message.
\<close>

theorem Wire_receive_truncated:
  assumes "no_reset s" and "frameable d" and "strict_prefix (pending s) (frame d)"
  shows "fst (Wire_receive s) = Inl ConnectionError"
proof (cases "4 \<le> length (pending s)")
  case False
  then have "fst (recv_loop 4 [] s) = Inl ConnectionError"
    using recv_loop_short[OF assms(1)] by simp
  then show ?thesis
    by (auto simp: Wire_receive_def split: prod.split sum.split)
next
  case True
  obtain t where t: "frame d = pending s @ t" "t \<noteq> []"
    using assms(3) by (auto simp: strict_prefix_def prefix_def)
  have hd4: "take 4 (pending s) = be_encode 4 (length d)"
    using True t(1) take_frame(2)[of d] by (metis append_Nil2 take_append diff_is_0_eq' take0)
  obtain s1 where s1: "recv_loop 4 [] s = (Inr (be_encode 4 (length d)), s1)"
      "pending s1 = drop 4 (pending s)" "no_reset s1"
    using recv_loop_ok[OF assms(1) True] hd4 by metis
  have "length (pending s) < 4 + length d"
    using t by (metis length_append length_frame length_greater_0_conv less_add_same_cancel1)
  then have "length (pending s1) < length d"
    using True s1(2) by simp
  then have "fst (recv_loop (length d) [] s1) = Inl ConnectionError"
    using recv_loop_short[OF s1(3)] by simp
  then show ?thesis
    using s1(1) assms(2) by (simp add: Wire_receive_def)
qed

theorem Wire_receive_truncated_witness:
  "fst (Wire_receive \<lparr>pending = [0,0,0,3,1], sched = [Block, Chunk 2]\<rparr>) = Inl ConnectionError"
  using Wire_receive_truncated[of "\<lparr>pending = [0,0,0,3,1], sched = [Block, Chunk 2]\<rparr>" "[1,2,3]"]
  by (simp add: no_reset_def frameable_def frame_def be_encode_eval strict_prefix_def)


section \<open>Datagrams and WireData\<close>

lemma load_datagram_frame [simp]: "frameable d \<Longrightarrow> load_datagram (frame d @ junk) = Inr d"
proof -
  assume "frameable d"
  moreover have "pyslice 4 (length d + 4) (frame d @ junk) = d"
    by (simp add: pyslice_def frame_def)
  ultimately show ?thesis
    by (simp add: load_datagram_def)
qed

lemma load_datagram_frame_exact [simp]: "frameable d \<Longrightarrow> load_datagram (frame d) = Inr d"
  using load_datagram_frame[of d "[]"] by simp

lemma frameable_small: "length d \<le> MAX_DATAGRAM_SEND_SIZE \<Longrightarrow> frameable d"
  by (simp add: frameable_def MAX_DATAGRAM_SEND_SIZE_def)

lemma py_iter_norm: "py_iter (msgpack_norm (PTuple xs)) = Some (map msgpack_norm xs)"
  by simp

lemma str_keys_map [simp]:
  "str_keys (map (\<lambda>p. (fst p, f (snd p))) (map (\<lambda>p. (PStr (fst p), snd p)) d)) =
     Some (map (\<lambda>p. (fst p, f (snd p))) d)"
  by (induction d) auto

definition norm_wire :: "wire_data \<Rightarrow> wire_data" where
  "norm_wire w = \<lparr>w_header = msgpack_norm (w_header w), w_id = msgpack_norm (w_id w),
     w_version = msgpack_norm (w_version w),
     w_body = map (\<lambda>p. (fst p, msgpack_norm (snd p))) (w_body w),
     w_peer_id = msgpack_norm (w_peer_id w)\<rparr>"

text \<open>The keys a keyword argument list can hold: those that are not parameters of \<open>__init__\<close>.\<close>

definition kwargs_ok :: "wire_data \<Rightarrow> bool" where
  "kwargs_ok w \<longleftrightarrow> list_all (\<lambda>p. fst p \<notin> set init_params) (w_body w)"

lemma kwargs_of_norm:
  assumes "kwargs_ok w"
  shows "kwargs_of (msgpack_norm (PDict (map (\<lambda>p. (PStr (fst p), snd p)) (w_body w)))) =
    Inr (map (\<lambda>p. (fst p, msgpack_norm (snd p))) (w_body w))"
proof -
  have "\<not> list_ex (\<lambda>k. k \<in> set init_params)
      (map fst (map (\<lambda>p. (fst p, msgpack_norm (snd p))) (w_body w)))"
    using assms by (auto simp: kwargs_ok_def list_all_iff list_ex_iff)
  then show ?thesis
    unfolding kwargs_of_def msgpack_norm.simps pyval.case str_keys_map option.case by simp
qed

lemma WireData_load_from_attributes:
  assumes "kwargs_ok w" and "loads b = Inr (msgpack_norm (wire_attributes w))"
  shows "WireData_load_from loads b = Inr (norm_wire w)"
  using kwargs_of_norm[OF assms(1)] assms(2)
  by (simp add: WireData_load_from_def wire_attributes_def norm_wire_def WireData_def)

text \<open>
  A \<open>WireData\<close> that fits a datagram arrives as it was sent: \<open>bytes\<close>, \<open>Wire.send_datagram\<close>,
  \<open>recvfrom\<close> with the receive buffer, \<open>unpack_datagram\<close> give back the message, with tuples turned
  into lists by the serialiser.
\<close>

theorem wire_data_datagram_roundtrip:
  assumes "packs dumps loads (wire_attributes w)" and "kwargs_ok w"
    and "WireData_bytes dumps w = Inr raw" and "Wire_send_datagram raw = Inr dgram"
  shows "unpack_datagram loads (take MAX_DATAGRAM_RECV_SIZE dgram) = Inr (norm_wire w)"
proof -
  have len: "length raw \<le> MAX_DATAGRAM_SEND_SIZE" and dg: "dgram = frame raw"
    using assms(4) by (auto simp: Wire_send_datagram_frame split: if_splits)
  then have "take MAX_DATAGRAM_RECV_SIZE dgram = frame raw"
    by (simp add: MAX_DATAGRAM_SEND_SIZE_def MAX_DATAGRAM_RECV_SIZE_def)
  moreover have "loads raw = Inr (msgpack_norm (wire_attributes w))"
    using assms(1,3) by (auto simp: packs_def WireData_bytes_def)
  ultimately show ?thesis
    using frameable_small[OF len] WireData_load_from_attributes[OF assms(2)]
    by (simp add: unpack_datagram_def)
qed

theorem wire_data_datagram_roundtrip_witness:
  "unpack_datagram (\<lambda>b. Inr (PList [PStr ''h'', PStr ''7'', PFloat 1, PDict [(PStr ''a'', PList [PInt 1])], PNone]))
     (take MAX_DATAGRAM_RECV_SIZE [0, 0, 0, 1, 42]) =
   Inr \<lparr>w_header = PStr ''h'', w_id = PStr ''7'', w_version = PFloat 1,
        w_body = [(''a'', PList [PInt 1])], w_peer_id = PNone\<rparr>"
  using wire_data_datagram_roundtrip[of "\<lambda>v. Inr [42]"
      "\<lambda>b. Inr (PList [PStr ''h'', PStr ''7'', PFloat 1, PDict [(PStr ''a'', PList [PInt 1])], PNone])"
      "WireData (PStr ''h'') (PStr ''7'') PNone (PFloat 1) [(''a'', PTuple [PInt 1])]" "[42]"
      "[0, 0, 0, 1, 42]"]
  by (simp add: packs_def wire_attributes_def WireData_def kwargs_ok_def init_params_def
      WireData_bytes_def Wire_send_datagram_def struct_pack_def be_encode_eval
      MAX_DATAGRAM_SEND_SIZE_def norm_wire_def)

lemma unpack_datagram_total:
  assumes "loads_documented loads"
  shows "(\<exists>w. unpack_datagram loads payload = Inr w) \<or> unpack_datagram loads payload = Inl InvalidPacket"
proof -
  have kw: "kwargs_of v = Inl e \<Longrightarrow> e = TypeError" for v e
    by (auto simp: kwargs_of_def split: pyval.splits option.splits if_splits)
  have "WireData_load_from loads b = Inl e \<Longrightarrow> e \<in> {InvalidPacket, TypeError}" for b e
    using assms
    by (auto simp: WireData_load_from_def loads_documented_def split: sum.splits option.splits
        list.splits if_splits dest: kw)
  moreover have "load_datagram payload = Inl e \<Longrightarrow> e = StructError" for e
    by (auto simp: load_datagram_def struct_unpack_def split: if_splits)
  ultimately show ?thesis
    by (cases "load_datagram payload"; cases "WireData_load_from loads (projr (load_datagram payload))")
      (fastforce simp: unpack_datagram_def)+
qed

text \<open>
  \<open>unpack_datagram\<close> is total on hostile input: for every byte string it returns a message or
  raises \<open>InvalidPacket\<close>, the only exception its callers catch.
\<close>

theorem unpack_datagram_safe:
  assumes "loads_documented loads"
  shows "(\<exists>w. unpack_datagram loads payload = Inr w) \<or> unpack_datagram loads payload = Inl InvalidPacket"
  using assms by (rule unpack_datagram_total)

theorem unpack_datagram_safe_witness:
  "unpack_datagram (\<lambda>b. Inl UnpackException) [0, 0, 0, 1, 255] = Inl InvalidPacket"
  using unpack_datagram_safe[of "\<lambda>b. Inl UnpackException" "[0, 0, 0, 1, 255]"]
  by (auto simp: loads_documented_def unpack_datagram_def WireData_load_from_def
      split: sum.splits)

definition flat_val :: "pyval \<Rightarrow> bool" where
  "flat_val v \<longleftrightarrow> msgpack_norm v = v"

text \<open>
  \<open>PalmTreeInformResponse\<close> survives the wire: the address tuples, which the serialiser turns
  into lists, are tuples again after \<open>load_from\<close>.
\<close>

theorem inform_response_roundtrip:
  assumes "packs dumps loads (inform_tuple r)"
    and "list_all flat_val (ir_peer_id r # ir_session_key r # ir_passive_addr r @ ir_active_addr r)"
  shows "res_bind (InformResponse_bytes dumps r) (InformResponse_load_from loads) = Inr r"
proof -
  have "map msgpack_norm xs = xs" if "list_all flat_val xs" for xs
    using that by (induction xs) (auto simp: flat_val_def)
  with assms show ?thesis
    by (cases r)
      (auto simp: packs_def InformResponse_bytes_def InformResponse_load_from_def inform_tuple_def
        flat_val_def)
qed

theorem inform_response_roundtrip_witness:
  "InformResponse_load_from
     (\<lambda>b. Inr (PList [PStr ''7'', PList [PStr ''::1'', PInt 1], PList [PStr ''::1'', PInt 2], PStr ''k'']))
     [1] =
   Inr \<lparr>ir_peer_id = PStr ''7'', ir_passive_addr = [PStr ''::1'', PInt 1],
        ir_active_addr = [PStr ''::1'', PInt 2], ir_session_key = PStr ''k''\<rparr>"
  using inform_response_roundtrip[of "\<lambda>v. Inr [1]"
      "\<lambda>b. Inr (PList [PStr ''7'', PList [PStr ''::1'', PInt 1], PList [PStr ''::1'', PInt 2], PStr ''k''])"
      "\<lparr>ir_peer_id = PStr ''7'', ir_passive_addr = [PStr ''::1'', PInt 1],
        ir_active_addr = [PStr ''::1'', PInt 2], ir_session_key = PStr ''k''\<rparr>"]
  by (simp add: packs_def inform_tuple_def flat_val_def InformResponse_bytes_def)

text \<open>The keys of \<open>WireData.dict\<close>: the four envelope names and those of the body.\<close>

lemma dmem_fold_dset:
  "dmem k (fold (\<lambda>(k, v). dset k v) kvs d) \<longleftrightarrow> dmem k d \<or> k \<in> fst ` set kvs"
  by (induction kvs arbitrary: d) force+

lemma dmem_WireData_dict:
  "dmem k (WireData_dict w) \<longleftrightarrow>
     k \<in> {''header'', ''msg_id'', ''version'', ''peer_id''} \<or> dmem k (w_body w)"
  unfolding WireData_dict_def dmem_fold_dset by (auto simp: dmem_def dkeys_def)

lemma fields_check_iff:
  "fields_check g \<longleftrightarrow> dmem ''id'' (w_body g) \<and> dmem ''created'' (w_body g) \<and> dmem ''ttl'' (w_body g)"
  by (auto simp: fields_check_def Let_def dmem_WireData_dict)

end
