(* ===== verification/Remote_Peer.thy ===== *)
theory Remote_Peer
  imports Wire
begin

text \<open>
  Peers and their identifiers, \<open>src/avails/remotepeer.py\<close>: the attributes of \<open>RemotePeer\<close>, its
  serialised form, the XOR distance that Kademlia routes by, and the conversion of a textual peer
  id back to bytes. The locale \<open>xor_space\<close> is the contract the list-key selection of
  \<open>core/_kademlia.py\<close> rests on.
\<close>

unbundle bit_operations_syntax

section \<open>Decimal numerals\<close>

text \<open>\<open>str(n)\<close> and \<open>int(s)\<close> on non-negative integers.\<close>

definition digit_char :: "nat \<Rightarrow> char" where
  "digit_char d = char_of (48 + d)"

fun str_of_nat :: "nat \<Rightarrow> string" where
  "str_of_nat n = (if n < 10 then [digit_char n] else str_of_nat (n div 10) @ [digit_char (n mod 10)])"

declare str_of_nat.simps [simp del]

definition is_digit :: "char \<Rightarrow> bool" where
  "is_digit c \<longleftrightarrow> 48 \<le> (of_char c :: nat) \<and> (of_char c :: nat) \<le> 57"

definition digit_val :: "char \<Rightarrow> nat" where
  "digit_val c = of_char c - 48"

definition int_of_str :: "string \<Rightarrow> nat res" where
  "int_of_str s = (if s \<noteq> [] \<and> list_all is_digit s
     then Inr (foldl (\<lambda>a c. 10 * a + digit_val c) 0 s) else Inl ValueError)"

lemma of_char_digit: "d < 10 \<Longrightarrow> (of_char (digit_char d) :: nat) = 48 + d"
  by (simp add: digit_char_def)

lemma digit_val_char [simp]: "d < 10 \<Longrightarrow> digit_val (digit_char d) = d"
  by (simp add: digit_val_def of_char_digit)

lemma is_digit_char [simp]: "d < 10 \<Longrightarrow> is_digit (digit_char d)"
  by (simp add: is_digit_def of_char_digit)

lemma str_of_nat_digits: "str_of_nat n \<noteq> [] \<and> list_all is_digit (str_of_nat n)"
proof (induction n rule: str_of_nat.induct)
  case (1 n)
  then show ?case
    by (cases "n < 10") (auto simp: str_of_nat.simps[of n])
qed

lemma foldl_str_of_nat: "foldl (\<lambda>a c. 10 * a + digit_val c) 0 (str_of_nat n) = n"
proof (induction n rule: str_of_nat.induct)
  case (1 n)
  then show ?case
    by (cases "n < 10") (auto simp: str_of_nat.simps[of n])
qed

lemma int_of_str_of_nat [simp]: "int_of_str (str_of_nat n) = Inr n"
  using str_of_nat_digits[of n] by (simp add: int_of_str_def foldl_str_of_nat)

lemma str_of_nat_inj: "str_of_nat m = str_of_nat n \<Longrightarrow> m = n"
  by (metis int_of_str_of_nat sum.inject(2))

section \<open>RemotePeer\<close>

record remote_peer =
  rp_username :: pyval
  rp_ip :: string
  rp_conn_port :: pyval
  rp_req_port :: pyval
  rp_status :: pyval
  rp_id :: bytes
  rp_long_id :: nat
  rp_byte_cache :: "(int \<times> bytes) option"

definition ONLINE :: pyval where "ONLINE = PInt 1"
definition OFFLINE :: pyval where "OFFLINE = PInt 0"

definition PORT_THIS :: pyval where "PORT_THIS = PInt 3485"
definition PORT_REQ :: pyval where "PORT_REQ = PInt 3486"

text \<open>\<open>int(byte_id.hex(), 16)\<close>: the empty string is not a number.\<close>

definition long_id_of :: "bytes \<Rightarrow> nat res" where
  "long_id_of byte_id = (if byte_id = [] then Inl ValueError else Inr (be_decode byte_id))"

definition RemotePeer_init ::
  "bytes \<Rightarrow> pyval \<Rightarrow> string \<Rightarrow> pyval \<Rightarrow> pyval \<Rightarrow> pyval \<Rightarrow> remote_peer res" where
  "RemotePeer_init byte_id username ip conn_port req_port status =
     (case long_id_of byte_id of
        Inl e \<Rightarrow> Inl e
      | Inr l \<Rightarrow> Inr \<lparr>rp_username = username, rp_ip = ip, rp_conn_port = conn_port,
          rp_req_port = req_port, rp_status = status, rp_id = byte_id, rp_long_id = l,
          rp_byte_cache = None\<rparr>)"

definition uri :: "remote_peer \<Rightarrow> string \<times> pyval" where
  "uri p = (rp_ip p, rp_conn_port p)"

definition req_uri :: "remote_peer \<Rightarrow> string \<times> pyval" where
  "req_uri p = (rp_ip p, rp_req_port p)"

definition same_home_as :: "remote_peer \<Rightarrow> remote_peer \<Rightarrow> bool" where
  "same_home_as p q \<longleftrightarrow> rp_ip p = rp_ip q \<and> req_uri p = req_uri q \<and> uri p = uri q"

definition distance_to :: "remote_peer \<Rightarrow> remote_peer \<Rightarrow> nat" where
  "distance_to p q = rp_long_id p XOR rp_long_id q"

definition peer_id :: "remote_peer \<Rightarrow> string" where
  "peer_id p = str_of_nat (rp_long_id p)"

definition peer_iter :: "remote_peer \<Rightarrow> pyval list" where
  "peer_iter p = [PBytes (rp_id p), rp_username p, PStr (rp_ip p), rp_conn_port p, rp_req_port p,
     rp_status p]"

definition RemotePeer_bytes :: "(pyval \<Rightarrow> bytes res) \<Rightarrow> remote_peer \<Rightarrow> bytes res" where
  "RemotePeer_bytes dumps p = dumps (PList (peer_iter p))"

text \<open>
  \<open>cls(*list_of_attrs)\<close> with the defaults of \<open>__init__\<close> for missing trailing arguments. \<open>py_repr\<close> is
  Python's \<open>str\<close> on values that are not strings; a first argument that is not a byte string has no
  \<open>hex\<close> method (a float has one, whose text is not hexadecimal digits).
\<close>

definition py_str :: "(pyval \<Rightarrow> string) \<Rightarrow> pyval \<Rightarrow> string" where
  "py_str py_repr v = (case v of PStr s \<Rightarrow> s | _ \<Rightarrow> py_repr v)"

definition peer_of_args :: "(pyval \<Rightarrow> string) \<Rightarrow> pyval list \<Rightarrow> remote_peer res" where
  "peer_of_args py_repr args =
     (if length args > 6 then Inl TypeError
      else let arg = (\<lambda>i d. if i < length args then args ! i else d);
               byte_id = arg 0 (PBytes [0]); username = arg 1 PNone; ip = arg 2 PNone;
               conn_port = arg 3 PORT_THIS; req_port = arg 4 PORT_REQ; status = arg 5 OFFLINE
           in case byte_id of
                PBytes b \<Rightarrow> RemotePeer_init b username (py_str py_repr ip) conn_port req_port status
              | PFloat _ \<Rightarrow> Inl ValueError
              | _ \<Rightarrow> Inl AttributeError)"

definition RemotePeer_load_from ::
  "(bytes \<Rightarrow> pyval res) \<Rightarrow> (pyval \<Rightarrow> string) \<Rightarrow> bytes \<Rightarrow> remote_peer res" where
  "RemotePeer_load_from loads py_repr data = (case loads data of
     Inl e \<Rightarrow> Inl e
   | Inr v \<Rightarrow> (case py_iter v of
        None \<Rightarrow> Inl TypeError
      | Some args \<Rightarrow> peer_of_args py_repr args))"

text \<open>\<open>match_string in self.username\<close>.\<close>

definition is_relevant :: "string \<Rightarrow> remote_peer \<Rightarrow> bool res" where
  "is_relevant match_string p = (case rp_username p of
     PStr u \<Rightarrow> Inr (sublist match_string u) | _ \<Rightarrow> Inl TypeError)"

text \<open>The cached serialised form; \<open>h\<close> is Python's \<open>hash\<close> on the attribute tuple.\<close>

definition serialized ::
  "(pyval list \<Rightarrow> int) \<Rightarrow> (pyval \<Rightarrow> bytes res) \<Rightarrow> remote_peer \<Rightarrow> bytes res \<times> remote_peer" where
  "serialized h dumps p =
     (let hashed = h (peer_iter p)
      in case rp_byte_cache p of
           Some (k, r) \<Rightarrow> if hashed = k then (Inr r, p)
             else (case RemotePeer_bytes dumps p of
                     Inl e \<Rightarrow> (Inl e, p)
                   | Inr r' \<Rightarrow> (Inr r', p\<lparr>rp_byte_cache := Some (hashed, r')\<rparr>))
         | None \<Rightarrow> (case RemotePeer_bytes dumps p of
                     Inl e \<Rightarrow> (Inl e, p)
                   | Inr r' \<Rightarrow> (Inr r', p\<lparr>rp_byte_cache := Some (hashed, r')\<rparr>)))"

definition peer_eq :: "remote_peer \<Rightarrow> remote_peer \<Rightarrow> bool" where
  "peer_eq p q \<longleftrightarrow> uri p = uri q \<and> rp_username p = rp_username q"

definition peer_lt :: "remote_peer \<Rightarrow> remote_peer \<Rightarrow> bool" where
  "peer_lt p q \<longleftrightarrow> rp_long_id p < rp_long_id q"

text \<open>\<open>int(peer_id).to_bytes(16)\<close>.\<close>

definition convert_peer_id_to_byte_id :: "string \<Rightarrow> bytes res" where
  "convert_peer_id_to_byte_id s = (case int_of_str s of
     Inl e \<Rightarrow> Inl e
   | Inr n \<Rightarrow> if n < 256 ^ 16 then Inr (be_encode 16 n) else Inl OverflowError)"

text \<open>Peers as the constructor makes them.\<close>

definition peer_wf :: "remote_peer \<Rightarrow> bool" where
  "peer_wf p \<longleftrightarrow> rp_id p \<noteq> [] \<and> rp_long_id p = be_decode (rp_id p)"

lemma RemotePeer_init_wf [inv_intros]: "RemotePeer_init b u i c r s = Inr p \<Longrightarrow> peer_wf p"
  by (auto simp: RemotePeer_init_def long_id_of_def peer_wf_def split: if_splits)

lemma serialized_wf [inv_intros]: "peer_wf p \<Longrightarrow> peer_wf (snd (serialized h dumps p))"
  by (auto simp: serialized_def Let_def peer_wf_def split: option.split sum.split)

section \<open>The XOR metric\<close>

lemma xor_le_add: "(a XOR b :: nat) \<le> a + b"
proof (induction a arbitrary: b rule: less_induct)
  case (less a)
  show ?case
  proof (cases "a = 0")
    case True
    then show ?thesis by simp
  next
    case False
    then have "a div 2 < a" by simp
    then have "(a div 2) XOR (b div 2) \<le> a div 2 + b div 2"
      by (rule less)
    moreover have "a XOR b = of_bool (odd a \<noteq> odd b) + 2 * ((a div 2) XOR (b div 2))"
      by (rule xor_rec)
    ultimately show ?thesis
      by (cases "odd a"; cases "odd b") (auto elim!: oddE evenE)
  qed
qed

lemma xor_nat_triangle: "(a XOR c :: nat) \<le> (a XOR b) + (b XOR c)"
proof -
  have "a XOR c = (a XOR b) XOR (b XOR c)"
    by (simp add: xor.assoc) (simp add: xor.assoc[symmetric])
  then show ?thesis
    using xor_le_add by simp
qed

lemma xor_nat_eq_0: "(a XOR b :: nat) = 0 \<longleftrightarrow> a = b"
  by (metis xor.assoc xor.left_neutral xor.right_neutral xor_self_eq)

lemma xor_nat_cancel: "(a XOR b :: nat) = a XOR c \<longleftrightarrow> b = c"
  by (metis xor.assoc xor.left_neutral xor_self_eq)

locale xor_space =
  fixes dist :: "'n \<Rightarrow> 'n \<Rightarrow> nat"
    and key :: "'n \<Rightarrow> nat"
  assumes dist_zero: "dist x y = 0 \<longleftrightarrow> key x = key y"
    and dist_sym: "dist x y = dist y x"
    and dist_triangle: "dist x z \<le> dist x y + dist y z"
    and dist_unidirectional: "dist x y = dist x z \<Longrightarrow> key y = key z"
begin

definition nearest :: "'n \<Rightarrow> 'n set \<Rightarrow> 'n \<Rightarrow> bool" where
  "nearest x S y \<longleftrightarrow> y \<in> S \<and> (\<forall>z\<in>S. dist x y \<le> dist x z)"

lemma nearest_unique: "nearest x S y \<Longrightarrow> nearest x S z \<Longrightarrow> key y = key z"
  by (metis dist_unidirectional le_antisym nearest_def)

lemma nearest_exists: "finite S \<Longrightarrow> S \<noteq> {} \<Longrightarrow> \<exists>y. nearest x S y"
proof -
  assume "finite S" "S \<noteq> {}"
  then have "Min (dist x ` S) \<in> dist x ` S"
    by (intro Min_in) auto
  then obtain y where "y \<in> S" "Min (dist x ` S) = dist x y"
    by (rule imageE)
  with \<open>finite S\<close> have "nearest x S y"
    unfolding nearest_def by (metis Min_le finite_imageI imageI)
  then show ?thesis ..
qed

lemma nearest_insert:
  "nearest x S y \<Longrightarrow> nearest x (insert z S) (if dist x z < dist x y then z else y)"
  by (auto simp: nearest_def intro: order.trans less_imp_le)

end

interpretation keys: xor_space "(XOR)" "\<lambda>n :: nat. n"
proof unfold_locales
  show "x XOR y = y XOR x" for x y :: nat by (rule xor.commute)
qed (simp_all only: xor_nat_eq_0 xor_nat_cancel xor_nat_triangle)

interpretation peers: xor_space distance_to rp_long_id
proof unfold_locales
  show "distance_to x y = distance_to y x" for x y by (simp add: distance_to_def keys.dist_sym)
qed (simp_all only: distance_to_def xor_nat_eq_0 xor_nat_cancel xor_nat_triangle)

section \<open>Properties\<close>

text \<open>
  \<open>distance_to\<close> is Kademlia's metric: symmetric, zero exactly for peers with the same
  identifier, subject to the triangle inequality, and unidirectional, so no two identifiers are at
  the same distance from a peer.
\<close>

theorem distance_to_metric:
  "distance_to p q = distance_to q p \<and>
   (distance_to p q = 0 \<longleftrightarrow> rp_long_id p = rp_long_id q) \<and>
   distance_to p r \<le> distance_to p q + distance_to q r \<and>
   (distance_to p q = distance_to p r \<longleftrightarrow> rp_long_id q = rp_long_id r)"
proof (intro conjI)
  show "distance_to p q = distance_to q p" by (rule peers.dist_sym)
  show "distance_to p q = 0 \<longleftrightarrow> rp_long_id p = rp_long_id q" by (rule peers.dist_zero)
  show "distance_to p r \<le> distance_to p q + distance_to q r" by (rule peers.dist_triangle)
  show "distance_to p q = distance_to p r \<longleftrightarrow> rp_long_id q = rp_long_id r"
    by (simp only: distance_to_def xor_nat_cancel)
qed

text \<open>
  C26. A peer built by the constructor comes back from \<open>RemotePeer.load_from\<close> on its own bytes, with
  every attribute and the derived \<open>long_id\<close>; only the byte cache starts empty.
\<close>

theorem remote_peer_roundtrip:
  assumes "peer_wf p" and "packs dumps loads (PList (peer_iter p))"
    and "list_all flat_val (peer_iter p)"
  shows "res_bind (RemotePeer_bytes dumps p) (RemotePeer_load_from loads py_repr) =
    Inr (p\<lparr>rp_byte_cache := None\<rparr>)"
proof -
  have norm: "map msgpack_norm xs = xs" if "list_all flat_val xs" for xs
    using that by (induction xs) (auto simp: flat_val_def)
  obtain b where b: "RemotePeer_bytes dumps p = Inr b" "loads b = Inr (PList (peer_iter p))"
    using assms(2) norm[OF assms(3)] by (auto simp: packs_def RemotePeer_bytes_def)
  moreover have "peer_of_args py_repr (peer_iter p) = Inr (p\<lparr>rp_byte_cache := None\<rparr>)"
    using assms(1)
    by (simp add: peer_of_args_def peer_iter_def RemotePeer_init_def long_id_of_def peer_wf_def
        py_str_def)
  ultimately show ?thesis
    by (simp add: RemotePeer_load_from_def)
qed

theorem remote_peer_roundtrip_witness:
  "RemotePeer_load_from (\<lambda>b. Inr (PList [PBytes [1, 2], PStr ''bob'', PStr ''::1'', PInt 1, PInt 2, PInt 1]))
     (\<lambda>_. []) [9] =
   Inr \<lparr>rp_username = PStr ''bob'', rp_ip = ''::1'', rp_conn_port = PInt 1, rp_req_port = PInt 2,
     rp_status = PInt 1, rp_id = [1, 2], rp_long_id = 258, rp_byte_cache = None\<rparr>"
  using remote_peer_roundtrip[of "\<lparr>rp_username = PStr ''bob'', rp_ip = ''::1'', rp_conn_port = PInt 1,
      rp_req_port = PInt 2, rp_status = PInt 1, rp_id = [1, 2], rp_long_id = 258, rp_byte_cache = Some (3, [])\<rparr>"
      "\<lambda>v. Inr [9]" "\<lambda>b. Inr (PList [PBytes [1, 2], PStr ''bob'', PStr ''::1'', PInt 1, PInt 2, PInt 1])"
      "\<lambda>_. []"]
  by (simp add: peer_wf_def be_decode_def packs_def peer_iter_def flat_val_def RemotePeer_bytes_def)

text \<open>
  \<open>convert_peer_id_to_byte_id\<close> never recovers the identifier of a peer with the 20-byte ids that
  \<open>digest\<close> produces: it raises \<open>OverflowError\<close> for identifiers of more than 128 bits and returns
  16 bytes otherwise. A lookup by textual id therefore never matches \<open>peer.id == byte_id\<close>.
\<close>

theorem convert_peer_id_mismatch:
  assumes "peer_wf p" and "length (rp_id p) = 20"
  shows "convert_peer_id_to_byte_id (peer_id p) =
      (if rp_long_id p < 256 ^ 16 then Inr (be_encode 16 (rp_long_id p)) else Inl OverflowError)
    \<and> convert_peer_id_to_byte_id (peer_id p) \<noteq> Inr (rp_id p)"
proof -
  have "be_encode 16 (rp_long_id p) \<noteq> rp_id p"
    using assms(2) length_be_encode[of 16 "rp_long_id p"] by fastforce
  then show ?thesis
    by (simp add: convert_peer_id_to_byte_id_def peer_id_def)
qed

theorem convert_peer_id_mismatch_witness:
  "convert_peer_id_to_byte_id (str_of_nat (2 ^ 152)) = Inl OverflowError"
  using convert_peer_id_mismatch[of "\<lparr>rp_username = PNone, rp_ip = [], rp_conn_port = PNone,
      rp_req_port = PNone, rp_status = PNone,
      rp_id = [1,0,0,0,0,0,0,0,0,0,0,0,0,0,0,0,0,0,0,0], rp_long_id = 2 ^ 152,
      rp_byte_cache = None\<rparr>"]
  by (simp add: peer_wf_def be_decode_def peer_id_def)

end
