(* ===== verification/Containers.thy ===== *)
theory Containers
  imports Remote_Peer
begin

text \<open>
  The storages of \<open>src/avails/container.py\<close>: \<open>PeerDict\<close>, \<open>TransfersBookKeeper\<close>, \<open>SocketStore\<close> and
  \<open>SocketCache\<close>.

  Sets of handles and sockets are lists without repetition; their order stands for the (arbitrary)
  iteration order of the Python set, and no theorem depends on it. A read of a missing key of a
  \<open>defaultdict\<close> inserts the default, so reading operations return the new state too.
\<close>

section \<open>PeerDict\<close>

type_synonym peer_dict = "(string, remote_peer) pydict"

definition get_peer :: "peer_dict \<Rightarrow> string \<Rightarrow> remote_peer option" where
  "get_peer d pid = dget d pid"

definition add_peer :: "remote_peer \<Rightarrow> peer_dict \<Rightarrow> peer_dict" where
  "add_peer p d = dset (peer_id p) p d"

definition extend_peers :: "remote_peer list \<Rightarrow> peer_dict \<Rightarrow> peer_dict" where
  "extend_peers ps d = fold (\<lambda>p. dset (peer_id p) p) ps d"

definition remove_peer :: "string \<Rightarrow> peer_dict \<Rightarrow> remote_peer option \<times> peer_dict" where
  "remove_peer pid d = (dget d pid, ddel pid d)"

definition peers :: "peer_dict \<Rightarrow> remote_peer list" where
  "peers d = map snd d"

text \<open>
  \<open>clear\<close> enters an \<open>asyncio.Lock\<close> with a plain \<open>with\<close>, which that class does not support: the
  \<open>with\<close> statement raises \<open>TypeError\<close> and the dictionary is left as it was.
\<close>

definition PeerDict_clear :: "peer_dict \<Rightarrow> unit res \<times> peer_dict" where
  "PeerDict_clear d = (Inl TypeError, d)"

text \<open>Every entry sits under the \<open>peer_id\<close> of its peer, once.\<close>

definition peer_dict_wf :: "peer_dict \<Rightarrow> bool" where
  "peer_dict_wf d \<longleftrightarrow> dict_wf d \<and> (\<forall>(k, p)\<in>set d. k = peer_id p)"

lemma set_dset: "set (dset k v d) \<subseteq> insert (k, v) (set d)"
  by (induction d) auto

lemma set_ddel: "set (ddel k d) \<subseteq> set d"
  by (auto simp: AList.delete_eq)

lemma peer_dict_wf_add [inv_intros]: "peer_dict_wf d \<Longrightarrow> peer_dict_wf (add_peer p d)"
  using set_dset[of "peer_id p" p d] by (auto simp: peer_dict_wf_def add_peer_def)

lemma extend_peers_add: "extend_peers ps d = fold add_peer ps d"
  by (simp add: extend_peers_def add_peer_def[abs_def])

lemma peer_dict_wf_extend [inv_intros]: "peer_dict_wf d \<Longrightarrow> peer_dict_wf (extend_peers ps d)"
  unfolding extend_peers_add by (induction ps arbitrary: d) (auto intro: inv_intros)

lemma peer_dict_wf_remove [inv_intros]: "peer_dict_wf d \<Longrightarrow> peer_dict_wf (snd (remove_peer pid d))"
  using set_ddel[of pid d] by (auto simp: peer_dict_wf_def remove_peer_def)

lemma extend_peers_lookup:
  assumes "dict_wf d"
  shows "get_peer (extend_peers ps d) = dget d ++ map_of (rev (map (\<lambda>p. (peer_id p, p)) ps))"
proof -
  have "extend_peers ps d = fold (\<lambda>(k, v). dset k v) (map (\<lambda>p. (peer_id p, p)) ps) d"
    by (simp add: extend_peers_def fold_map comp_def)
  then show ?thesis
    using assoc.lookup_puts[OF assms] by (simp add: get_peer_def[abs_def])
qed

section \<open>SocketStore\<close>

text \<open>
  Sockets are identities. \<open>close_fails s\<close> says that \<open>s.close()\<close> raises \<open>OSError\<close>; the sockets
  whose \<open>close\<close> was called are logged.
\<close>

type_synonym sock = nat

definition store_add :: "sock \<Rightarrow> sock list \<Rightarrow> sock list" where
  "store_add s st = List.insert s st"

definition store_remove :: "sock \<Rightarrow> sock list \<Rightarrow> sock list" where
  "store_remove s st = remove1 s st"

definition store_close_all :: "sock list \<Rightarrow> sock list \<Rightarrow> sock list" where
  "store_close_all st clsd = clsd @ st"

section \<open>SocketCache\<close>

record 'k socket_cache =
  socket_cache :: "('k, sock) pydict"
  max_limit :: nat

definition SocketCache :: "nat \<Rightarrow> 'k socket_cache" where
  "SocketCache n = \<lparr>socket_cache = [], max_limit = n\<rparr>"

text \<open>\<open>popitem(last=False)\<close> on an empty \<open>OrderedDict\<close> is a \<open>KeyError\<close>.\<close>

definition add_peer_sock :: "'k \<Rightarrow> sock \<Rightarrow> 'k socket_cache \<Rightarrow> 'k socket_cache res" where
  "add_peer_sock pid s c =
     (if max_limit c \<le> length (socket_cache c)
      then (case socket_cache c of
              [] \<Rightarrow> Inl KeyError
            | _ # rest \<Rightarrow> Inr (c\<lparr>socket_cache := dset pid s rest\<rparr>))
      else Inr (c\<lparr>socket_cache := dset pid s (socket_cache c)\<rparr>))"

definition get_socket :: "'k \<Rightarrow> 'k socket_cache \<Rightarrow> sock option \<times> 'k socket_cache" where
  "get_socket pid c =
     (case dget (socket_cache c) pid of
        None \<Rightarrow> (None, c)
      | Some s \<Rightarrow> (Some s, c\<lparr>socket_cache := dset pid s (ddel pid (socket_cache c))\<rparr>))"

text \<open>\<open>conn\<close> is \<open>connect.is_socket_connected\<close>.\<close>

definition cache_is_connected :: "(sock \<Rightarrow> bool) \<Rightarrow> 'k \<Rightarrow> 'k socket_cache \<Rightarrow> sock option" where
  "cache_is_connected conn pid c = (case dget (socket_cache c) pid of
     None \<Rightarrow> None | Some s \<Rightarrow> if conn s then Some s else None)"

text \<open>
  The entry is deleted before \<open>close\<close> is called, so when \<open>close\<close> raises \<open>OSError\<close> the handler's own
  \<open>del\<close> raises \<open>KeyError\<close>, which leaves the method.
\<close>

definition remove_and_close ::
    "(sock \<Rightarrow> bool) \<Rightarrow> 'k \<Rightarrow> 'k socket_cache \<times> sock list \<Rightarrow> unit res \<times> 'k socket_cache \<times> sock list" where
  "remove_and_close close_fails pid st =
     (case dget (socket_cache (fst st)) pid of
        None \<Rightarrow> (Inr (), st)
      | Some s \<Rightarrow>
          (let c = (fst st)\<lparr>socket_cache := ddel pid (socket_cache (fst st))\<rparr>;
               clsd = snd st @ [s]
           in if close_fails s then (Inl KeyError, c, clsd) else (Inr (), c, clsd)))"

definition cache_clear :: "'k socket_cache \<times> sock list \<Rightarrow> 'k socket_cache \<times> sock list" where
  "cache_clear st =
     ((fst st)\<lparr>socket_cache := []\<rparr>, snd st @ map snd (socket_cache (fst st)))"

definition cache_contains :: "'k \<Rightarrow> 'k socket_cache \<Rightarrow> bool" where
  "cache_contains pid c \<longleftrightarrow> dmem pid (socket_cache c)"


text \<open>The cache never holds more than \<open>max_limit\<close> sockets, and at most one per key.\<close>

definition cache_wf :: "'k socket_cache \<Rightarrow> bool" where
  "cache_wf c \<longleftrightarrow> dict_wf (socket_cache c) \<and> length (socket_cache c) \<le> max_limit c \<and> 0 < max_limit c"

lemma dict_wf_tl: "dict_wf (x # d) \<Longrightarrow> dict_wf d"
  by (simp add: dict_wf_def)

lemma cache_wf_init [inv_intros]: "0 < n \<Longrightarrow> cache_wf (SocketCache n)"
  by (simp add: cache_wf_def SocketCache_def)

lemma add_peer_sock_wf [inv_intros]:
  "cache_wf c \<Longrightarrow> add_peer_sock pid s c = Inr c' \<Longrightarrow> cache_wf c'"
  by (auto simp: cache_wf_def add_peer_sock_def length_dset not_le dict_wf_tl
      split: if_splits list.splits)

lemma get_socket_wf [inv_intros]: "cache_wf c \<Longrightarrow> cache_wf (snd (get_socket pid c))"
proof (cases "dget (socket_cache c) pid")
  case (Some s)
  then have "dmem pid (socket_cache c)"
    by (simp add: dmem_iff)
  moreover from this have "0 < length (socket_cache c)"
    by (cases "socket_cache c") (auto simp: dmem_def dkeys_def)
  moreover assume "cache_wf c"
  ultimately show ?thesis
    using Some by (auto simp: cache_wf_def get_socket_def length_dset length_ddel)
qed (simp add: get_socket_def)

lemma remove_and_close_wf [inv_intros]:
  "cache_wf (fst st) \<Longrightarrow> cache_wf (fst (snd (remove_and_close f pid st)))"
  by (auto simp: cache_wf_def remove_and_close_def Let_def length_ddel split: option.split)

lemma cache_clear_wf [inv_intros]: "cache_wf (fst st) \<Longrightarrow> cache_wf (fst (cache_clear st))"
  by (simp add: cache_wf_def cache_clear_def)

text \<open>The operations the connector performs on the cache, as commands.\<close>

datatype 'k cache_op = CAdd 'k sock | CGet 'k | CRemove 'k

fun cache_exec :: "(sock \<Rightarrow> bool) \<Rightarrow> 'k cache_op \<Rightarrow> 'k socket_cache \<times> sock list \<Rightarrow> 'k socket_cache \<times> sock list" where
  "cache_exec f (CAdd k s) st = (case add_peer_sock k s (fst st) of
     Inl _ \<Rightarrow> st | Inr c \<Rightarrow> (c, snd st))"
| "cache_exec f (CGet k) st = (snd (get_socket k (fst st)), snd st)"
| "cache_exec f (CRemove k) st = snd (remove_and_close f k st)"

inductive cache_step :: "(sock \<Rightarrow> bool) \<Rightarrow> 'k socket_cache \<times> sock list \<Rightarrow> 'k socket_cache \<times> sock list \<Rightarrow> bool"
  for f where
  cache_exec_step: "cache_step f st (cache_exec f op st)"
| cache_clear_step: "cache_step f st (cache_clear st)"

inductive_cases cache_stepE: "cache_step f st st'"

lemma cache_exec_wf [inv_intros]: "cache_wf (fst st) \<Longrightarrow> cache_wf (fst (cache_exec f op st))"
  by (cases op) (auto intro: inv_intros split: sum.split)

definition cache_init :: "nat \<Rightarrow> 'k socket_cache \<times> sock list \<Rightarrow> bool" where
  "cache_init n st \<longleftrightarrow> st = (SocketCache (Suc n), [])"

interpretation cache: inv_system "cache_init n" "cache_step f" "\<lambda>st. cache_wf (fst st)"
proof unfold_locales
  show "cache_init n st \<Longrightarrow> cache_wf (fst st)" for st :: "'k socket_cache \<times> sock list"
    by (simp add: cache_init_def cache_wf_init)
  show "cache_step f st st' \<Longrightarrow> cache_wf (fst st')" if "cache_wf (fst st)"
    for st st' :: "'k socket_cache \<times> sock list"
    using that by (auto simp del: split_paired_All elim: cache_stepE intro: cache_exec_wf cache_clear_wf)
qed

lemma cache_exec_limit: "max_limit (fst (cache_exec f op st)) = max_limit (fst st)"
  by (cases op)
    (auto simp: add_peer_sock_def get_socket_def remove_and_close_def Let_def
      split: list.split option.split)

text \<open>
  How far a key is from eviction: free slots plus the number of entries older than it.
\<close>

fun key_index :: "'k \<Rightarrow> ('k \<times> 'v) list \<Rightarrow> nat" where
  "key_index k [] = 0"
| "key_index k ((j, v) # d) = (if j = k then 0 else Suc (key_index k d))"

definition slack :: "'k \<Rightarrow> 'k socket_cache \<Rightarrow> nat" where
  "slack k c = (max_limit c - length (socket_cache c)) + key_index k (socket_cache c)"

lemma key_index_dset: "dmem k d \<Longrightarrow> key_index k (dset j v d) = key_index k d"
  by (induction d) (fastforce simp: dmem_def dkeys_def)+

lemma key_index_ddel: "j \<noteq> k \<Longrightarrow> dict_wf d \<Longrightarrow> key_index k d \<le> Suc (key_index k (ddel j d))"
  by (induction d) (auto simp: dict_wf_def delete_notin_dom image_iff)

lemma key_index_ddel_le: "key_index k (ddel k d) = length (ddel k d)"
  by (induction d) auto

lemma key_index_absent: "\<not> dmem k d \<Longrightarrow> key_index k d = length d"
  by (induction d) (auto simp: dmem_def dkeys_def)

lemma key_index_snoc: "\<not> dmem k d \<Longrightarrow> key_index k (dset k v d) = length d"
  by (induction d) (auto simp: dmem_def dkeys_def)


lemma key_index_less: "dmem k d \<Longrightarrow> key_index k d < length d"
  by (induction d) (fastforce simp: dmem_def dkeys_def)+

lemma slack_add:
  assumes wf: "cache_wf c" and k: "dget (socket_cache c) k = Some s" and sl: "0 < slack k c"
    and ne: "j \<noteq> k" and add: "add_peer_sock j v c = Inr c'"
  shows "dget (socket_cache c') k = Some s \<and> slack k c \<le> Suc (slack k c')"
proof (cases "max_limit c \<le> length (socket_cache c)")
  case False
  moreover have "dmem k (socket_cache c)"
    using k by (simp add: dmem_iff)
  ultimately show ?thesis
    using add k ne
    by (auto simp: add_peer_sock_def slack_def key_index_dset length_dset)
next
  case True
  then obtain x rest where c: "socket_cache c = x # rest"
    using wf by (cases "socket_cache c") (auto simp: cache_wf_def)
  have "fst x \<noteq> k"
    using sl True wf c by (cases x) (auto simp: slack_def cache_wf_def)
  then have k': "dget rest k = Some s"
    using k c by (cases x) (auto split: if_splits)
  then have "dmem k rest"
    by (simp add: dmem_iff)
  moreover have "c' = c\<lparr>socket_cache := dset j v rest\<rparr>"
    using add True c by (simp add: add_peer_sock_def)
  ultimately show ?thesis
    using k' ne c True wf \<open>fst x \<noteq> k\<close>
    by (cases x) (auto simp: slack_def key_index_dset length_dset cache_wf_def)
qed

lemma slack_get:
  assumes wf: "cache_wf c" and k: "dget (socket_cache c) k = Some s"
  shows "dget (socket_cache (snd (get_socket j c))) k = Some s \<and>
    slack k c \<le> Suc (slack k (snd (get_socket j c)))"
proof (cases "dget (socket_cache c) j")
  case None
  then show ?thesis using k by (simp add: get_socket_def)
next
  case (Some v)
  let ?d = "socket_cache c"
  have mem: "dmem j ?d" "dmem k ?d" "dict_wf ?d"
    using Some k wf by (auto simp: dmem_iff cache_wf_def)
  then have len: "length (dset j v (ddel j ?d)) = length ?d"
    using key_index_less[OF mem(1)] by (simp add: length_dset length_ddel)
  have idx: "key_index k ?d \<le> Suc (key_index k (dset j v (ddel j ?d)))"
  proof (cases "j = k")
    case True
    then have "key_index k (dset j v (ddel j ?d)) = length ?d - 1"
      using key_index_snoc[of k "ddel k ?d" v] mem by (simp add: length_ddel)
    then show ?thesis using key_index_less[OF mem(2)] by simp
  next
    case False
    then have "dmem k (ddel j ?d)" using mem by simp
    then show ?thesis using key_index_ddel[OF False mem(3)] by (simp add: key_index_dset)
  qed
  show ?thesis
    using Some k len idx by (auto simp: get_socket_def slack_def)
qed

lemma slack_remove:
  assumes wf: "cache_wf (fst st)" and k: "dget (socket_cache (fst st)) k = Some s" and ne: "j \<noteq> k"
  shows "dget (socket_cache (fst (snd (remove_and_close f j st)))) k = Some s \<and>
    slack k (fst st) \<le> Suc (slack k (fst (snd (remove_and_close f j st))))"
proof (cases "dget (socket_cache (fst st)) j")
  case None
  then show ?thesis using k by (simp add: remove_and_close_def)
next
  case (Some v)
  have "length (ddel j (socket_cache (fst st))) = length (socket_cache (fst st)) - 1"
    using wf Some by (simp add: cache_wf_def length_ddel dmem_iff)
  moreover have "key_index k (socket_cache (fst st)) \<le> Suc (key_index k (ddel j (socket_cache (fst st))))"
    using wf by (intro key_index_ddel[OF ne]) (simp add: cache_wf_def)
  moreover have "fst (snd (remove_and_close f j st)) =
      (fst st)\<lparr>socket_cache := ddel j (socket_cache (fst st))\<rparr>"
    using Some by (simp add: remove_and_close_def Let_def)
  ultimately show ?thesis
    using ne k by (simp add: slack_def)
qed

fun op_replaces :: "'k \<Rightarrow> 'k cache_op \<Rightarrow> bool" where
  "op_replaces k (CAdd j s) \<longleftrightarrow> j = k"
| "op_replaces k (CGet j) \<longleftrightarrow> False"
| "op_replaces k (CRemove j) \<longleftrightarrow> j = k"

lemma slack_exec:
  assumes "cache_wf (fst st)" "dget (socket_cache (fst st)) k = Some s" "0 < slack k (fst st)"
    "\<not> op_replaces k op"
  shows "dget (socket_cache (fst (cache_exec f op st))) k = Some s \<and>
    slack k (fst st) \<le> Suc (slack k (fst (cache_exec f op st)))"
proof (cases op)
  case (CAdd j v)
  then show ?thesis
    using slack_add[OF assms(1-3), of j v] assms(2,4) by (auto split: sum.split)
next
  case (CGet j)
  then show ?thesis using slack_get[OF assms(1,2)] by simp
next
  case (CRemove j)
  then show ?thesis using slack_remove[OF assms(1,2)] assms(4) by simp
qed

lemma slack_run:
  assumes "cache_wf (fst st)" "dget (socket_cache (fst st)) k = Some s"
    "length ops \<le> slack k (fst st)" "list_all (\<lambda>op. \<not> op_replaces k op) ops"
  shows "dget (socket_cache (fst (fold (cache_exec f) ops st))) k = Some s"
  using assms
proof (induction ops arbitrary: st)
  case (Cons op ops)
  from slack_exec[of st k s op f] Cons.prems
  have "dget (socket_cache (fst (cache_exec f op st))) k = Some s"
    "slack k (fst st) \<le> Suc (slack k (fst (cache_exec f op st)))"
    by auto
  then show ?case
    using Cons cache_exec_wf[of st f op] by simp
qed simp

lemma slack_fresh:
  assumes "cache_wf c" "\<not> dmem k (socket_cache c)"
  obtains c' where "add_peer_sock k s c = Inr c'" "dget (socket_cache c') k = Some s"
    "slack k c' = max_limit c - 1" "cache_wf c'"
proof (cases "max_limit c \<le> length (socket_cache c)")
  case False
  let ?c = "c\<lparr>socket_cache := dset k s (socket_cache c)\<rparr>"
  have "add_peer_sock k s c = Inr ?c"
    using False by (simp add: add_peer_sock_def)
  with False show thesis
    using that[of ?c] assms add_peer_sock_wf[OF assms(1)]
    by (simp add: slack_def key_index_snoc length_dset)
next
  case True
  then obtain x rest where c: "socket_cache c = x # rest"
    using assms by (cases "socket_cache c") (auto simp: cache_wf_def)
  let ?c = "c\<lparr>socket_cache := dset k s rest\<rparr>"
  have add: "add_peer_sock k s c = Inr ?c"
    using True c by (simp add: add_peer_sock_def)
  have "\<not> dmem k rest"
    using assms(2) c by (simp add: dmem_def dkeys_def)
  then show thesis
    using that[of ?c] add True assms c add_peer_sock_wf[OF assms(1) add]
    by (simp add: slack_def key_index_snoc length_dset cache_wf_def)
qed


text \<open>
  Whatever sequence of \<open>add_peer_sock\<close>, \<open>get_socket\<close>, \<open>remove_and_close\<close> and \<open>clear\<close> runs on a
  fresh \<open>SocketCache\<close> of positive capacity, it never holds more sockets than its capacity nor two
  under one key.
\<close>

theorem socket_cache_bounded:
  assumes "reachable (cache_init n) (cache_step close_fails) st"
  shows "length (socket_cache (fst st)) \<le> max_limit (fst st) \<and> distinct (dkeys (socket_cache (fst st)))"
  using cache.reachable_inv[OF assms] by (simp add: cache_wf_def dict_wf_def dkeys_def)

theorem socket_cache_bounded_witness:
  "length (socket_cache (fst (cache_exec (\<lambda>s. False) (CAdd True 7) (SocketCache 1, [])))) \<le> 1"
proof -
  have "reachable (cache_init 0) (cache_step (\<lambda>s. False))
      (cache_exec (\<lambda>s. False) (CAdd True 7) (SocketCache 1, []))"
    by (rule reach_step[where s = "(SocketCache 1, [])"], rule reach_init)
      (simp add: cache_init_def, rule cache_exec_step)
  from socket_cache_bounded[OF this] show ?thesis
    by (simp add: cache_exec_limit add_peer_sock_def SocketCache_def)
qed

text \<open>
  Least recently used eviction: a socket added under a new key stays in the cache through any
  further operations that neither replace nor remove it, as long as they are fewer than the
  capacity.
\<close>

theorem socket_cache_retains:
  assumes "cache_wf c" "\<not> cache_contains k c"
    and "list_all (\<lambda>op. \<not> op_replaces k op) ops" "length ops < max_limit c"
  shows "\<exists>c'. add_peer_sock k s c = Inr c' \<and>
    fst (get_socket k (fst (fold (cache_exec close_fails) ops (c', clsd)))) = Some s"
proof -
  obtain c' where c': "add_peer_sock k s c = Inr c'" "dget (socket_cache c') k = Some s"
      "slack k c' = max_limit c - 1" "cache_wf c'"
    using slack_fresh[OF assms(1)] assms(2) by (auto simp: cache_contains_def)
  have "dget (socket_cache (fst (fold (cache_exec close_fails) ops (c', clsd)))) k = Some s"
    using c' assms(3,4) by (intro slack_run) auto
  then show ?thesis
    using c'(1) by (auto simp: get_socket_def)
qed

theorem socket_cache_retains_witness:
  "fst (get_socket (1::nat) (fst (fold (cache_exec (\<lambda>s. False)) [CAdd 2 20, CGet 2, CAdd 3 30]
     (\<lparr>socket_cache = [(7, 70), (8, 80), (1, 10)], max_limit = 4\<rparr>, [])))) = Some 10"
proof -
  let ?c = "\<lparr>socket_cache = [(7, 70), (8, 80)], max_limit = 4\<rparr> :: nat socket_cache"
  have add: "add_peer_sock 1 10 ?c = Inr \<lparr>socket_cache = [(7, 70), (8, 80), (1, 10)], max_limit = 4\<rparr>"
    by (simp add: add_peer_sock_def)
  have "\<exists>c'. add_peer_sock 1 10 ?c = Inr c' \<and>
      fst (get_socket 1 (fst (fold (cache_exec (\<lambda>s. False)) [CAdd 2 20, CGet 2, CAdd 3 30] (c', []))))
        = Some 10"
    by (rule socket_cache_retains)
      (simp_all add: cache_wf_def dict_wf_def cache_contains_def dmem_def dkeys_def)
  then show ?thesis
    unfolding add by (metis sum.inject(2))
qed

text \<open>When \<open>close\<close> raises \<open>OSError\<close>, \<open>remove_and_close\<close> raises \<open>KeyError\<close> out of its own handler.\<close>

lemma remove_and_close_keyerror:
  assumes "dget (socket_cache (fst st)) k = Some s" "close_fails s"
  shows "fst (remove_and_close close_fails k st) = Inl KeyError"
  using assms by (simp add: remove_and_close_def Let_def)

subsection \<open>The cache against its history\<close>

text \<open>
  The specification keeps every socket that was ever added, the most recently used first, and has
  no capacity: an added or a found key moves to the front. Only the first \<open>n\<close> can be found.
\<close>

definition move_front :: "'k \<Rightarrow> sock \<Rightarrow> ('k, sock) pydict \<Rightarrow> ('k, sock) pydict" where
  "move_front k s u = (k, s) # filter (\<lambda>p. fst p \<noteq> k) u"

fun recency_step :: "nat \<Rightarrow> 'k cache_op \<Rightarrow> ('k, sock) pydict \<Rightarrow> ('k, sock) pydict" where
  "recency_step n (CAdd k s) u = move_front k s u"
| "recency_step n (CGet k) u = (case dget (take n u) k of None \<Rightarrow> u | Some s \<Rightarrow> move_front k s u)"
| "recency_step n (CRemove k) u = u"

text \<open>Uses of the cache that only look up and add under keys it does not hold.\<close>

fun fresh_adds :: "(sock \<Rightarrow> bool) \<Rightarrow> 'k cache_op list \<Rightarrow> 'k socket_cache \<times> sock list \<Rightarrow> bool" where
  "fresh_adds f [] st = True"
| "fresh_adds f (op # ops) st \<longleftrightarrow>
     (case op of CAdd k s \<Rightarrow> \<not> cache_contains k (fst st) | CGet k \<Rightarrow> True | CRemove k \<Rightarrow> False) \<and>
     fresh_adds f ops (cache_exec f op st)"

lemma ddel_filter: "ddel k d = filter (\<lambda>p. fst p \<noteq> k) d"
  by (auto simp: AList.delete_eq intro!: filter_cong)

lemma dict_wf_move_front: "dict_wf u \<Longrightarrow> dict_wf (move_front k s u)"
  by (induction u) (auto simp: move_front_def dict_wf_def)

lemma take_drop_key:
  "dict_wf u \<Longrightarrow> dmem k (take (Suc n) u) \<Longrightarrow>
   take n (filter (\<lambda>p. fst p \<noteq> k) u) = filter (\<lambda>p. fst p \<noteq> k) (take (Suc n) u)"
proof (induction u arbitrary: n)
  case (Cons p u)
  show ?case
  proof (cases "fst p = k")
    case True
    then have "k \<notin> fst ` set u" using Cons.prems(1) by (auto simp: dict_wf_def)
    then have "\<forall>q\<in>set u. fst q \<noteq> k" by auto
    then have "filter (\<lambda>q. fst q \<noteq> k) u = u" "filter (\<lambda>q. fst q \<noteq> k) (take n u) = take n u"
      by (auto intro!: filter_True dest: in_set_takeD)
    then show ?thesis using True by simp
  next
    case False
    then obtain m where "n = Suc m" "dmem k (take (Suc m) u)"
      using Cons.prems(2) by (cases n) (auto simp: dmem_def dkeys_def)
    then show ?thesis using Cons.IH[of m] Cons.prems(1) False by (auto simp: dict_wf_def)
  qed
qed (simp add: dmem_def dkeys_def)

lemma take_fresh_key:
  "\<not> dmem k (take (Suc n) u) \<Longrightarrow> take n (filter (\<lambda>p. fst p \<noteq> k) u) = take n u"
  by (induction u arbitrary: n) (auto simp: dmem_def dkeys_def take_Cons split: nat.splits)

text \<open>The simulation: the cache, oldest first, is the front of the history reversed.\<close>

definition lru_rel :: "'k socket_cache \<Rightarrow> ('k, sock) pydict \<Rightarrow> bool" where
  "lru_rel c u \<longleftrightarrow> 0 < max_limit c \<and> dict_wf u \<and> socket_cache c = rev (take (max_limit c) u)"

lemma dmem_rev [simp]: "dmem k (rev d) \<longleftrightarrow> dmem k d"
  by (simp add: dmem_def dkeys_def)

lemma dget_rev: "dict_wf d \<Longrightarrow> dget (rev d) = dget d"
  by (intro map_of_inject_set[THEN iffD2]) (simp_all add: dict_wf_def rev_map[symmetric])

lemma dict_wf_take: "dict_wf u \<Longrightarrow> dict_wf (take n u)"
  by (simp add: dict_wf_def take_map[symmetric])

lemma lru_add:
  assumes "lru_rel c u" "\<not> cache_contains k c"
  shows "\<exists>c'. add_peer_sock k s c = Inr c' \<and> lru_rel c' (move_front k s u) \<and> max_limit c' = max_limit c"
proof -
  obtain n where n: "max_limit c = Suc n" using assms(1) by (cases "max_limit c") (auto simp: lru_rel_def)
  have c: "socket_cache c = rev (take (Suc n) u)" and k: "\<not> dmem k (take (Suc n) u)" and wf: "dict_wf u"
    using assms n by (auto simp: lru_rel_def cache_contains_def)
  have new: "take (Suc n) (move_front k s u) = (k, s) # take n u"
    by (simp add: move_front_def take_fresh_key[OF k])
  show ?thesis
  proof (cases "Suc n \<le> length u")
    case True
    have short: "\<not> dmem k (take n u)"
      using k by (auto simp: dmem_def dkeys_def dest: set_take_subset_set_take[of n "Suc n", simplified, THEN subsetD])
    have full: "socket_cache c = u ! n # rev (take n u)"
      using True by (simp add: c take_Suc_conv_app_nth)
    then have "add_peer_sock k s c = Inr (c\<lparr>socket_cache := rev (take n u) @ [(k, s)]\<rparr>)"
      using True short by (simp add: add_peer_sock_def n dset_new)
    then show ?thesis using new wf n by (simp add: lru_rel_def dict_wf_move_front)
  next
    case False
    then have "add_peer_sock k s c = Inr (c\<lparr>socket_cache := rev (take (Suc n) u) @ [(k, s)]\<rparr>)"
      using k by (simp add: add_peer_sock_def n c dset_new)
    then show ?thesis using new wf n False by (simp add: lru_rel_def dict_wf_move_front)
  qed
qed

lemma lru_get:
  assumes "lru_rel c u"
  shows "lru_rel (snd (get_socket k c)) (recency_step (max_limit c) (CGet k) u) \<and>
    fst (get_socket k c) = dget (take (max_limit c) u) k \<and> max_limit (snd (get_socket k c)) = max_limit c"
proof -
  obtain n where n: "max_limit c = Suc n" using assms by (cases "max_limit c") (auto simp: lru_rel_def)
  have c: "socket_cache c = rev (take (Suc n) u)" and wf: "dict_wf u"
    using assms n by (auto simp: lru_rel_def)
  have look: "dget (socket_cache c) = dget (take (Suc n) u)"
    using dget_rev[OF dict_wf_take[OF wf]] by (simp add: c)
  show ?thesis
  proof (cases "dget (take (Suc n) u) k")
    case None
    then show ?thesis using assms look n by (simp add: get_socket_def)
  next
    case (Some s)
    then have "dmem k (take (Suc n) u)" by (simp add: dmem_iff)
    from take_drop_key[OF wf this]
    have "take (Suc n) (move_front k s u) = (k, s) # filter (\<lambda>p. fst p \<noteq> k) (take (Suc n) u)"
      by (simp add: move_front_def)
    moreover have "dset k s (ddel k (socket_cache c)) = rev (filter (\<lambda>p. fst p \<noteq> k) (take (Suc n) u)) @ [(k, s)]"
      by (simp add: dset_new) (simp add: c ddel_filter rev_filter)
    ultimately show ?thesis
      using Some look n wf by (simp add: get_socket_def lru_rel_def dict_wf_move_front)
  qed
qed

lemma lru_run:
  assumes "lru_rel (fst st) u" "fresh_adds f ops st"
  shows "lru_rel (fst (fold (cache_exec f) ops st)) (fold (recency_step (max_limit (fst st))) ops u) \<and>
    max_limit (fst (fold (cache_exec f) ops st)) = max_limit (fst st)"
  using assms
proof (induction ops arbitrary: st u)
  case (Cons op ops)
  have "lru_rel (fst (cache_exec f op st)) (recency_step (max_limit (fst st)) op u)"
  proof (cases op)
    case (CAdd k s)
    then show ?thesis using lru_add[OF Cons.prems(1), of k s] Cons.prems(2) by auto
  next
    case (CGet k)
    then show ?thesis using lru_get[OF Cons.prems(1), of k] by simp
  next
    case (CRemove k)
    then show ?thesis using Cons.prems(2) by simp
  qed
  from Cons.IH[OF this] Cons.prems(2) show ?case by (simp add: cache_exec_limit)
qed simp

text \<open>
  C21. The bounded cache refines its whole history: as long as a key is added only when the cache does
  not hold it, after any sequence of additions and look-ups a cache of capacity \<open>n\<close> holds exactly the
  first \<open>n\<close> of all sockets ever added, in the order of their last use, and a look-up returns
  what is among them.
\<close>

theorem socket_cache_is_lru:
  assumes "0 < n" "fresh_adds f ops (SocketCache n, [])"
  shows "let c = fst (fold (cache_exec f) ops (SocketCache n, []));
             recent = take n (fold (recency_step n) ops [])
         in socket_cache c = rev recent \<and> fst (get_socket k c) = dget recent k"
proof -
  have "lru_rel (fst (SocketCache n, [] :: sock list)) []"
    using assms(1) by (simp add: lru_rel_def SocketCache_def)
  from lru_run[OF this assms(2)]
  have run: "lru_rel (fst (fold (cache_exec f) ops (SocketCache n, []))) (fold (recency_step n) ops [])"
    "max_limit (fst (fold (cache_exec f) ops (SocketCache n, []))) = n"
    by (simp_all add: SocketCache_def)
  from lru_get[OF run(1), of k] run show ?thesis by (simp add: Let_def lru_rel_def)
qed

theorem socket_cache_is_lru_witness:
  "socket_cache (fst (fold (cache_exec (\<lambda>s. False)) [CAdd ''a'' 1, CAdd ''b'' 2, CGet ''a'', CAdd ''c'' 3] (SocketCache 2, []))) =
     [(''a'', 1), (''c'', 3)]"
proof -
  have "fresh_adds (\<lambda>s. False) [CAdd ''a'' 1, CAdd ''b'' 2, CGet ''a'', CAdd ''c'' 3] (SocketCache 2, [])"
    by (simp add: SocketCache_def add_peer_sock_def get_socket_def cache_contains_def dmem_def dkeys_def)
  from socket_cache_is_lru[OF _ this, of "''a''"]
  show ?thesis by (simp add: Let_def move_front_def numeral_2_eq_2)
qed

text \<open>
  The premise is needed: adding under a key that a full cache already holds drops the oldest
  other socket, without closing it, and leaves the cache one short.
\<close>

lemma readding_evicts:
  assumes "cache_wf c" "socket_cache c = (j, v) # rest" "dmem k rest" "length (socket_cache c) = max_limit c"
  shows "\<exists>c'. add_peer_sock k s c = Inr c' \<and> \<not> cache_contains j c' \<and> length (socket_cache c') = max_limit c - 1"
proof -
  have "dmem k rest" "\<not> dmem j rest" "j \<noteq> k"
    using assms by (auto simp: cache_wf_def dict_wf_def dmem_def dkeys_def)
  then show ?thesis
    using assms(2,4) by (simp add: add_peer_sock_def cache_contains_def length_dset)
qed

section \<open>TransfersBookKeeper\<close>

text \<open>
  A transfer handle has an identity and an \<open>id\<close>. \<open>completed\<close> holds weak references: a handle may
  vanish from it at any moment (\<open>collect\<close>).
\<close>

record handle =
  hd_ref :: nat
  hd_id :: pyval

type_synonym 'p handle_sets = "('p, handle list) pydict"

record 'p book =
  bk_continued :: "'p handle_sets"
  bk_scheduled :: "(pyval, handle) pydict"
  bk_completed :: "'p handle_sets"
  bk_current :: "'p handle_sets"

definition TransfersBookKeeper :: "'p book" where
  "TransfersBookKeeper =
     \<lparr>bk_continued = [], bk_scheduled = [], bk_completed = [], bk_current = []\<rparr>"

text \<open>\<open>d[k]\<close> on a \<open>defaultdict(set)\<close>, and the dictionary with the key present.\<close>

definition dd_get :: "'p \<Rightarrow> 'p handle_sets \<Rightarrow> handle list" where
  "dd_get k d = (case dget d k of None \<Rightarrow> [] | Some hs \<Rightarrow> hs)"

definition dd_upd :: "'p \<Rightarrow> (handle list \<Rightarrow> handle list) \<Rightarrow> 'p handle_sets \<Rightarrow> 'p handle_sets" where
  "dd_upd k f d = dset k (f (dd_get k d)) d"

abbreviation dd_touch :: "'p \<Rightarrow> 'p handle_sets \<Rightarrow> 'p handle_sets" where
  "dd_touch k d \<equiv> dd_upd k (\<lambda>hs. hs) d"

definition add_to_current :: "'p \<Rightarrow> handle \<Rightarrow> 'p book \<Rightarrow> 'p book" where
  "add_to_current p h b = b\<lparr>bk_current := dd_upd p (List.insert h) (bk_current b),
     bk_continued := dd_upd p (removeAll h) (bk_continued b)\<rparr>"

definition add_to_completed :: "'p \<Rightarrow> handle \<Rightarrow> 'p book \<Rightarrow> 'p book" where
  "add_to_completed p h b = b\<lparr>bk_current := dd_upd p (removeAll h) (bk_current b),
     bk_continued := dd_upd p (removeAll h) (bk_continued b),
     bk_completed := dd_upd p (List.insert h) (bk_completed b)\<rparr>"

definition add_to_scheduled :: "pyval \<Rightarrow> handle \<Rightarrow> 'p book \<Rightarrow> 'p book" where
  "add_to_scheduled key h b = b\<lparr>bk_scheduled := dset key h (bk_scheduled b)\<rparr>"

definition add_to_continued :: "'p \<Rightarrow> handle \<Rightarrow> 'p book \<Rightarrow> 'p book" where
  "add_to_continued p h b = b\<lparr>bk_current := dd_upd p (removeAll h) (bk_current b),
     bk_continued := dd_upd p (List.insert h) (bk_continued b)\<rparr>"

text \<open>\<open>set.remove\<close> raises \<open>KeyError\<close> for a missing element (the key itself has then been created).\<close>

definition swap :: "'p \<Rightarrow> handle \<Rightarrow> 'p book \<Rightarrow> unit res \<times> 'p book" where
  "swap p h b =
     (if h \<in> set (dd_get p (bk_continued b))
      then (Inr (), b\<lparr>bk_continued := dd_upd p (removeAll h) (bk_continued b),
              bk_completed := dd_upd p (List.insert h) (bk_completed b)\<rparr>)
      else (Inl KeyError, b\<lparr>bk_continued := dd_touch p (bk_continued b)\<rparr>))"

definition find_handle :: "pyval \<Rightarrow> handle list \<Rightarrow> handle res" where
  "find_handle file_id hs = (case List.find (\<lambda>h. hd_id h = file_id) hs of
     None \<Rightarrow> Inl StopIteration | Some h \<Rightarrow> Inr h)"

datatype lookup_result = One handle | Many "handle list" | Nothing

definition get_running_transfers :: "'p \<Rightarrow> pyval \<Rightarrow> 'p book \<Rightarrow> lookup_result res \<times> 'p book" where
  "get_running_transfers p file_id b =
     (let hs = dd_get p (bk_current b)
      in (if py_truth file_id then map_sum id One (find_handle file_id hs) else Inr (Many hs),
          b\<lparr>bk_current := dd_touch p (bk_current b)\<rparr>))"

definition get_completed_transfer :: "'p \<Rightarrow> pyval \<Rightarrow> 'p book \<Rightarrow> handle res \<times> 'p book" where
  "get_completed_transfer p file_id b =
     (find_handle file_id (dd_get p (bk_completed b)),
      b\<lparr>bk_completed := dd_touch p (bk_completed b)\<rparr>)"

definition get_continued_file :: "'p \<Rightarrow> pyval \<Rightarrow> 'p book \<Rightarrow> handle res \<times> 'p book" where
  "get_continued_file p file_id b =
     (find_handle file_id (dd_get p (bk_continued b)),
      b\<lparr>bk_continued := dd_touch p (bk_continued b)\<rparr>)"

definition get_scheduled :: "pyval \<Rightarrow> 'p book \<Rightarrow> handle option" where
  "get_scheduled file_id b = dget (bk_scheduled b) file_id"

definition get_transfer :: "'p \<Rightarrow> pyval \<Rightarrow> 'p book \<Rightarrow> lookup_result \<times> 'p book" where
  "get_transfer p file_id b =
     (case get_running_transfers p file_id b of
        (Inr r, b1) \<Rightarrow> (r, b1)
      | (Inl _, b1) \<Rightarrow>
          (case get_completed_transfer p file_id b1 of
             (Inr h, b2) \<Rightarrow> (One h, b2)
           | (Inl _, b2) \<Rightarrow>
               (case get_continued_file p file_id b2 of
                  (Inr h, b3) \<Rightarrow> (One h, b3)
                | (Inl _, b3) \<Rightarrow> (Nothing, b3))))"

definition check_running :: "'p \<Rightarrow> 'p book \<Rightarrow> handle option \<times> 'p book" where
  "check_running p b =
     (case dd_get p (bk_current b) of [] \<Rightarrow> None | h # _ \<Rightarrow> Some h,
      b\<lparr>bk_current := dd_touch p (bk_current b)\<rparr>)"

text \<open>\<open>str(next(cls._id_counter))\<close>: the new id and the counter after it.\<close>

definition get_new_id :: "nat \<Rightarrow> string \<times> nat" where
  "get_new_id c = (str_of_nat c, Suc c)"

text \<open>
  \<open>break_loop\<close> is called on every running handle; \<open>has_break\<close> says which handles have that
  method (a call on another one is an \<open>AttributeError\<close>). Then the running sets replace the paused
  sets of the same peers.
\<close>

definition stop_all_files :: "(handle \<Rightarrow> bool) \<Rightarrow> 'p book \<Rightarrow> unit res \<times> 'p book" where
  "stop_all_files has_break b =
     (if list_all (\<lambda>kv. list_all has_break (snd kv)) (bk_current b)
      then (Inr (), b\<lparr>bk_continued := fold (\<lambda>(k, v). dset k v) (bk_current b) (bk_continued b),
                      bk_current := []\<rparr>)
      else (Inl AttributeError, b))"

definition collect :: "'p \<Rightarrow> handle \<Rightarrow> 'p book \<Rightarrow> 'p book" where
  "collect p h b = b\<lparr>bk_completed := dd_upd p (removeAll h) (bk_completed b)\<rparr>"


text \<open>
  The invariant: no handle is running and paused for the same peer, the sets have no
  repetitions, the dictionaries one entry per key.
\<close>

definition sets_wf :: "'p handle_sets \<Rightarrow> bool" where
  "sets_wf d \<longleftrightarrow> dict_wf d \<and> (\<forall>p. distinct (dd_get p d))"

definition book_wf :: "'p book \<Rightarrow> bool" where
  "book_wf b \<longleftrightarrow> sets_wf (bk_current b) \<and> sets_wf (bk_continued b) \<and> sets_wf (bk_completed b) \<and>
     (\<forall>p. set (dd_get p (bk_current b)) \<inter> set (dd_get p (bk_continued b)) = {})"

lemma dd_get_upd [simp]:
  "dd_get q (dd_upd p f d) = (if q = p then f (dd_get p d) else dd_get q d)"
  by (simp add: dd_get_def dd_upd_def)

lemma sets_wf_upd:
  "sets_wf d \<Longrightarrow> distinct (f (dd_get p d)) \<Longrightarrow> sets_wf (dd_upd p f d)"
  by (simp add: sets_wf_def) (simp add: dd_upd_def)

lemma sets_wf_insert [simp]: "sets_wf d \<Longrightarrow> sets_wf (dd_upd p (List.insert h) d)"
  by (rule sets_wf_upd) (auto simp: sets_wf_def)

lemma sets_wf_removeAll [simp]: "sets_wf d \<Longrightarrow> sets_wf (dd_upd p (removeAll h) d)"
  by (rule sets_wf_upd) (auto simp: sets_wf_def distinct_removeAll)

lemma sets_wf_touch [simp]: "sets_wf d \<Longrightarrow> sets_wf (dd_touch p d)"
  by (rule sets_wf_upd) (auto simp: sets_wf_def)

lemma sets_wf_empty [simp]: "sets_wf []"
  by (simp add: sets_wf_def dd_get_def)

lemma book_wf_init [inv_intros]: "book_wf TransfersBookKeeper"
  by (simp add: book_wf_def TransfersBookKeeper_def dd_get_def)

lemma book_wf_add_to_current [inv_intros]: "book_wf b \<Longrightarrow> book_wf (add_to_current p h b)"
  by (auto simp: book_wf_def add_to_current_def)

lemma book_wf_add_to_completed [inv_intros]: "book_wf b \<Longrightarrow> book_wf (add_to_completed p h b)"
  by (auto simp: book_wf_def add_to_completed_def)

lemma book_wf_add_to_continued [inv_intros]: "book_wf b \<Longrightarrow> book_wf (add_to_continued p h b)"
  by (auto simp: book_wf_def add_to_continued_def)

lemma book_wf_add_to_scheduled [inv_intros]: "book_wf b \<Longrightarrow> book_wf (add_to_scheduled k h b)"
  by (simp add: book_wf_def add_to_scheduled_def)

lemma book_wf_swap [inv_intros]: "book_wf b \<Longrightarrow> book_wf (snd (swap p h b))"
  by (auto simp: book_wf_def swap_def)

lemma book_wf_collect [inv_intros]: "book_wf b \<Longrightarrow> book_wf (collect p h b)"
  by (auto simp: book_wf_def collect_def)

lemma fold_dset_lookup: "dict_wf d \<Longrightarrow> dict_wf kvs \<Longrightarrow>
  dget (fold (\<lambda>(k, v). dset k v) kvs d) k = (case dget kvs k of None \<Rightarrow> dget d k | Some v \<Rightarrow> Some v)"
proof -
  assume "dict_wf d" "dict_wf kvs"
  then have "map_of (rev kvs) = map_of kvs"
    by (metis dict_wf_def distinct_rev map_of_inject_set rev_map set_rev)
  then show ?thesis
    using assoc.lookup_puts[OF \<open>dict_wf d\<close>, of kvs] by (simp add: map_add_def split: option.split)
qed

lemma dd_get_stop:
  assumes "dict_wf (bk_continued b)" "dict_wf (bk_current b)"
  shows "dd_get p (fold (\<lambda>(k, v). dset k v) (bk_current b) (bk_continued b)) =
    (if dmem p (bk_current b) then dd_get p (bk_current b) else dd_get p (bk_continued b))"
  using fold_dset_lookup[OF assms] by (auto simp: dd_get_def dmem_iff split: option.split)

lemma book_wf_stop [inv_intros]: "book_wf b \<Longrightarrow> book_wf (snd (stop_all_files f b))"
  using assoc.wf_puts[of "bk_continued b" "bk_current b"]
  by (auto simp: book_wf_def stop_all_files_def sets_wf_def dd_get_stop)
    (simp_all add: dd_get_def)

lemma book_wf_get_transfer [inv_intros]: "book_wf b \<Longrightarrow> book_wf (snd (get_transfer p i b))"
  by (auto simp: book_wf_def get_transfer_def get_running_transfers_def get_completed_transfer_def
      get_continued_file_def Let_def split: sum.split prod.splits)

lemma book_wf_check_running [inv_intros]: "book_wf b \<Longrightarrow> book_wf (snd (check_running p b))"
  by (auto simp: book_wf_def check_running_def)

inductive book_step :: "(handle \<Rightarrow> bool) \<Rightarrow> 'p book \<Rightarrow> 'p book \<Rightarrow> bool" for f where
  "book_step f b (add_to_current p h b)"
| "book_step f b (add_to_completed p h b)"
| "book_step f b (add_to_continued p h b)"
| "book_step f b (add_to_scheduled k h b)"
| "book_step f b (snd (swap p h b))"
| "book_step f b (snd (get_transfer p i b))"
| "book_step f b (snd (check_running p b))"
| "book_step f b (snd (stop_all_files f b))"
| "book_step f b (collect p h b)"

interpretation book: inv_system "\<lambda>b. b = TransfersBookKeeper" "book_step f" book_wf
  by unfold_locales (auto elim: book_step.cases intro: inv_intros)


lemma find_handle_Inr: "find_handle i hs = Inr h \<Longrightarrow> h \<in> set hs \<and> hd_id h = i"
  by (auto simp: find_handle_def find_Some_iff split: option.splits)

lemma find_handle_Inl: "find_handle i hs = Inl e \<longleftrightarrow> e = StopIteration \<and> (\<forall>h\<in>set hs. hd_id h \<noteq> i)"
  by (auto simp: find_handle_def find_None_iff find_Some_iff split: option.splits)

text \<open>All handles the book knows for a peer, in the order \<open>get_transfer\<close> looks them up.\<close>

definition known :: "'p \<Rightarrow> 'p book \<Rightarrow> handle list" where
  "known p b = dd_get p (bk_current b) @ dd_get p (bk_completed b) @ dd_get p (bk_continued b)"

lemma get_transfer_find:
  assumes "py_truth i"
  shows "fst (get_transfer p i b) = (case List.find (\<lambda>h. hd_id h = i) (known p b) of
    None \<Rightarrow> Nothing | Some h \<Rightarrow> One h)"
proof -
  have find_app: "List.find P (xs @ ys) = (case List.find P xs of None \<Rightarrow> List.find P ys | r \<Rightarrow> r)"
    for P and xs ys :: "handle list"
    by (induction xs) auto
  show ?thesis
    using assms
    by (simp add: get_transfer_def get_running_transfers_def get_completed_transfer_def
        get_continued_file_def Let_def find_handle_def known_def find_app split: option.split)
qed

text \<open>
  C19. The transfer book is consistent after any sequence of its operations and of collections of
  weakly held handles: a handle is never running and paused for the same peer, and a lookup with
  a proper id returns a handle the book holds for that peer under that id, or nothing exactly
  when there is none.
\<close>

theorem transfer_book_consistent:
  assumes "reachable (\<lambda>b. b = TransfersBookKeeper) (book_step has_break) b" and "py_truth i"
  shows "set (dd_get p (bk_current b)) \<inter> set (dd_get p (bk_continued b)) = {} \<and>
    (case fst (get_transfer p i b) of
       One h \<Rightarrow> h \<in> set (known p b) \<and> hd_id h = i
     | Many hs \<Rightarrow> False
     | Nothing \<Rightarrow> \<forall>h\<in>set (known p b). hd_id h \<noteq> i)"
proof
  show "set (dd_get p (bk_current b)) \<inter> set (dd_get p (bk_continued b)) = {}"
    using book.reachable_inv[OF assms(1)] by (simp add: book_wf_def)
  show "case fst (get_transfer p i b) of
       One h \<Rightarrow> h \<in> set (known p b) \<and> hd_id h = i
     | Many hs \<Rightarrow> False
     | Nothing \<Rightarrow> \<forall>h\<in>set (known p b). hd_id h \<noteq> i"
    using get_transfer_find[OF assms(2), of p b]
    by (auto simp: find_Some_iff find_None_iff split: option.splits)
qed

theorem transfer_book_consistent_witness:
  "fst (get_transfer (1::nat) (PStr ''0'')
     (add_to_current 1 \<lparr>hd_ref = 3, hd_id = PStr ''0''\<rparr> TransfersBookKeeper)) =
   One \<lparr>hd_ref = 3, hd_id = PStr ''0''\<rparr>"
proof -
  let ?h = "\<lparr>hd_ref = 3, hd_id = PStr ''0''\<rparr>"
  let ?b = "add_to_current (1::nat) ?h TransfersBookKeeper"
  have r: "reachable (\<lambda>b. b = TransfersBookKeeper) (book_step (\<lambda>h. True)) ?b"
    by (rule reach_step[where s = TransfersBookKeeper], rule reach_init) (auto intro: book_step.intros)
  have k: "known 1 ?b = [?h]"
    by (simp add: known_def add_to_current_def) (simp add: TransfersBookKeeper_def dd_get_def)
  show ?thesis
    using transfer_book_consistent[OF r, of "PStr ''0''" 1] unfolding k
    by (auto split: lookup_result.splits)
qed

text \<open>
  Pausing a transfer and then calling \<open>stop_all_files\<close> loses it: \<open>add_to_continued\<close> reads the
  running set of the peer and thereby creates an empty one, and \<open>continued.update(current)\<close>
  replaces the paused set by it. The handle is in no set afterwards, so \<open>get_transfer\<close> cannot
  return it.
\<close>

theorem stop_all_files_loses_paused:
  assumes "book_wf b" and "bk_current b = []" and "h \<notin> set (dd_get p (bk_completed b))"
  shows "fst (stop_all_files has_break (add_to_continued p h b)) = Inr () \<and>
    h \<notin> set (known p (snd (stop_all_files has_break (add_to_continued p h b))))"
proof -
  let ?b = "add_to_continued p h b"
  have cur: "bk_current ?b = [(p, [])]"
    using assms(2) by (simp add: add_to_continued_def dd_upd_def dd_get_def)
  have "book_wf ?b"
    using assms(1) by (rule book_wf_add_to_continued)
  then have "dd_get p (fold (\<lambda>(k, v). dset k v) (bk_current ?b) (bk_continued ?b)) = []"
    using dd_get_stop[of ?b p] cur by (simp add: book_wf_def sets_wf_def dd_get_def)
  moreover have "bk_completed ?b = bk_completed b"
    by (simp add: add_to_continued_def)
  ultimately show ?thesis
    using assms(3) cur by (simp add: stop_all_files_def known_def) (simp add: dd_get_def)
qed

theorem stop_all_files_loses_paused_witness:
  "\<lparr>hd_ref = 3, hd_id = PStr ''0''\<rparr> \<notin> set (known (1::nat) (snd (stop_all_files (\<lambda>h. True)
     (add_to_continued 1 \<lparr>hd_ref = 3, hd_id = PStr ''0''\<rparr> TransfersBookKeeper))))"
  by (rule stop_all_files_loses_paused[THEN conjunct2, OF book_wf_init])
    (simp_all add: TransfersBookKeeper_def dd_get_def)

end
