(* ===== verification/Useables.thy ===== *)
theory Useables
  imports Containers
begin

text \<open>
  The utilities of \<open>src/avails/useables.py\<close> and the connection helpers of
  \<open>src/avails/connect.py\<close> built on them: retry timeouts, integers on a stream, path shortening,
  the search over a peer dictionary, the throughput counters, the connection retry loop and the
  liveness probe of a socket.

  Timeouts and rates are exact rationals: the code's floats are only multiplied by two or
  compared, and the theorems do not depend on the rounding of a rate.
\<close>

section \<open>Retry timeouts\<close>

definition MAX_RETIRES :: int where "MAX_RETIRES = 7"

text \<open>The \<open>for\<close> loop of \<open>get_timeouts\<close>, \<open>n\<close> rounds from \<open>current\<close> on.\<close>

fun timeouts_for :: "rat \<Rightarrow> rat \<Rightarrow> rat \<Rightarrow> nat \<Rightarrow> rat list" where
  "timeouts_for current factor max_value 0 = []"
| "timeouts_for current factor max_value (Suc n) =
     min current max_value # timeouts_for (current * factor) factor max_value n"

text \<open>
  The \<open>while True\<close> loop: run it until it yields. It may never yield (\<open>None\<close>), for instance when
  \<open>factor\<close> is 1. The result is the yielded value and \<open>current\<close> at that point.
\<close>

partial_function (option) timeouts_while :: "rat \<Rightarrow> rat \<Rightarrow> rat \<Rightarrow> (rat \<times> rat) option" where
  "timeouts_while current factor max_value =
     (if max_value \<le> current then Some (max_value, current)
      else timeouts_while (current * factor) factor max_value)"

declare timeouts_while.simps [code]

text \<open>The first \<open>k\<close> values of the generator (all of them, when it ends earlier).\<close>

fun timeouts_forever :: "rat \<Rightarrow> rat \<Rightarrow> rat \<Rightarrow> nat \<Rightarrow> rat list option" where
  "timeouts_forever current factor max_value 0 = Some []"
| "timeouts_forever current factor max_value (Suc k) =
     (case timeouts_while current factor max_value of
        None \<Rightarrow> None
      | Some (v, cur) \<Rightarrow> map_option ((#) v) (timeouts_forever (cur * factor) factor max_value k))"

definition get_timeouts :: "rat \<Rightarrow> rat \<Rightarrow> int \<Rightarrow> rat \<Rightarrow> nat \<Rightarrow> rat list option" where
  "get_timeouts initial factor max_retries max_value k =
     (if max_retries = -1 then timeouts_forever initial factor max_value k
      else Some (take k (timeouts_for initial factor max_value (nat max_retries))))"

text \<open>
  \<open>async_timeouts\<close> sleeps for each value before it yields: the moments, counted from the start, at
  which its first \<open>k\<close> rounds run.
\<close>

definition async_timeouts :: "rat \<Rightarrow> rat \<Rightarrow> int \<Rightarrow> rat \<Rightarrow> nat \<Rightarrow> rat list option" where
  "async_timeouts initial factor max_retries max_value k =
     map_option (\<lambda>ts. map (\<lambda>i. sum_list (take (Suc i) ts)) [0..<length ts])
       (get_timeouts initial factor max_retries max_value k)"

lemma timeouts_for_nth:
  "i < n \<Longrightarrow> timeouts_for c f m n ! i = min (c * f ^ i) m"
proof (induction n arbitrary: c i)
  case (Suc n)
  then show ?case by (cases i) (simp_all add: mult.assoc)
qed simp

lemma length_timeouts_for [simp]: "length (timeouts_for c f m n) = n"
  by (induction n arbitrary: c) auto

lemma timeouts_while_yields:
  assumes "0 < c" "2 \<le> f"
  shows "\<exists>cur. timeouts_while c f m = Some (m, cur) \<and> 0 < cur"
proof -
  have grow: "c * 2 ^ n \<le> c * f ^ n" for n
    using assms power_mono[of 2 f n] by simp
  obtain n :: nat where "m / c < of_nat n"
    using reals_Archimedean2 by blast
  then have "m < c * of_nat n"
    using assms(1) by (simp add: field_simps)
  also have "(of_nat n :: rat) \<le> 2 ^ n"
    by (metis less_exp less_imp_le of_nat_le_iff of_nat_numeral of_nat_power)
  then have "c * of_nat n \<le> c * f ^ n"
    using grow[of n] assms(1) by (smt (verit) mult_le_cancel_left_pos order_trans)
  finally have "m \<le> c * f ^ n" by simp
  then show ?thesis
    using assms(1)
  proof (induction n arbitrary: c)
    case 0
    then show ?case by (subst timeouts_while.simps) auto
  next
    case (Suc n)
    have "0 < c * f" "m \<le> (c * f) * f ^ n"
      using Suc.prems assms(2) by (simp_all add: mult.assoc)
    from Suc.IH[OF this(2,1)] Suc.prems show ?case
      by (subst timeouts_while.simps) auto
  qed
qed

lemma timeouts_forever_max:
  assumes "0 < c" "2 \<le> f"
  shows "timeouts_forever c f m k = Some (replicate k m)"
  using assms(1)
proof (induction k arbitrary: c)
  case (Suc k)
  obtain cur where "timeouts_while c f m = Some (m, cur)" "0 < cur"
    using timeouts_while_yields[OF Suc.prems assms(2)] by blast
  moreover from this have "0 < cur * f"
    using assms(2) by simp
  ultimately show ?case
    using Suc.IH by simp
qed simp

text \<open>
  With a number of retries, \<open>get_timeouts\<close> yields exactly that many values: the exponential
  sequence \<open>initial * factor ^ i\<close> capped at \<open>max_value\<close>. Asked to go on for ever (-1) it never
  yields a value of the sequence below the cap: every value is \<open>max_value\<close>, although the
  documentation promises the capped sequence.
\<close>

theorem get_timeouts_values:
  assumes "0 < initial" "2 \<le> factor" "0 \<le> n"
  shows "get_timeouts initial factor n max_value (nat n) =
      Some (map (\<lambda>i. min (initial * factor ^ i) max_value) [0..<nat n]) \<and>
    get_timeouts initial factor (-1) max_value k = Some (replicate k max_value)"
proof -
  have "timeouts_for initial factor max_value (nat n) =
      map (\<lambda>i. min (initial * factor ^ i) max_value) [0..<nat n]"
    by (rule nth_equalityI) (simp_all add: timeouts_for_nth)
  then show ?thesis
    using assms(3) by (simp add: get_timeouts_def timeouts_forever_max[OF assms(1,2)])
qed

theorem get_timeouts_values_witness:
  "get_timeouts 1 3 4 10 4 = Some [1, 3, 9, 10] \<and>
   get_timeouts (1 / 10) 2 (-1) 3 2 = Some [3, 3]"
proof
  show "get_timeouts 1 3 4 10 4 = Some [1, 3, 9, 10]"
    using get_timeouts_values[of 1 3 4 10, THEN conjunct1] by (simp add: upt_rec)
  show "get_timeouts (1 / 10) 2 (-1) 3 2 = Some [3, 3]"
    using get_timeouts_values[of "1 / 10" 2 0 3 2, THEN conjunct2] by (simp add: numeral_2_eq_2)
qed


section \<open>Integers on a stream\<close>

definition SHORT_INT :: nat where "SHORT_INT = 4"
definition LONG_INT :: nat where "LONG_INT = 8"

text \<open>
  \<open>recv_int(get_bytes, type)\<close>; \<open>get_bytes\<close> passes the state of the stream on. A short read makes
  \<open>struct.unpack\<close> fail, which becomes \<open>ValueError\<close>, as does \<open>ConnectionResetError\<close>.
\<close>

definition recv_int :: "(nat \<Rightarrow> 's \<Rightarrow> bytes res \<times> 's) \<Rightarrow> nat \<Rightarrow> 's \<Rightarrow> nat res \<times> 's" where
  "recv_int get_bytes typ s =
     (case get_bytes typ s of
        (Inl e, s') \<Rightarrow> (Inl (if e = ConnectionResetError then ValueError else e), s')
      | (Inr byted_int, s') \<Rightarrow>
          ((case (if typ = SHORT_INT then unpack_I byted_int else unpack_Q byted_int) of
              Inl _ \<Rightarrow> Inl ValueError | Inr i \<Rightarrow> Inr i), s'))"

lemma recv_int_short:
  assumes "get_bytes 4 s = (Inr (be_encode 4 n), s')" "n < 256 ^ 4"
  shows "recv_int get_bytes SHORT_INT s = (Inr n, s')"
  using assms by (simp add: recv_int_def SHORT_INT_def)

lemma recv_int_long:
  assumes "get_bytes 8 s = (Inr (be_encode 8 n), s')" "n < 256 ^ 8"
  shows "recv_int get_bytes LONG_INT s = (Inr n, s')"
  using assms by (simp add: recv_int_def SHORT_INT_def LONG_INT_def)

section \<open>Paths for display\<close>

text \<open>\<open>parts\<close> are the components of the path, \<open>selected_parts.pop(1)\<close> removes the second one.\<close>

fun shorten_loop :: "nat \<Rightarrow> string list \<Rightarrow> string list" where
  "shorten_loop max_length (a # b # c # rest) =
     (if max_length \<le> length (concat (a # b # c # rest))
      then shorten_loop max_length (a # c # rest) else a # b # c # rest)"
| "shorten_loop max_length ps = ps"

definition sep_join :: "string \<Rightarrow> string list \<Rightarrow> string" where
  "sep_join sep ps = (case ps of [] \<Rightarrow> [] | q # qs \<Rightarrow> q @ concat (map (\<lambda>r. sep @ r) qs))"

definition shorten_path :: "string \<Rightarrow> string list \<Rightarrow> nat \<Rightarrow> string" where
  "shorten_path path_str parts max_length =
     (if length path_str \<le> max_length then path_str
      else let selected_parts = shorten_loop max_length parts
           in sep_join ''/'' (take 1 selected_parts @ [''..''] @ drop 1 selected_parts))"

lemma shorten_loop_ends:
  "ps \<noteq> [] \<Longrightarrow> hd (shorten_loop m ps) = hd ps \<and> last (shorten_loop m ps) = last ps \<and>
    shorten_loop m ps \<noteq> []"
  by (induction m ps rule: shorten_loop.induct) auto

section \<open>Searching a peer dictionary\<close>

text \<open>
  The generator works on a copy of the keys and reads the dictionary again at every step, so
  \<open>view i\<close> is the dictionary at the moment the \<open>i\<close>-th key is looked up; keys removed meanwhile are
  skipped. First it stores a flag on the dictionary object; \<open>attrs\<close> says whether the object
  accepts new attributes.
\<close>

fun search_loop :: "(nat \<Rightarrow> peer_dict) \<Rightarrow> nat \<Rightarrow> string list \<Rightarrow> string \<Rightarrow> remote_peer list res" where
  "search_loop view i [] s = Inr []"
| "search_loop view i (k # ks) s =
     (case dindex (view i) k of
        Inl _ \<Rightarrow> search_loop view (Suc i) ks s
      | Inr p \<Rightarrow>
          (case is_relevant s p of
             Inl e \<Rightarrow> Inl e
           | Inr b \<Rightarrow> map_sum id (if b then (#) p else id) (search_loop view (Suc i) ks s)))"

definition search_relevant_peers ::
    "bool \<Rightarrow> peer_dict \<Rightarrow> (nat \<Rightarrow> peer_dict) \<Rightarrow> string \<Rightarrow> remote_peer list res" where
  "search_relevant_peers attrs d view s =
     (if \<not> attrs then Inl AttributeError else search_loop view 0 (dkeys d) s)"

text \<open>
  \<open>PeerDict\<close> derives from \<open>dict\<close> and declares \<open>__slots__\<close>, so its instances have no \<open>__dict__\<close> and
  refuse attributes other than its lock.
\<close>

definition PeerDict_accepts_attributes :: bool where
  "PeerDict_accepts_attributes = False"

lemma search_loop_sound:
  assumes "search_loop view i ks s = Inr ps" "p \<in> set ps"
  shows "is_relevant s p = Inr True \<and> (\<exists>j<length ks. dget (view (i + j)) (ks ! j) = Some p)"
  using assms
proof (induction ks arbitrary: i ps)
  case (Cons k ks)
  have shift: "\<exists>j<length (k # ks). dget (view (i + j)) ((k # ks) ! j) = Some p"
    if "\<exists>j<length ks. dget (view (Suc i + j)) (ks ! j) = Some p"
    using that by (metis Suc_less_eq add_Suc_shift length_Cons nth_Cons_Suc)
  show ?case
  proof (cases "dget (view i) k")
    case None
    then have k: "dindex (view i) k = Inl KeyError" by simp
    have "search_loop view (Suc i) ks s = Inr ps"
      using Cons.prems(1) unfolding search_loop.simps k by simp
    then show ?thesis using Cons.IH Cons.prems(2) shift by blast
  next
    case (Some q)
    then have q: "dindex (view i) k = Inr q" by simp
    from Cons.prems(1) obtain b qs where b: "is_relevant s q = Inr b"
        and qs: "search_loop view (Suc i) ks s = Inr qs" and ps: "ps = (if b then q # qs else qs)"
      unfolding search_loop.simps q by (auto split: sum.splits if_splits)
    show ?thesis
    proof (cases "p \<in> set qs")
      case True
      then show ?thesis using Cons.IH[OF qs] shift by blast
    next
      case False
      then have "p = q" b using ps Cons.prems(2) by (auto split: if_splits)
      then show ?thesis using b Some by force
    qed
  qed
qed simp

lemma search_loop_static:
  assumes "\<And>k p. (k, p) \<in> set kvs \<Longrightarrow> dget d k = Some p \<and> is_relevant s p = Inr (rel p)"
  shows "search_loop (\<lambda>j. d) i (map fst kvs) s = Inr (filter rel (map snd kvs))"
  using assms
proof (induction kvs arbitrary: i)
  case (Cons kv kvs)
  have "(fst kv, snd kv) \<in> set (kv # kvs)"
    by simp
  from Cons.prems[OF this] have kv: "dindex d (fst kv) = Inr (snd kv)"
      "is_relevant s (snd kv) = Inr (rel (snd kv))"
    by simp_all
  have "search_loop (\<lambda>j. d) (Suc i) (map fst kvs) s = Inr (filter rel (map snd kvs))"
    by (rule Cons.IH) (meson Cons.prems list.set_intros(2))
  then show ?case
    by (simp add: kv del: dindex_Inr)
qed simp

text \<open>
  On a dictionary of named peers that accepts the flag and is not modified meanwhile, the
  search yields exactly the peers whose name contains the search string, in order. On the
  \<open>PeerDict\<close> all callers pass, it fails with \<open>AttributeError\<close> before it looks at any peer.
\<close>

theorem search_relevant_peers_result:
  assumes "dict_wf d"
    and "\<And>k p. (k, p) \<in> set d \<Longrightarrow> is_relevant s p = Inr (rel p)"
  shows "search_relevant_peers True d (\<lambda>i. d) s = Inr (filter rel (peers d)) \<and>
    search_relevant_peers PeerDict_accepts_attributes d (\<lambda>i. d) s = Inl AttributeError"
  using search_loop_static[of d d s rel 0] assms
  by (simp add: search_relevant_peers_def PeerDict_accepts_attributes_def dkeys_def peers_def
      set_dict_dget)


theorem search_relevant_peers_result_witness:
  "\<exists>p q. search_relevant_peers True [(''1'', p), (''2'', q)] (\<lambda>i. [(''1'', p), (''2'', q)]) ''li'' = Inr [p]"
proof -
  let ?p = "\<lparr>rp_username = PStr ''ali'', rp_ip = ''::1'', rp_conn_port = PORT_THIS, rp_req_port = PORT_REQ,
    rp_status = ONLINE, rp_id = [1], rp_long_id = 1, rp_byte_cache = None\<rparr>"
  let ?q = "?p\<lparr>rp_username := PStr ''bob'', rp_id := [2], rp_long_id := 2\<rparr>"
  let ?rel = "\<lambda>r. rp_username r = PStr ''ali''"
  have "search_relevant_peers True [(''1'', ?p), (''2'', ?q)] (\<lambda>i. [(''1'', ?p), (''2'', ?q)]) ''li'' =
      Inr (filter ?rel (peers [(''1'', ?p), (''2'', ?q)]))"
    by (rule search_relevant_peers_result[THEN conjunct1])
      (auto simp: dict_wf_def is_relevant_def sublist_Cons_right)
  then have "search_relevant_peers True [(''1'', ?p), (''2'', ?q)] (\<lambda>i. [(''1'', ?p), (''2'', ?q)]) ''li''
      = Inr [?p]"
    by (simp add: peers_def)
  then show ?thesis by blast
qed

section \<open>Throughput\<close>

text \<open>
  \<open>ThroughputMixin\<close> with the limiter of \<open>Sender\<close> and \<open>Receiver\<close>: \<open>th_limiter\<close> is the state of the
  \<open>asyncio.Event\<close>; a call on a cleared limiter waits, which is \<open>None\<close>.
\<close>

definition RATE_WINDOW :: rat where "RATE_WINDOW = 1 / 10000"
definition BYTES_PER_KB :: rat where "BYTES_PER_KB = 1024"

record throughput =
  th_limiter :: bool
  th_bytes_total :: nat
  th_window_start :: rat
  th_rate :: rat

definition ThroughputMixin :: "rat \<Rightarrow> throughput" where
  "ThroughputMixin now =
     \<lparr>th_limiter = True, th_bytes_total = 0, th_window_start = now, th_rate = 0\<rparr>"

definition update_throughput :: "nat \<Rightarrow> rat \<Rightarrow> throughput \<Rightarrow> throughput" where
  "update_throughput nbytes now t =
     (let total = th_bytes_total t + nbytes; dt = now - th_window_start t
      in if RATE_WINDOW \<le> dt
         then t\<lparr>th_rate := of_nat total / BYTES_PER_KB / dt, th_bytes_total := 0,
                th_window_start := now\<rparr>
         else t\<lparr>th_bytes_total := total\<rparr>)"

definition pause_limiter :: "throughput \<Rightarrow> throughput" where
  "pause_limiter t = t\<lparr>th_limiter := False\<rparr>"

definition resume_limiter :: "throughput \<Rightarrow> throughput" where
  "resume_limiter t = t\<lparr>th_limiter := True\<rparr>"

definition Sender_call :: "unit res \<Rightarrow> rat \<Rightarrow> bytes \<Rightarrow> throughput \<Rightarrow> (unit res \<times> throughput) option" where
  "Sender_call sent now buf t =
     (if \<not> th_limiter t then None
      else case sent of
        Inl e \<Rightarrow> Some (Inl e, t)
      | Inr _ \<Rightarrow> Some (Inr (), update_throughput (length buf) now t))"

text \<open>\<open>Receiver.__call__\<close> counts the bytes asked for, not those received.\<close>

definition Receiver_call ::
    "rat \<Rightarrow> nat \<Rightarrow> throughput \<times> stream \<Rightarrow> (bytes res \<times> throughput \<times> stream) option" where
  "Receiver_call now nbytes st =
     (if \<not> th_limiter (fst st) then None
      else case arecv nbytes (snd st) of
        (Inl e, s) \<Rightarrow> Some (Inl e, fst st, s)
      | (Inr d, s) \<Rightarrow> Some (Inr d, update_throughput nbytes now (fst st), s))"

lemma update_throughput_inv [inv_intros]:
  "0 \<le> th_rate t \<Longrightarrow> 0 \<le> th_rate (update_throughput n now t)"
  by (simp add: update_throughput_def Let_def RATE_WINDOW_def BYTES_PER_KB_def)


section \<open>Connecting to a peer\<close>

text \<open>
  Name resolution and the operating system's \<open>connect\<close> are arguments: \<open>getaddrinfo\<close> gives the list
  of socket addresses, \<open>conn a timeout i\<close> is the outcome of the \<open>i\<close>-th connection attempt.
\<close>

definition create_connection_sync ::
    "('q \<Rightarrow> 'a list res) \<Rightarrow> ('a \<Rightarrow> rat option \<Rightarrow> 'c res) \<Rightarrow> 'q \<Rightarrow> rat option \<Rightarrow> 'c res" where
  "create_connection_sync getaddrinfo conn address timeout =
     (case getaddrinfo address of
        Inl e \<Rightarrow> Inl e
      | Inr [] \<Rightarrow> Inl IndexError
      | Inr (a # _) \<Rightarrow> conn a timeout)"

text \<open>\<open>TCPProtocol.create_connection_async\<close>: a timeout of zero counts as none.\<close>

definition TCP_create_connection_async ::
    "('q \<Rightarrow> 'a list res) \<Rightarrow> ('a \<Rightarrow> rat option \<Rightarrow> 'c res) \<Rightarrow> 'q \<Rightarrow> rat option \<Rightarrow> 'c res" where
  "TCP_create_connection_async getaddrinfo conn address timeout =
     (case getaddrinfo address of
        Inl e \<Rightarrow> Inl e
      | Inr [] \<Rightarrow> Inl IndexError
      | Inr (a # _) \<Rightarrow> conn a (if timeout = Some 0 then None else timeout))"

fun connect_loop :: "(rat option \<Rightarrow> nat \<Rightarrow> 'c res) \<Rightarrow> int \<Rightarrow> nat \<Rightarrow> rat list \<Rightarrow> 'c res" where
  "connect_loop attempt retries retry_count [] = Inl OSError"
| "connect_loop attempt retries retry_count (t # ts) =
     (case attempt (Some t) retry_count of
        Inr c \<Rightarrow> Inr c
      | Inl e \<Rightarrow>
          if is_OSError e
          then if retries \<le> int (Suc retry_count) then Inl e
               else connect_loop attempt retries (Suc retry_count) ts
          else Inl e)"

text \<open>
  The retry loop asks its generator for at most \<open>max(1, retries)\<close> values; \<open>None\<close> stands for a
  generator that never yields.
\<close>

definition connect_to_peer ::
    "('q \<Rightarrow> 'b res) \<Rightarrow> ('b \<Rightarrow> rat option \<Rightarrow> nat \<Rightarrow> 'c res) \<Rightarrow> 'q \<Rightarrow> rat option \<Rightarrow> int \<Rightarrow> 'c res option" where
  "connect_to_peer resolve_address create peer_uri timeout retries =
     (case resolve_address peer_uri of
        Inl e \<Rightarrow> Some (Inl e)
      | Inr address \<Rightarrow>
          (case timeout of
             None \<Rightarrow> Some (create address None 0)
           | Some t \<Rightarrow> map_option (connect_loop (create address) retries 0)
               (get_timeouts t 2 retries 5 (nat (max 1 retries)))))"

definition retry_timeout :: "rat \<Rightarrow> nat \<Rightarrow> rat option" where
  "retry_timeout t i = Some (min (t * 2 ^ i) 5)"

lemma connect_loop_success:
  assumes "i < length ts" "attempt (Some (ts ! i)) (r + i) = Inr c" "int (r + i) < retries"
    and "\<And>j. j < i \<Longrightarrow> \<exists>e. attempt (Some (ts ! j)) (r + j) = Inl e \<and> is_OSError e"
  shows "connect_loop attempt retries r ts = Inr c"
  using assms
proof (induction ts arbitrary: i r)
  case (Cons t ts)
  show ?case
  proof (cases i)
    case 0
    then show ?thesis using Cons.prems by simp
  next
    case (Suc k)
    obtain e where e: "attempt (Some t) r = Inl e" "is_OSError e"
      using Cons.prems(4)[of 0] Suc by auto
    have "connect_loop attempt retries (Suc r) ts = Inr c"
    proof (rule Cons.IH[of k])
      show "\<exists>e. attempt (Some (ts ! j)) (Suc r + j) = Inl e \<and> is_OSError e" if "j < k" for j
        using Cons.prems(4)[of "Suc j"] Suc that by simp
    qed (use Cons.prems Suc in auto)
    then show ?thesis using e Cons.prems(3) Suc by simp
  qed
qed simp

lemma connect_loop_failure:
  assumes "ts \<noteq> []" "int (r + length ts) = retries"
    and "\<And>j. j < length ts \<Longrightarrow> attempt (Some (ts ! j)) (r + j) = Inl (err j) \<and> is_OSError (err j)"
  shows "connect_loop attempt retries r ts = Inl (err (length ts - 1))"
  using assms
proof (induction ts arbitrary: r err)
  case (Cons t ts)
  have t: "attempt (Some t) r = Inl (err 0)" "is_OSError (err 0)"
    using Cons.prems(3)[of 0] by auto
  show ?case
  proof (cases "ts = []")
    case True
    then show ?thesis using t Cons.prems(2) by simp
  next
    case False
    have "connect_loop attempt retries (Suc r) ts = Inl (err (Suc (length ts - 1)))"
      using Cons.IH[of "Suc r" "\<lambda>j. err (Suc j)"] Cons.prems(2) Cons.prems(3)[of "Suc j" for j] False
      by simp
    then show ?thesis using t Cons.prems(2) False by (cases ts) auto
  qed
qed simp

text \<open>
  C33. Connecting with a timeout and \<open>n\<close> retries makes at most \<open>n\<close> attempts, the \<open>i\<close>-th with
  timeout \<open>min (t * 2 ^ i) 5\<close>: it returns the first connection made after failures with
  \<open>OSError\<close> only, and when all \<open>n\<close> attempts fail that way it raises the error of the last one.
\<close>

theorem connect_to_peer_retries:
  fixes create :: "'b \<Rightarrow> rat option \<Rightarrow> nat \<Rightarrow> 'c res"
  assumes "resolve_address u = Inr a" and "0 < t" and "0 < n"
  shows "(\<forall>i c. i < n \<longrightarrow> create a (retry_timeout t i) i = Inr c \<longrightarrow>
        (\<forall>j<i. \<exists>e. create a (retry_timeout t j) j = Inl e \<and> is_OSError e) \<longrightarrow>
        connect_to_peer resolve_address create u (Some t) (int n) = Some (Inr c)) \<and>
    (\<forall>err. (\<forall>j<n. create a (retry_timeout t j) j = Inl (err j) \<and> is_OSError (err j)) \<longrightarrow>
        connect_to_peer resolve_address create u (Some t) (int n) = Some (Inl (err (n - 1))))"
proof -
  define ts where "ts = timeouts_for t 2 5 n"
  have ts: "length ts = n" "\<And>i. i < n \<Longrightarrow> Some (ts ! i) = retry_timeout t i"
    by (simp_all add: ts_def timeouts_for_nth retry_timeout_def)
  have run: "connect_to_peer resolve_address create u (Some t) (int n) =
      Some (connect_loop (create a) (int n) 0 ts)"
    using assms by (simp add: connect_to_peer_def get_timeouts_def ts_def)
  show ?thesis
    unfolding run
    using connect_loop_success[where r = 0 and ts = ts and retries = "int n" and attempt = "create a"]
      connect_loop_failure[where r = 0 and ts = ts and retries = "int n" and attempt = "create a"] ts assms(3)
    by auto
qed

theorem connect_to_peer_retries_witness:
  "connect_to_peer (\<lambda>u. Inr u) (\<lambda>a t i. if i = 0 then Inl TimeoutError else Inr (a, t)) (9::nat) (Some 3) 2
     = Some (Inr (9, Some 5))"
proof -
  let ?create = "\<lambda>a t i. if i = (0::nat) then Inl TimeoutError else Inr (a :: nat, t :: rat option)"
  have "\<forall>i c. i < 2 \<longrightarrow> ?create 9 (retry_timeout 3 i) i = Inr c \<longrightarrow>
      (\<forall>j<i. \<exists>e. ?create 9 (retry_timeout 3 j) j = Inl e \<and> is_OSError e) \<longrightarrow>
      connect_to_peer (\<lambda>u. Inr u) ?create 9 (Some 3) (int 2) = Some (Inr c)"
    by (rule connect_to_peer_retries[THEN conjunct1]) simp_all
  from this[rule_format, of 1 "(9, Some 5)"] show ?thesis
    by (simp add: is_OSError_def retry_timeout_def)
qed

section \<open>Probing a socket and finding a port\<close>

text \<open>
  A socket as \<open>is_socket_connected\<close> uses it: whether it is open, its two options, what the calls
  inside the \<open>try\<close> do (\<open>ps_peername\<close>, \<open>ps_peek\<close>) and whether the options can be put back.
\<close>

record probe_sock =
  ps_open :: bool
  ps_blocking :: bool
  ps_keepalive :: nat
  ps_peername :: "unit res"
  ps_peek :: "bytes res"
  ps_restore_blocking :: bool
  ps_restore_keepalive :: bool

definition probe_body :: "probe_sock \<Rightarrow> bool res" where
  "probe_body s =
     (case res_bind (ps_peername s) (\<lambda>_. ps_peek s) of
        Inr d \<Rightarrow> Inr (d \<noteq> [])
      | Inl e \<Rightarrow> if e = BlockingIOError then Inr True
                 else if is_OSError e then Inr False else Inl e)"

text \<open>
  \<open>getsockopt\<close> is called before the \<open>try\<close>, so on a closed socket its \<open>OSError\<close> leaves the function;
  \<open>return False\<close> in the \<open>finally\<close> part overrides every other outcome.
\<close>

definition is_socket_connected :: "probe_sock \<Rightarrow> bool res \<times> probe_sock" where
  "is_socket_connected s =
     (if \<not> ps_open s then (Inl OSError, s)
      else let r = probe_body s; s1 = s\<lparr>ps_blocking := False, ps_keepalive := 1\<rparr>
           in if \<not> ps_restore_blocking s then (Inr False, s1)
              else if \<not> ps_restore_keepalive s then (Inr False, s1\<lparr>ps_blocking := ps_blocking s\<rparr>)
              else (r, s1\<lparr>ps_blocking := ps_blocking s, ps_keepalive := ps_keepalive s\<rparr>))"

lemma is_socket_connected_restores:
  "ps_restore_blocking s \<Longrightarrow> ps_restore_keepalive s \<Longrightarrow> snd (is_socket_connected s) = s"
  by (simp add: is_socket_connected_def Let_def)

lemma is_socket_connected_closed: "\<not> ps_open s \<Longrightarrow> fst (is_socket_connected s) = Inl OSError"
  by (simp add: is_socket_connected_def)

text \<open>\<open>bind\<close> gives the bound address or fails; \<open>()\<close> is the empty tuple, whose index 1 does not exist.\<close>

definition is_port_empty :: "(nat \<Rightarrow> addr res) \<Rightarrow> nat \<Rightarrow> addr option res" where
  "is_port_empty bind port = (case bind port of
     Inr a \<Rightarrow> Inr (Some a)
   | Inl e \<Rightarrow> if is_OSError e then Inr None else Inl e)"

definition get_free_port :: "(nat \<Rightarrow> addr res) \<Rightarrow> nat res" where
  "get_free_port bind = (case is_port_empty bind 0 of
     Inl e \<Rightarrow> Inl e
   | Inr None \<Rightarrow> Inl IndexError
   | Inr (Some a) \<Rightarrow> Inr (snd a))"

end
