(* ===== verification/Mixins.thy ===== *)
theory Mixins
  imports Containers
begin

text \<open>
  \<open>src/avails/mixins.py\<close> (\<open>ReplyRegistryMixIn\<close>, \<open>singleton_mixin\<close>), the thread actuator of
  \<open>src/avails/waiters.py\<close> and the registry of \<open>BaseDispatcher\<close> in \<open>src/avails/bases.py\<close>.

  Futures live in a heap, a list indexed by creation order; awaiting code may cancel a pending
  future at any time.
\<close>

section \<open>ReplyRegistryMixIn\<close>

datatype 'm fut = Pending | Done 'm | Cancelled

record ('k, 'm) registry =
  rg_replies :: "('k, nat) pydict"
  rg_futs :: "'m fut list"

definition empty_registry :: "('k, 'm) registry" where
  "empty_registry = \<lparr>rg_replies = [], rg_futs = []\<rparr>"

definition register_reply :: "'k \<Rightarrow> ('k, 'm) registry \<Rightarrow> nat \<times> ('k, 'm) registry" where
  "register_reply reply_id r =
     (length (rg_futs r),
      r\<lparr>rg_replies := dset reply_id (length (rg_futs r)) (rg_replies r),
        rg_futs := rg_futs r @ [Pending]\<rparr>)"

definition msg_arrived :: "('m \<Rightarrow> 'k) \<Rightarrow> 'm \<Rightarrow> ('k, 'm) registry \<Rightarrow> ('k, 'm) registry" where
  "msg_arrived id_of message r =
     (case dget (rg_replies r) (id_of message) of
        None \<Rightarrow> r
      | Some f \<Rightarrow>
          (let r' = r\<lparr>rg_replies := ddel (id_of message) (rg_replies r)\<rparr>
           in if rg_futs r ! f = Pending then r'\<lparr>rg_futs := (rg_futs r)[f := Done message]\<rparr> else r'))"

definition is_registered :: "('m \<Rightarrow> 'k) \<Rightarrow> 'm \<Rightarrow> ('k, 'm) registry \<Rightarrow> bool" where
  "is_registered id_of message r \<longleftrightarrow> dmem (id_of message) (rg_replies r)"

text \<open>\<open>str(next(self._id_factory))\<close>; the counter is one per class hierarchy.\<close>

definition id_factory :: "nat \<Rightarrow> string \<times> nat" where
  "id_factory c = (str_of_nat c, Suc c)"

text \<open>The awaiting side gives up (a timeout or a cancelled task).\<close>

definition cancel_fut :: "nat \<Rightarrow> ('k, 'm) registry \<Rightarrow> ('k, 'm) registry" where
  "cancel_fut f r = (if f < length (rg_futs r) \<and> rg_futs r ! f = Pending
     then r\<lparr>rg_futs := (rg_futs r)[f := Cancelled]\<rparr> else r)"

text \<open>
  The system of a registry and its users, with the ghost list of the id each future was created
  for.
\<close>

inductive reg_step :: "('m \<Rightarrow> 'k) \<Rightarrow> ('k, 'm) registry \<times> 'k list \<Rightarrow> ('k, 'm) registry \<times> 'k list \<Rightarrow> bool"
  for id_of where
  reg_register: "reg_step id_of (r, ids) (snd (register_reply i r), ids @ [i])"
| reg_arrive: "reg_step id_of (r, ids) (msg_arrived id_of m r, ids)"
| reg_cancel: "reg_step id_of (r, ids) (cancel_fut f r, ids)"

definition reg_inv :: "('m \<Rightarrow> 'k) \<Rightarrow> ('k, 'm) registry \<times> 'k list \<Rightarrow> bool" where
  "reg_inv id_of st \<longleftrightarrow>
     length (snd st) = length (rg_futs (fst st)) \<and>
     (\<forall>i f. dget (rg_replies (fst st)) i = Some f \<longrightarrow>
        f < length (snd st) \<and> snd st ! f = i \<and> (\<forall>m. rg_futs (fst st) ! f \<noteq> Done m)) \<and>
     (\<forall>f m. f < length (snd st) \<longrightarrow> rg_futs (fst st) ! f = Done m \<longrightarrow> snd st ! f = id_of m)"

lemma reg_inv_register:
  "reg_inv id_of (r, ids) \<Longrightarrow> reg_inv id_of (snd (register_reply i r), ids @ [i])"
  by (auto simp: reg_inv_def register_reply_def nth_append)

lemma reg_inv_arrive:
  assumes "reg_inv id_of (r, ids)"
  shows "reg_inv id_of (msg_arrived id_of m r, ids)"
proof (cases "dget (rg_replies r) (id_of m)")
  case None
  then show ?thesis using assms by (simp add: msg_arrived_def)
next
  case (Some f)
  have f: "f < length ids" "ids ! f = id_of m"
    using assms Some by (auto simp: reg_inv_def)
  have other: "dget (rg_replies r) i = Some f \<Longrightarrow> i = id_of m" for i
    using assms f by (auto simp: reg_inv_def)
  let ?r = "msg_arrived id_of m r"
  have r': "rg_replies ?r = ddel (id_of m) (rg_replies r)"
      "rg_futs ?r = (if rg_futs r ! f = Pending then (rg_futs r)[f := Done m] else rg_futs r)"
    using Some by (simp_all add: msg_arrived_def Let_def)
  have len: "length ids = length (rg_futs r)"
    using assms by (simp add: reg_inv_def)
  show ?thesis
    unfolding reg_inv_def fst_conv snd_conv
  proof (intro conjI allI impI)
    show "length ids = length (rg_futs ?r)"
      using len by (simp add: r')
    fix i g assume "dget (rg_replies ?r) i = Some g"
    then have g: "i \<noteq> id_of m" "dget (rg_replies r) i = Some g"
      by (auto simp: r' split: if_splits)
    then have "g \<noteq> f" using other by blast
    with g assms show "g < length ids" "ids ! g = i" "rg_futs ?r ! g \<noteq> Done x" for x
      by (auto simp: r' reg_inv_def)
  next
    fix g x assume "g < length ids" "rg_futs ?r ! g = Done x"
    with assms f len show "ids ! g = id_of x"
      by (auto simp: r' reg_inv_def nth_list_update split: if_splits)
  qed
qed

lemma reg_inv_cancel: "reg_inv id_of (r, ids) \<Longrightarrow> reg_inv id_of (cancel_fut f r, ids)"
  by (auto simp: reg_inv_def cancel_fut_def nth_list_update)

interpretation replies: inv_system "\<lambda>st. st = (empty_registry, [])" "reg_step id_of" "reg_inv id_of"
proof unfold_locales
  show "s = (empty_registry, []) \<Longrightarrow> reg_inv id_of s" for s
    by (simp add: reg_inv_def empty_registry_def)
  show "reg_inv id_of s \<Longrightarrow> reg_step id_of s t \<Longrightarrow> reg_inv id_of t" for s t
    by (auto elim!: reg_step.cases intro: reg_inv_register reg_inv_arrive reg_inv_cancel)
qed

text \<open>A completed future never changes again, whatever happens later.\<close>

lemma reg_step_done:
  assumes "reg_inv id_of st" "reg_step id_of st st'" "f < length (snd st)"
    "rg_futs (fst st) ! f = Done m"
  shows "f < length (snd st') \<and> rg_futs (fst st') ! f = Done m"
  using assms(2)
proof cases
  case (reg_register r ids i)
  then show ?thesis using assms(1,3,4) by (auto simp: register_reply_def nth_append reg_inv_def)
next
  case (reg_arrive r ids m')
  then show ?thesis
    using assms(1,3,4)
    by (auto simp: msg_arrived_def Let_def reg_inv_def nth_list_update split: option.split)
next
  case (reg_cancel r ids g)
  then show ?thesis
    using assms(3,4) by (auto simp: cancel_fut_def nth_list_update)
qed

lemma reg_steps_done:
  assumes "(reg_step id_of)\<^sup>*\<^sup>* st st'" "reg_inv id_of st" "f < length (snd st)"
    "rg_futs (fst st) ! f = Done m"
  shows "f < length (snd st') \<and> rg_futs (fst st') ! f = Done m"
  using assms
proof (induction rule: rtranclp_induct)
  case (step st1 st2)
  then show ?case
    using reg_step_done[OF replies.steps_inv] by metis
qed simp



section \<open>singleton_mixin\<close>

text \<open>\<open>get_instance\<close>: the constructor runs once; later arguments are ignored.\<close>

definition get_instance :: "'c \<Rightarrow> ('a \<Rightarrow> 'o) \<Rightarrow> 'a \<Rightarrow> ('c, 'o) pydict \<Rightarrow> 'o \<times> ('c, 'o) pydict" where
  "get_instance cls new args instances =
     (let d = (if dmem cls instances then instances else dset cls (new args) instances)
      in (the (dget d cls), d))"

lemma singleton_once:
  "fst (get_instance c new b (snd (get_instance c new a d))) = fst (get_instance c new a d)"
  by (auto simp: get_instance_def Let_def dmem_iff)

section \<open>The thread actuator\<close>

record actuator =
  ac_flag :: bool
  ac_pipe :: nat

definition Actuator :: actuator where "Actuator = \<lparr>ac_flag = False, ac_pipe = 0\<rparr>"

definition wake :: "actuator \<Rightarrow> actuator" where
  "wake a = a\<lparr>ac_pipe := Suc (ac_pipe a)\<rparr>"

definition flip :: "actuator \<Rightarrow> actuator" where
  "flip a = a\<lparr>ac_flag := \<not> ac_flag a\<rparr>"

text \<open>\<open>reader.read(1)\<close> blocks on an empty pipe: \<open>None\<close>.\<close>

definition clear_reader :: "actuator \<Rightarrow> actuator option" where
  "clear_reader a = (case ac_pipe a of 0 \<Rightarrow> None | Suc n \<Rightarrow> Some (a\<lparr>ac_pipe := n\<rparr>))"

definition signal_stopping :: "actuator \<Rightarrow> actuator option" where
  "signal_stopping a = clear_reader (wake (flip a))"

text \<open>
  \<open>wait_for_sock_read\<close> and \<open>wait_for_sock_write\<close> after \<open>select\<close> returned: \<open>None\<close> stands for the
  actuator in the list of ready objects.
\<close>

definition wait_for_sock_read :: "actuator \<Rightarrow> 'o option list \<Rightarrow> 'o option list" where
  "wait_for_sock_read a reads = (if ac_flag a then [None] else reads)"

definition wait_for_sock_write :: "actuator \<Rightarrow> 'o option list \<Rightarrow> 'o option list" where
  "wait_for_sock_write a writes = (if ac_flag a then [None] else writes)"

text \<open>
  \<open>signal_stopping\<close> never blocks, flips the flag and leaves the pipe as it found it: with an
  empty pipe before, a thread inside \<open>select\<close> is not woken.
\<close>

lemma signal_stopping_result: "signal_stopping a = Some (flip a)"
  by (simp add: signal_stopping_def clear_reader_def wake_def flip_def)

section \<open>Dispatcher registries\<close>

definition register_handler :: "'t \<Rightarrow> 'h \<Rightarrow> ('t, 'h) pydict \<Rightarrow> ('t, 'h) pydict" where
  "register_handler event_trigger handler reg = dset event_trigger handler reg"

end
