(* ===== verification/Dispatch.thy ===== *)
theory Dispatch
  imports Useables Mixins
begin

text \<open>
  The datagram side of the program: the multiplexing transports of
  \<open>src/transfers/transports.py\<close> with the codes of \<open>src/transfers/_headers.py\<close>, the endpoint and
  the dispatcher of \<open>src/core/requests.py\<close>, the event records of \<open>src/avails/events.py\<close>, the task
  groups of \<open>QueueMixIn\<close> and the discovery protocol of \<open>src/core/discover.py\<close>.

  A handler is a function on the state it works on; an exception it raises is a value. Looking a
  value up in a Python dictionary hashes it, so a list or a dictionary received as an id or a
  header raises \<open>TypeError\<close> there (\<open>hashable\<close>).
\<close>

section \<open>Codes\<close>

definition KADEMLIA :: bytes where "KADEMLIA = [0]"
definition DISCOVERY :: bytes where "DISCOVERY = [1]"
definition GOSSIP :: bytes where "GOSSIP = [2]"

definition NETWORK_FIND :: bytes where "NETWORK_FIND = [0]"
definition NETWORK_FIND_REPLY :: bytes where "NETWORK_FIND_REPLY = [1]"

definition GOSSIP_MESSAGE :: pyval where "GOSSIP_MESSAGE = PStr [CHR 0x00]"
definition GOSSIP_SEARCH_REQ :: pyval where "GOSSIP_SEARCH_REQ = PStr [CHR 0x01]"
definition GOSSIP_SEARCH_REPLY :: pyval where "GOSSIP_SEARCH_REPLY = PStr [CHR 0x02]"

fun hashable :: "pyval \<Rightarrow> bool" where
  "hashable (PList xs) = False"
| "hashable (PDict kvs) = False"
| "hashable (PTuple xs) = list_all hashable xs"
| "hashable v = True"

section \<open>RequestsTransport\<close>

record requests_transport =
  tr_class_trigger :: bytes
  tr_trigger :: "bytes option"

text \<open>\<open>self.trigger = self._trigger or _event_trigger_header\<close>.\<close>

definition RequestsTransport :: "bytes \<Rightarrow> bytes option \<Rightarrow> requests_transport" where
  "RequestsTransport class_trigger header =
     \<lparr>tr_class_trigger = class_trigger,
      tr_trigger = (if class_trigger \<noteq> [] then Some class_trigger else header)\<rparr>"

text \<open>\<open>sendto\<close> prepends the class attribute \<open>_trigger\<close>, not the attribute \<open>trigger\<close>.\<close>

definition transport_sendto :: "requests_transport \<Rightarrow> bytes \<Rightarrow> bytes res" where
  "transport_sendto t data = (case pack_I (length data) of
     Inl e \<Rightarrow> Inl e
   | Inr data_size \<Rightarrow> Inr (tr_class_trigger t @ data_size @ data))"

definition KademliaTransport :: requests_transport where
  "KademliaTransport = RequestsTransport KADEMLIA None"

definition DiscoveryTransport :: requests_transport where
  "DiscoveryTransport = RequestsTransport DISCOVERY None"

definition GossipTransport :: requests_transport where
  "GossipTransport = RequestsTransport GOSSIP None"

definition kademlia_sendto :: "(pyval \<Rightarrow> bytes res) \<Rightarrow> bytes \<Rightarrow> bytes res" where
  "kademlia_sendto dumps data =
     res_bind (WireData_bytes dumps (WireData PNone PNone PNone WIRE_VERSION [(''data'', PBytes data)]))
       (transport_sendto KademliaTransport)"

lemma transport_sendto_frame:
  "transport_sendto t data =
     (if frameable data then Inr (tr_class_trigger t @ frame data) else Inl StructError)"
  by (simp add: transport_sendto_def frame_def frameable_def struct_pack_def)

text \<open>The header passed to the constructor never reaches the wire.\<close>

lemma event_trigger_header_ignored:
  "transport_sendto (RequestsTransport [] (Some h)) data = transport_sendto (RequestsTransport [] None) data"
  by (simp add: transport_sendto_frame RequestsTransport_def)

section \<open>The requests endpoint\<close>

record request_event =
  ev_root_code :: bytes
  ev_request :: wire_data
  ev_from_addr :: addr

text \<open>
  \<open>datagram_received\<close>: the event handed to the dispatcher, \<open>Inr None\<close> for a packet that is dropped.
\<close>

definition datagram_received :: "(bytes \<Rightarrow> pyval res) \<Rightarrow> bytes \<Rightarrow> addr \<Rightarrow> request_event option res" where
  "datagram_received loads actual_data from_addr =
     (case unpack_datagram loads (drop 1 actual_data) of
        Inl e \<Rightarrow> if e = InvalidPacket then Inr None else Inl e
      | Inr w \<Rightarrow> Inr (Some \<lparr>ev_root_code = take 1 actual_data, ev_request = w, ev_from_addr = from_addr\<rparr>))"

lemma transport_event:
  assumes "packs dumps loads (wire_attributes w)" and "kwargs_ok w" and "length trigger = 1"
    and "WireData_bytes dumps w = Inr raw"
    and "transport_sendto (RequestsTransport trigger None) raw = Inr dgram"
  shows "datagram_received loads dgram a =
      Inr (Some \<lparr>ev_root_code = trigger, ev_request = norm_wire w, ev_from_addr = a\<rparr>)"
proof -
  have fr: "frameable raw" and dg: "dgram = trigger @ frame raw"
    using assms(5) by (auto simp: transport_sendto_frame RequestsTransport_def split: if_splits)
  have "loads raw = Inr (msgpack_norm (wire_attributes w))"
    using assms(1,4) by (auto simp: packs_def WireData_bytes_def)
  then have "unpack_datagram loads (frame raw) = Inr (norm_wire w)"
    using fr WireData_load_from_attributes[OF assms(2)] by (simp add: unpack_datagram_def)
  then show ?thesis using assms(3) by (simp add: datagram_received_def dg)
qed

text \<open>
  A \<open>WireData\<close> sent through a transport with a one-byte code arrives at the other endpoint as
  one event with that code and the same message; and no byte string makes the endpoint raise.
\<close>

theorem endpoint_delivers:
  assumes "packs dumps loads (wire_attributes w)" and "kwargs_ok w" and "length trigger = 1"
    and "WireData_bytes dumps w = Inr raw"
    and "transport_sendto (RequestsTransport trigger None) raw = Inr dgram"
    and "loads_documented loads"
  shows "datagram_received loads dgram a =
      Inr (Some \<lparr>ev_root_code = trigger, ev_request = norm_wire w, ev_from_addr = a\<rparr>) \<and>
    (\<forall>junk. \<exists>r. datagram_received loads junk a = Inr r)"
proof -
  have "\<exists>r. datagram_received loads junk a = Inr r" for junk
    using unpack_datagram_total[OF assms(6), of "drop 1 junk"] by (auto simp: datagram_received_def)
  then show ?thesis using transport_event[OF assms(1-5)] by blast
qed

theorem endpoint_delivers_witness:
  "datagram_received (\<lambda>b. Inr (PList [PStr ''h'', PInt 7, PFloat 1, PDict [], PNone])) [2, 0, 0, 0, 1, 42] (''::1'', 3)
     = Inr (Some \<lparr>ev_root_code = [2],
         ev_request = \<lparr>w_header = PStr ''h'', w_id = PInt 7, w_version = PFloat 1, w_body = [],
           w_peer_id = PNone\<rparr>,
         ev_from_addr = (''::1'', 3)\<rparr>)"
proof -
  let ?w = "WireData (PStr ''h'') (PInt 7) PNone (PFloat 1) []"
  let ?loads = "\<lambda>b. Inr (PList [PStr ''h'', PInt 7, PFloat 1, PDict [], PNone]) :: pyval res"
  have "datagram_received ?loads [2, 0, 0, 0, 1, 42] (''::1'', 3) =
      Inr (Some \<lparr>ev_root_code = [2], ev_request = norm_wire ?w, ev_from_addr = (''::1'', 3)\<rparr>)"
    by (rule endpoint_delivers[where dumps = "\<lambda>v. Inr [42]" and raw = "[42]", THEN conjunct1])
      (simp_all add: packs_def wire_attributes_def WireData_def kwargs_ok_def WireData_bytes_def
        transport_sendto_def RequestsTransport_def struct_pack_def be_encode_eval loads_documented_def)
  then show ?thesis
    by (simp add: norm_wire_def WireData_def)
qed


section \<open>QueueMixIn\<close>

text \<open>
  A dispatcher with \<open>QueueMixIn\<close> runs each event as a task of its own \<open>asyncio.TaskGroup\<close>. The
  group takes no more tasks (\<open>RuntimeError\<close>) once one of its tasks has failed with an exception
  other than \<open>CancelledError\<close>, as long as the task that entered the group is still running
  (\<open>tg_parent_running\<close>); after the end of that task failures are only reported.
\<close>

record task_group =
  tg_aborting :: bool
  tg_parent_running :: bool

definition task_done :: "unit res \<Rightarrow> task_group \<Rightarrow> task_group" where
  "task_done r g = (case r of
     Inr _ \<Rightarrow> g
   | Inl e \<Rightarrow> if e = CancelledError \<or> \<not> tg_parent_running g then g else g\<lparr>tg_aborting := True\<rparr>)"

text \<open>\<open>QueueMixIn.__call__\<close>, with the task run to its end.\<close>

definition queue_call ::
    "('e \<Rightarrow> 's \<Rightarrow> unit res \<times> 's) \<Rightarrow> 'e \<Rightarrow> task_group \<times> 's \<Rightarrow> unit res \<times> task_group \<times> 's" where
  "queue_call submit event st =
     (if tg_aborting (fst st) then (Inl RuntimeError, st)
      else (case submit event (snd st) of (r, s) \<Rightarrow> (r, task_done r (fst st), s)))"

section \<open>RequestsDispatcher\<close>

record 's requests_dispatcher =
  rd_replies :: "(pyval, wire_data) registry"
  rd_world :: 's

text \<open>\<open>msg_arrived\<close> with the hashing of the id written out.\<close>

definition msg_arrived_hash :: "wire_data \<Rightarrow> (pyval, wire_data) registry \<Rightarrow> (pyval, wire_data) registry res" where
  "msg_arrived_hash m r = (if hashable (w_id m) then Inr (msg_arrived w_id m r) else Inl TypeError)"

text \<open>
  \<open>submit\<close>: complete a waiting reply, look the code up, run the handler. An \<open>Exception\<close> of the
  handler is logged and dropped; \<open>CancelledError\<close> is not an \<open>Exception\<close>.
\<close>

definition RequestsDispatcher_submit ::
    "(bytes, request_event \<Rightarrow> 's \<Rightarrow> unit res \<times> 's) pydict \<Rightarrow> request_event \<Rightarrow>
     's requests_dispatcher \<Rightarrow> unit res \<times> 's requests_dispatcher" where
  "RequestsDispatcher_submit registry ev d =
     (case msg_arrived_hash (ev_request ev) (rd_replies d) of
        Inl e \<Rightarrow> (Inl e, d)
      | Inr rs \<Rightarrow>
          (let d1 = d\<lparr>rd_replies := rs\<rparr>
           in case dget registry (ev_root_code ev) of
                None \<Rightarrow> (Inr (), d1)
              | Some handler \<Rightarrow>
                  (case handler ev (rd_world d) of
                     (r, w) \<Rightarrow> (if r = Inl CancelledError then r else Inr (), d1\<lparr>rd_world := w\<rparr>))))"

text \<open>A whole datagram: the endpoint's callback, then the queued task.\<close>

definition on_datagram ::
    "(bytes \<Rightarrow> pyval res) \<Rightarrow> (bytes, request_event \<Rightarrow> 's \<Rightarrow> unit res \<times> 's) pydict \<Rightarrow> bytes \<times> addr \<Rightarrow>
     task_group \<times> 's requests_dispatcher \<Rightarrow> task_group \<times> 's requests_dispatcher" where
  "on_datagram loads registry d st =
     (case datagram_received loads (fst d) (snd d) of
        Inr (Some ev) \<Rightarrow> snd (queue_call (RequestsDispatcher_submit registry) ev st)
      | _ \<Rightarrow> st)"

definition id_hashable :: "(bytes \<Rightarrow> pyval res) \<Rightarrow> bytes \<Rightarrow> bool" where
  "id_hashable loads d = (case unpack_datagram loads (drop 1 d) of
     Inl _ \<Rightarrow> True | Inr w \<Rightarrow> hashable (w_id w))"

lemma submit_ok:
  "hashable (w_id (ev_request ev)) \<Longrightarrow>
     fst (RequestsDispatcher_submit registry ev d) \<in> {Inr (), Inl CancelledError}"
  by (auto simp: RequestsDispatcher_submit_def msg_arrived_hash_def Let_def split: option.split prod.split)

lemma on_datagram_alive:
  assumes "\<not> tg_parent_running (fst st) \<or> id_hashable loads (fst d)" "\<not> tg_aborting (fst st)"
  shows "\<not> tg_aborting (fst (on_datagram loads registry d st)) \<and>
    tg_parent_running (fst (on_datagram loads registry d st)) = tg_parent_running (fst st)"
proof (cases "unpack_datagram loads (drop 1 (fst d))")
  case (Inl e)
  then show ?thesis using assms(2) by (auto simp: on_datagram_def datagram_received_def)
next
  case (Inr w)
  let ?ev = "\<lparr>ev_root_code = take 1 (fst d), ev_request = w, ev_from_addr = snd d\<rparr>"
  let ?r = "fst (RequestsDispatcher_submit registry ?ev (snd st))"
  have "fst (on_datagram loads registry d st) = task_done ?r (fst st)"
    using assms(2) Inr by (simp add: on_datagram_def datagram_received_def queue_call_def split: prod.split)
  moreover have "?r \<in> {Inr (), Inl CancelledError}" if "tg_parent_running (fst st)"
    using submit_ok[of ?ev registry "snd st"] assms(1) that Inr by (simp add: id_hashable_def)
  ultimately show ?thesis
    using assms(2) by (auto simp: task_done_def split: sum.split)
qed

text \<open>
  C16. The requests dispatcher outlives any sequence of datagrams, whatever bytes they are and
  whatever its handlers raise: its task group keeps accepting events. While the task that started
  the endpoint is still running this needs hashable message ids, since the lookup of another id in
  the reply registry raises \<open>TypeError\<close> outside of the \<open>try\<close>.
\<close>

theorem requests_dispatcher_survives:
  assumes "\<not> tg_aborting (fst st)"
    and "\<not> tg_parent_running (fst st) \<or> list_all (\<lambda>d. id_hashable loads (fst d)) ds"
  shows "\<not> tg_aborting (fst (fold (on_datagram loads registry) ds st))"
  using assms
proof (induction ds arbitrary: st)
  case (Cons d ds)
  have "\<not> tg_parent_running (fst st) \<or> id_hashable loads (fst d)"
    using Cons.prems(2) by auto
  from on_datagram_alive[OF this Cons.prems(1), of registry] Cons show ?case
    by simp
qed simp

theorem requests_dispatcher_survives_witness:
  "\<not> tg_aborting (fst (fold (on_datagram (\<lambda>b. Inr (PList [PNone, PInt 7, PNone, PDict [], PNone]))
      [([2], \<lambda>ev s. (Inl KeyError, s))]) [([2, 0, 0, 0, 1, 42], (''::1'', 3)), ([9], (''::1'', 3))]
      (\<lparr>tg_aborting = False, tg_parent_running = True\<rparr>, \<lparr>rd_replies = empty_registry, rd_world = ()\<rparr>)))"
  by (rule requests_dispatcher_survives)
    (simp_all add: id_hashable_def unpack_datagram_def load_datagram_def struct_unpack_def
      WireData_load_from_def kwargs_of_def WireData_def)


section \<open>Discovery\<close>

definition DISCOVER_RETRIES :: int where "DISCOVER_RETRIES = 2"
definition DISCOVER_TIMEOUT :: rat where "DISCOVER_TIMEOUT = 3"

text \<open>\<open>v[0]\<close> on a received value, and \<open>tuple(v)\<close>.\<close>

fun py_first :: "pyval \<Rightarrow> pyval res" where
  "py_first (PList (x # xs)) = Inr x"
| "py_first (PTuple (x # xs)) = Inr x"
| "py_first (PStr (c # cs)) = Inr (PStr [c])"
| "py_first (PBytes (b # bs)) = Inr (PInt (uint b))"
| "py_first (PList []) = Inl IndexError"
| "py_first (PTuple []) = Inl IndexError"
| "py_first (PStr []) = Inl IndexError"
| "py_first (PBytes []) = Inl IndexError"
| "py_first (PDict kvs) = dindex kvs (PInt 0)"
| "py_first v = Inl TypeError"

definition py_tuple :: "pyval \<Rightarrow> pyval list res" where
  "py_tuple v = (case py_iter v of None \<Rightarrow> Inl TypeError | Some xs \<Rightarrow> Inr xs)"

text \<open>
  The reply handler: the address it bootstraps Kademlia with, \<open>Inr None\<close> when the packet is this
  machine's own.
\<close>

definition DiscoveryReplyHandler :: "string \<Rightarrow> request_event \<Rightarrow> pyval list option res" where
  "DiscoveryReplyHandler this_ip ev =
     (if fst (ev_from_addr ev) = this_ip then Inr None
      else map_sum id Some (res_bind (WireData_getitem (ev_request ev) ''connect_uri'') py_tuple))"

definition discovery_reply :: "remote_peer \<Rightarrow> wire_data" where
  "discovery_reply me = WireData (PBytes NETWORK_FIND_REPLY) (PStr (peer_id me)) PNone WIRE_VERSION
     [(''connect_uri'', PTuple [PStr (fst (req_uri me)), snd (req_uri me)])]"

text \<open>The request handler: the datagram it sends and where to, \<open>Inr None\<close> for its own echo.\<close>

definition DiscoveryRequestHandler ::
    "(pyval \<Rightarrow> bytes res) \<Rightarrow> string \<Rightarrow> remote_peer \<Rightarrow> request_event \<Rightarrow> (bytes \<times> pyval list) option res" where
  "DiscoveryRequestHandler dumps this_ip me ev =
     res_bind (WireData_getitem (ev_request ev) ''reply_addr'') (\<lambda>reply_addr.
     res_bind (py_first reply_addr) (\<lambda>host.
       if host = PStr this_ip then Inr None
       else res_bind (WireData_bytes dumps (discovery_reply me)) (\<lambda>payload.
            res_bind (py_tuple reply_addr) (\<lambda>to.
            res_bind (transport_sendto DiscoveryTransport payload) (\<lambda>dgram.
              Inr (Some (dgram, to)))))))"

definition discovery_request :: "remote_peer \<Rightarrow> wire_data" where
  "discovery_request me = WireData (PBytes NETWORK_FIND) (PStr (peer_id me)) PNone WIRE_VERSION
     [(''reply_addr'', PTuple [PStr (fst (req_uri me)), snd (req_uri me)])]"

text \<open>
  \<open>DiscoveryDispatcher.submit\<close>: the header selects the handler; \<open>RuntimeError\<close> (a task group that
  has been left) is dropped, everything else leaves the task.
\<close>

definition DiscoveryDispatcher_submit ::
    "(pyval, request_event \<Rightarrow> 's \<Rightarrow> unit res \<times> 's) pydict \<Rightarrow> request_event \<Rightarrow>
     's requests_dispatcher \<Rightarrow> unit res \<times> 's requests_dispatcher" where
  "DiscoveryDispatcher_submit registry ev d =
     (case msg_arrived_hash (ev_request ev) (rd_replies d) of
        Inl e \<Rightarrow> (Inl e, d)
      | Inr rs \<Rightarrow>
          (let d1 = d\<lparr>rd_replies := rs\<rparr>; header = w_header (ev_request ev)
           in if \<not> hashable header then (Inl TypeError, d1)
              else case dget registry header of
                None \<Rightarrow> (Inl KeyError, d1)
              | Some handler \<Rightarrow>
                  (case handler ev (rd_world d) of
                     (r, w) \<Rightarrow> (if r = Inl RuntimeError then Inr () else r, d1\<lparr>rd_world := w\<rparr>))))"

text \<open>
  \<open>send_discovery_packet\<close>: at most \<open>DISCOVER_RETRIES\<close> rounds, each sends and then stops if the
  server is bootstrapped; \<open>boot i\<close> is what it sees after the \<open>i\<close>-th send. The result is the number
  of packets sent.
\<close>

fun discovery_rounds :: "(nat \<Rightarrow> bool) \<Rightarrow> nat \<Rightarrow> nat \<Rightarrow> nat" where
  "discovery_rounds boot i 0 = i"
| "discovery_rounds boot i (Suc n) = (if boot i then Suc i else discovery_rounds boot (Suc i) n)"

definition send_discovery_packet :: "(nat \<Rightarrow> bool) \<Rightarrow> nat" where
  "send_discovery_packet boot = discovery_rounds boot 0 (nat DISCOVER_RETRIES)"

text \<open>
  \<open>enter_passive_mode\<close>, round by round: \<open>obs i\<close> is the pair (server bootstrapped, program
  finalizing) seen in round \<open>i\<close>.
\<close>

datatype passive_action = PContinue | PReturn | PSend

definition passive_round :: "bool \<times> bool \<Rightarrow> passive_action" where
  "passive_round ob = (if fst ob then PContinue else if snd ob then PReturn else PSend)"

fun passive_mode :: "(nat \<Rightarrow> bool \<times> bool) \<Rightarrow> nat \<Rightarrow> passive_action list" where
  "passive_mode obs 0 = []"
| "passive_mode obs (Suc n) =
     (if PReturn \<in> set (passive_mode obs n) then passive_mode obs n
      else passive_mode obs n @ [passive_round (obs n)])"

lemma discovery_rounds_bounds: "i \<le> discovery_rounds boot i n \<and> discovery_rounds boot i n \<le> i + n"
  by (induction n arbitrary: i) (auto, (metis Suc_leD add_Suc)+)

lemma discovery_handshake:
  assumes "packs dumps loads (wire_attributes (discovery_request me))"
    and "fst (req_uri me) \<noteq> this_ip" "ev_request ev = norm_wire (discovery_request me)"
    and "flat_val (snd (req_uri me))"
    and "transport_sendto DiscoveryTransport raw = Inr dgram"
    and "WireData_bytes dumps (discovery_reply you) = Inr raw"
  shows "DiscoveryRequestHandler dumps this_ip you ev =
    Inr (Some (dgram, [PStr (fst (req_uri me)), snd (req_uri me)]))"
  using assms
  by (simp add: DiscoveryRequestHandler_def discovery_request_def WireData_def norm_wire_def
      WireData_getitem_def dindex_def py_tuple_def flat_val_def)

lemma passive_bootstrapped:
  assumes "\<And>i. fst (obs i)"
  shows "passive_mode obs n = replicate n PContinue"
proof (induction n)
  case (Suc n)
  then show ?case
    using assms by (simp add: passive_round_def replicate_append_same)
qed simp

text \<open>
  In passive mode discovery ends when the program is finalizing, but only while the server is
  not bootstrapped: as long as it is, the loop goes on for ever and sends nothing, whether the
  program is finalizing or not, and the initial exchange sends one or two packets.
\<close>

theorem passive_mode_termination:
  assumes "\<And>i. i \<ge> k \<Longrightarrow> snd (obs i)"
  shows "(\<not> fst (obs k) \<longrightarrow> PReturn \<in> set (passive_mode obs (Suc k))) \<and>
    ((\<forall>i. fst (obs i)) \<longrightarrow> PReturn \<notin> set (passive_mode obs n)) \<and>
    send_discovery_packet boot \<in> {1, 2}"
proof (intro conjI impI)
  show "PReturn \<in> set (passive_mode obs (Suc k))" if "\<not> fst (obs k)"
    using that assms[of k] by (auto simp: passive_round_def)
  show "PReturn \<notin> set (passive_mode obs n)" if "\<forall>i. fst (obs i)"
    using passive_bootstrapped[of obs n] that by simp
  show "send_discovery_packet boot \<in> {1, 2}"
    by (simp add: send_discovery_packet_def DISCOVER_RETRIES_def numeral_2_eq_2)
qed

theorem passive_mode_termination_witness:
  "PReturn \<notin> set (passive_mode (\<lambda>i. (True, True)) 1000) \<and>
   PReturn \<in> set (passive_mode (\<lambda>i. (False, True)) 1)"
  using passive_mode_termination[of 0 "\<lambda>i. (True, True)" 1000, THEN conjunct2, THEN conjunct1]
    passive_mode_termination[of 0 "\<lambda>i. (False, True)", THEN conjunct1]
  by simp

end
