(* ===== verification/Gossip.thy ===== *)
theory Gossip
  imports Dispatch
begin

text \<open>
  Rumor mongering: \<open>src/transfers/rumor.py\<close>, \<open>src/core/gossip.py\<close> and the gossip search of
  \<open>src/core/peers.py\<close>.

  The clock, the random numbers and the iteration order of a set are arguments: \<open>rnd i\<close> is what
  \<open>random.randint(0, i)\<close> returns, a number between 0 and \<open>i\<close>. Times are exact rationals.
\<close>

section \<open>SimpleRumorMessageList\<close>

definition NODE_POV_GOSSIP_TTL :: rat where "NODE_POV_GOSSIP_TTL = 3"
definition GLOBAL_TTL_FOR_GOSSIP :: rat where "GLOBAL_TTL_FOR_GOSSIP = 6"

record message_list =
  ml_messages :: "(pyval, rumor_item) pydict"
  ml_ttl :: rat
  ml_dropped :: "pyval list"

definition SimpleRumorMessageList :: "rat \<Rightarrow> message_list" where
  "SimpleRumorMessageList ttl = \<lparr>ml_messages = [], ml_ttl = ttl, ml_dropped = []\<rparr>"

definition is_old_enough :: "rat \<Rightarrow> rat \<Rightarrow> bool" where
  "is_old_enough current_time time_in \<longleftrightarrow> current_time - time_in > NODE_POV_GOSSIP_TTL"

definition disseminate :: "rat \<Rightarrow> message_list \<Rightarrow> message_list" where
  "disseminate now ml =
     fold (\<lambda>(i, item) l. if is_old_enough now (ri_time_in item)
              then l\<lparr>ml_messages := ddel i (ml_messages l), ml_dropped := List.insert i (ml_dropped l)\<rparr>
              else l)
       (ml_messages ml) ml"

definition push :: "rat \<Rightarrow> wire_data \<Rightarrow> message_list \<Rightarrow> message_list res" where
  "push now message ml =
     (if hashable (w_id message)
      then Inr (ml\<lparr>ml_messages := dset (w_id message)
             \<lparr>ri_message_id = w_id message, ri_time_in = now, ri_creation_time = gossip_created message,
              ri_peer_list = {}\<rparr> (ml_messages ml)\<rparr>)
      else Inl TypeError)"

definition remove_message :: "pyval \<Rightarrow> message_list \<Rightarrow> message_list res" where
  "remove_message i ml = (if dmem i (ml_messages ml)
     then Inr (ml\<lparr>ml_messages := ddel i (ml_messages ml), ml_dropped := List.insert i (ml_dropped ml)\<rparr>)
     else Inl KeyError)"

text \<open>Reservoir sampling over the peers that have not been sent the message.\<close>

definition reservoir_step :: "nat \<Rightarrow> (nat \<Rightarrow> nat) \<Rightarrow> nat \<Rightarrow> 'p \<Rightarrow> 'p list \<Rightarrow> 'p list" where
  "reservoir_step sample_size rnd i x reservoir =
     (if i < sample_size then reservoir @ [x]
      else if rnd i < sample_size then reservoir[rnd i := x] else reservoir)"

fun reservoir_loop :: "nat \<Rightarrow> (nat \<Rightarrow> nat) \<Rightarrow> nat \<Rightarrow> 'p list \<Rightarrow> 'p list \<Rightarrow> 'p list" where
  "reservoir_loop sample_size rnd i [] reservoir = reservoir"
| "reservoir_loop sample_size rnd i (x # xs) reservoir =
     reservoir_loop sample_size rnd (Suc i) xs (reservoir_step sample_size rnd i x reservoir)"

definition sample_peers ::
    "(nat \<Rightarrow> nat) \<Rightarrow> string list \<Rightarrow> pyval \<Rightarrow> nat \<Rightarrow> message_list \<Rightarrow> (string list \<times> message_list) res" where
  "sample_peers rnd list_of_peers i sample_size ml =
     (case dindex (ml_messages ml) i of
        Inl e \<Rightarrow> Inl e
      | Inr m \<Rightarrow>
          (let reservoir = reservoir_loop sample_size rnd 0
                 (filter (\<lambda>p. p \<notin> ri_peer_list m) list_of_peers) [];
               m' = m\<lparr>ri_peer_list := ri_peer_list m \<union> set reservoir\<rparr>
           in Inr (reservoir, ml\<lparr>ml_messages := dset i m' (ml_messages ml)\<rparr>)))"

subsection \<open>The sample is the right kind of list\<close>

lemma reservoir_loop_append:
  "reservoir_loop k rnd i (xs @ ys) r =
     reservoir_loop k rnd (i + length xs) ys (reservoir_loop k rnd i xs r)"
  by (induction xs arbitrary: i r) auto

lemma reservoir_loop_snoc:
  "reservoir_loop k rnd 0 (xs @ [x]) r = reservoir_step k rnd (length xs) x (reservoir_loop k rnd 0 xs r)"
  by (simp add: reservoir_loop_append)

lemma distinct_list_update_new: "distinct xs \<Longrightarrow> x \<notin> set xs \<Longrightarrow> distinct (xs[i := x])"
  by (cases "i < length xs") (auto intro: distinct_list_update)

lemma reservoir_loop_props:
  assumes "distinct xs"
  shows "length (reservoir_loop k rnd 0 xs []) = min k (length xs) \<and>
    distinct (reservoir_loop k rnd 0 xs []) \<and> set (reservoir_loop k rnd 0 xs []) \<subseteq> set xs"
  using assms
proof (induction xs rule: rev_induct)
  case (snoc x xs)
  let ?r = "reservoir_loop k rnd 0 xs []"
  have ih: "length ?r = min k (length xs)" "distinct ?r" "set ?r \<subseteq> set xs" "x \<notin> set ?r"
    using snoc by auto
  have upd: "set (?r[j := x]) \<subseteq> insert x (set xs)" for j
    using ih(3) set_update_subset_insert by fastforce
  show ?case
    using ih upd distinct_list_update_new[OF ih(2,4)]
    by (auto simp: reservoir_loop_snoc reservoir_step_def)
qed simp


subsection \<open>The sample is uniform\<close>

text \<open>
  The possible outcomes of \<open>randint(0, 0), ..., randint(0, n - 1)\<close>; the draws below the sample size
  are not used by the loop and only multiply the number of outcomes.
\<close>

definition draws :: "nat \<Rightarrow> nat list set" where
  "draws n = {js. length js = n \<and> (\<forall>i<n. js ! i \<le> i)}"

definition sampled :: "nat \<Rightarrow> 'p list \<Rightarrow> 'p \<Rightarrow> nat list set" where
  "sampled k xs x = {js \<in> draws (length xs). x \<in> set (reservoir_loop k ((!) js) 0 xs [])}"

lemma draws_0: "draws 0 = {[]}"
  by (auto simp: draws_def)

lemma draws_Suc: "draws (Suc n) = (\<lambda>(js, j). js @ [j]) ` (draws n \<times> {..n})"
proof (intro equalityI subsetI)
  fix js assume js: "js \<in> draws (Suc n)"
  then have "js = butlast js @ [last js]"
    by (intro append_butlast_last_id[symmetric]) (auto simp: draws_def)
  moreover have "last js = js ! n"
    using js last_conv_nth[of js] by (force simp: draws_def)
  then have "butlast js \<in> draws n" "last js \<in> {..n}"
    using js by (auto simp: draws_def nth_butlast)
  ultimately show "js \<in> (\<lambda>(js, j). js @ [j]) ` (draws n \<times> {..n})"
    by (metis (mono_tags, lifting) SigmaI case_prod_conv image_eqI)
qed (auto simp: draws_def nth_append less_Suc_eq)

lemma inj_snoc: "inj_on (\<lambda>(js, j). js @ [j]) A"
  by (auto simp: inj_on_def)

lemma finite_draws [simp]: "finite (draws n)"
  by (induction n) (simp_all add: draws_0 draws_Suc)

lemma card_draws: "card (draws n) = fact n"
  by (induction n) (simp_all add: draws_0 draws_Suc card_image[OF inj_snoc] card_cartesian_product)

lemma reservoir_loop_cong:
  "(\<And>j. j < i + length xs \<Longrightarrow> f j = g j) \<Longrightarrow> reservoir_loop k f i xs r = reservoir_loop k g i xs r"
  by (induction xs arbitrary: i r) (simp_all add: reservoir_step_def)

lemma reservoir_loop_short: "length xs \<le> k \<Longrightarrow> reservoir_loop k rnd 0 xs [] = xs"
  by (induction xs rule: rev_induct) (simp_all add: reservoir_loop_snoc reservoir_step_def)

lemma reservoir_snoc_draw:
  assumes "js \<in> draws (length ys)"
  shows "reservoir_loop k ((!) (js @ [j])) 0 (ys @ [y]) [] =
    reservoir_step k (\<lambda>_. j) (length ys) y (reservoir_loop k ((!) js) 0 ys [])"
proof -
  have len: "length js = length ys"
    using assms by (simp add: draws_def)
  have "reservoir_loop k ((!) (js @ [j])) 0 ys [] = reservoir_loop k ((!) js) 0 ys []"
    by (rule reservoir_loop_cong) (simp add: len nth_append)
  then show ?thesis
    using len by (simp add: reservoir_loop_snoc reservoir_step_def nth_append)
qed

lemma set_list_update_member:
  assumes "distinct r" "p < length r" "j < length r" "y \<noteq> r ! p"
  shows "r ! p \<in> set (r[j := y]) \<longleftrightarrow> j \<noteq> p"
  using assms by (auto simp: in_set_conv_nth nth_list_update nth_eq_iff_index_eq)

lemma card_sampled_new:
  assumes "distinct (ys @ [y])" "k \<le> length ys"
  shows "card (sampled k (ys @ [y]) y) = card (draws (length ys)) * k"
proof -
  have "sampled k (ys @ [y]) y = (\<lambda>(js, j). js @ [j]) ` (draws (length ys) \<times> {..<k})"
  proof -
    have "y \<in> set (reservoir_loop k ((!) (js @ [j])) 0 (ys @ [y]) []) \<longleftrightarrow> j < k"
      if js: "js \<in> draws (length ys)" for js j
    proof -
      let ?r = "reservoir_loop k ((!) js) 0 ys []"
      have "length ?r = k" "y \<notin> set ?r"
        using reservoir_loop_props[of ys k "(!) js"] assms by auto
      then show ?thesis
        using reservoir_snoc_draw[OF js, of k j y] assms(2)
        by (auto simp: reservoir_step_def set_update_memI)
    qed
    then show ?thesis
      using assms(2) by (auto simp: sampled_def draws_Suc image_iff)
  qed
  then show ?thesis
    by (simp add: card_image[OF inj_snoc] card_cartesian_product)
qed

lemma card_sampled_old:
  assumes "distinct (ys @ [y])" "k \<le> length ys" "x \<in> set ys"
  shows "card (sampled k (ys @ [y]) x) = card (sampled k ys x) * length ys"
proof -
  define n where "n = length ys"
  define free where "free js = {j. j \<le> n \<and> x \<in> set (reservoir_loop k ((!) (js @ [j])) 0 (ys @ [y]) [])}" for js
  have split: "sampled k (ys @ [y]) x = (\<lambda>(js, j). js @ [j]) ` (SIGMA js:draws n. free js)"
    by (auto simp: sampled_def draws_Suc free_def n_def image_iff)
  have "card (free js) = (if js \<in> sampled k ys x then n else 0)" if js: "js \<in> draws n" for js
  proof -
    let ?r = "reservoir_loop k ((!) js) 0 ys []"
    have r: "length ?r = k" "distinct ?r" "y \<notin> set ?r"
      using reservoir_loop_props[of ys k "(!) js"] assms by auto
    have fr: "free js = {j. j \<le> n \<and> x \<in> set (if j < k then ?r[j := y] else ?r)}"
      using reservoir_snoc_draw[of js ys k _ y] js assms(2)
      by (simp add: free_def n_def reservoir_step_def)
    show ?thesis
    proof (cases "x \<in> set ?r")
      case True
      then obtain p where p: "p < k" "?r ! p = x"
        using r(1) by (metis in_set_conv_nth)
      have "x \<noteq> y" using True r(3) by blast
      then have "free js = {..n} - {p}"
        unfolding fr using p r set_list_update_member[OF r(2), of p _ y] True by auto
      moreover have "js \<in> sampled k ys x"
        using True js by (simp add: sampled_def n_def)
      ultimately show ?thesis
        using p(1) assms(2) by (simp add: n_def)
    next
      case False
      moreover have "x \<noteq> y" using assms by auto
      ultimately have "x \<notin> set (?r[j := y])" for j
        using set_update_subset_insert by fastforce
      then have "free js = {}"
        unfolding fr using False by auto
      then show ?thesis using False by (simp add: sampled_def)
    qed
  qed
  then have "card (SIGMA js:draws n. free js) = (\<Sum>js\<in>draws n. if js \<in> sampled k ys x then n else 0)"
    by (subst card_SigmaI) (auto simp: free_def)
  also have "\<dots> = card (sampled k ys x) * n"
    by (subst sum.inter_filter[symmetric]) (auto simp: sampled_def n_def intro: arg_cong[where f = card])
  finally show ?thesis
    unfolding split by (simp add: card_image[OF inj_snoc] n_def)
qed

lemma sampled_uniform:
  assumes "distinct xs" "k \<le> length xs" "x \<in> set xs"
  shows "card (sampled k xs x) * length xs = k * card (draws (length xs))"
  using assms
proof (induction xs arbitrary: x rule: rev_induct)
  case (snoc y ys)
  show ?case
  proof (cases "k \<le> length ys")
    case False
    then have "sampled k (ys @ [y]) x = draws (length (ys @ [y]))"
      using snoc.prems reservoir_loop_short[of "ys @ [y]" k] by (auto simp: sampled_def)
    moreover have "k = length (ys @ [y])" using False snoc.prems(2) by simp
    ultimately show ?thesis by simp
  next
    case True
    have d: "card (draws (length (ys @ [y]))) = Suc (length ys) * card (draws (length ys))"
      by (simp add: card_draws)
    show ?thesis
    proof (cases "x = y")
      case True
      then show ?thesis
        unfolding d using card_sampled_new[OF snoc.prems(1) \<open>k \<le> length ys\<close>]
        by (simp add: algebra_simps)
    next
      case False
      then have x: "x \<in> set ys" using snoc.prems(3) by simp
      then have "card (sampled k ys x) * length ys = k * card (draws (length ys))"
        using snoc.IH snoc.prems(1) True by simp
      then show ?thesis
        unfolding d card_sampled_old[OF snoc.prems(1) True x] by (simp add: algebra_simps)
    qed
  qed
qed simp


text \<open>
  C15. Gossip targets are drawn fairly: the sample of a message's next receivers has
  \<open>min sample_size n\<close> distinct members, all among the \<open>n\<close> known peers that have not been sent it,
  and when more peers than that are left every one of them is in the sample in the same share
  \<open>sample_size / n\<close> of the outcomes of the random draws.
\<close>

theorem sample_peers_uniform:
  assumes "dget (ml_messages ml) i = Some m" and "distinct list_of_peers"
    and "candidates = filter (\<lambda>p. p \<notin> ri_peer_list m) list_of_peers"
  shows "(\<forall>rnd. \<exists>reservoir ml'. sample_peers rnd list_of_peers i sample_size ml = Inr (reservoir, ml') \<and>
        length reservoir = min sample_size (length candidates) \<and> distinct reservoir \<and>
        set reservoir \<subseteq> set candidates) \<and>
    (sample_size \<le> length candidates \<longrightarrow> (\<forall>p\<in>set candidates.
        card {js \<in> draws (length candidates).
                p \<in> set (fst (projr (sample_peers ((!) js) list_of_peers i sample_size ml)))} *
          length candidates = sample_size * card (draws (length candidates))))"
proof -
  have idx: "dindex (ml_messages ml) i = Inr m"
    using assms(1) by simp
  have res: "\<exists>ml'. sample_peers rnd list_of_peers i sample_size ml =
      Inr (reservoir_loop sample_size rnd 0 candidates [], ml')" for rnd
    unfolding sample_peers_def idx assms(3) by (simp add: Let_def)
  have fstr: "fst (projr (sample_peers rnd list_of_peers i sample_size ml)) =
      reservoir_loop sample_size rnd 0 candidates []" for rnd
    using res[of rnd] by auto
  have dist: "distinct candidates"
    using assms(2,3) by simp
  show ?thesis
    unfolding fstr sampled_def[symmetric]
    using res reservoir_loop_props[OF dist] sampled_uniform[OF dist] by blast
qed

theorem sample_peers_uniform_witness:
  "card {js \<in> draws 2. ''b'' \<in> set (fst (projr (sample_peers ((!) js) [''a'', ''b'', ''c''] (PInt 1) 1
     \<lparr>ml_messages = [(PInt 1, \<lparr>ri_message_id = PInt 1, ri_time_in = 0, ri_creation_time = PFloat 0,
        ri_peer_list = {''a''}\<rparr>)], ml_ttl = 3, ml_dropped = []\<rparr>)))} * 2 = 2"
  using sample_peers_uniform[of "\<lparr>ml_messages = [(PInt 1, \<lparr>ri_message_id = PInt 1, ri_time_in = 0,
        ri_creation_time = PFloat 0, ri_peer_list = {''a''}\<rparr>)], ml_ttl = 3, ml_dropped = []\<rparr>" "PInt 1"
      "\<lparr>ri_message_id = PInt 1, ri_time_in = 0, ri_creation_time = PFloat 0, ri_peer_list = {''a''}\<rparr>"
      "[''a'', ''b'', ''c'']" "[''b'', ''c'']" 1, THEN conjunct2]
  by (simp add: card_draws numeral_2_eq_2)


section \<open>DefaultRumorPolicy\<close>

definition num_of :: "pyval \<Rightarrow> rat option" where
  "num_of v = (case v of PInt i \<Rightarrow> Some (of_int i) | PFloat r \<Rightarrow> Some r
     | PBool b \<Rightarrow> Some (if b then 1 else 0) | _ \<Rightarrow> None)"

definition min_chance :: rat where "min_chance = 3 / 5"

text \<open>\<open>now\<close> is \<open>time.time()\<close>, \<open>u\<close> is \<open>random.random()\<close>.\<close>

definition should_rumor :: "rat \<Rightarrow> rat \<Rightarrow> message_list \<Rightarrow> wire_data \<Rightarrow> bool res" where
  "should_rumor now u ml message =
     (if \<not> hashable (w_id message) then Inl TypeError
      else if w_id message \<in> set (ml_dropped ml) then Inr False
      else case num_of (gossip_created message) of
        None \<Rightarrow> Inl TypeError
      | Some created \<Rightarrow>
          (let elapsed = now - created
           in if elapsed > GLOBAL_TTL_FOR_GOSSIP then Inr False
              else Inr (u < max min_chance ((GLOBAL_TTL_FOR_GOSSIP - elapsed) / GLOBAL_TTL_FOR_GOSSIP))))"

lemma should_rumor_chance:
  assumes "hashable (w_id message)" "w_id message \<notin> set (ml_dropped ml)"
    "num_of (gossip_created message) = Some c" "c \<le> now" "now \<le> c + GLOBAL_TTL_FOR_GOSSIP"
  obtains p where "3 / 5 \<le> p" "p \<le> 1" "should_rumor now u ml message = Inr (u < p)"
proof
  let ?p = "max min_chance ((GLOBAL_TTL_FOR_GOSSIP - (now - c)) / GLOBAL_TTL_FOR_GOSSIP)"
  show "3 / 5 \<le> ?p" by (simp add: min_chance_def)
  show "?p \<le> 1" using assms(4) by (simp add: min_chance_def GLOBAL_TTL_FOR_GOSSIP_def)
  show "should_rumor now u ml message = Inr (u < ?p)"
    using assms by (simp add: should_rumor_def)
qed

section \<open>RumorMongerProtocol\<close>

definition alpha :: nat where "alpha = 3"

text \<open>
  Printing a message slices its text, \<open>self.message[:11]\<close>, which fails when there is none. Since
  Python 3.12 a slice can be hashed, so on a dictionary it is an unknown key.
\<close>

definition gossip_repr :: "wire_data \<Rightarrow> unit res" where
  "gossip_repr g = (case gossip_message g of
     PStr _ \<Rightarrow> Inr () | PBytes _ \<Rightarrow> Inr () | PList _ \<Rightarrow> Inr () | PTuple _ \<Rightarrow> Inr ()
   | PDict _ \<Rightarrow> Inl KeyError | _ \<Rightarrow> Inl TypeError)"

text \<open>The state of a node: its message list and the log of datagrams sent, with id and receiver.\<close>

record gossip_state =
  gs_list :: message_list
  gs_out :: "(pyval \<times> string \<times> bytes) list"

text \<open>
  What a node draws from its surroundings while it handles one event: both clocks, the random
  numbers, the peer dictionary and the serialiser.
\<close>

record gossip_env =
  ge_monotonic :: rat
  ge_time :: rat
  ge_random :: rat
  ge_randint :: "nat \<Rightarrow> nat"
  ge_peers :: peer_dict
  ge_dumps :: "pyval \<Rightarrow> bytes res"

definition forward_payload :: "gossip_env \<Rightarrow> wire_data \<Rightarrow> string \<Rightarrow> (remote_peer \<times> bytes) option res" where
  "forward_payload env message pid =
     (case get_peer (ge_peers env) pid of
        None \<Rightarrow> Inr None
      | Some peer \<Rightarrow>
          res_bind (WireData_bytes (ge_dumps env) message) (\<lambda>raw.
          res_bind (transport_sendto GossipTransport raw) (\<lambda>dgram. Inr (Some (peer, dgram)))))"

text \<open>The loop of \<open>_gossip_forward\<close>: \<open>print(p.req_uri)\<close> fails for a peer that is not known any more.\<close>

fun forward_loop :: "gossip_env \<Rightarrow> wire_data \<Rightarrow> string list \<Rightarrow> gossip_state \<Rightarrow> unit res \<times> gossip_state" where
  "forward_loop env message [] s = (Inr (), s)"
| "forward_loop env message (pid # pids) s =
     (case forward_payload env message pid of
        Inl e \<Rightarrow> (Inl e, s)
      | Inr None \<Rightarrow> (Inl AttributeError, s)
      | Inr (Some (peer, dgram)) \<Rightarrow>
          forward_loop env message pids (s\<lparr>gs_out := gs_out s @ [(w_id message, pid, dgram)]\<rparr>))"

definition gossip_forward :: "gossip_env \<Rightarrow> wire_data \<Rightarrow> gossip_state \<Rightarrow> unit res \<times> gossip_state" where
  "gossip_forward env message s =
     (case sample_peers (ge_randint env) (dkeys (ge_peers env)) (w_id message) alpha (gs_list s) of
        Inl e \<Rightarrow> (Inl e, s)
      | Inr (sampled_peers, ml) \<Rightarrow> forward_loop env message sampled_peers (s\<lparr>gs_list := ml\<rparr>))"

definition gossip_new_message :: "gossip_env \<Rightarrow> wire_data \<Rightarrow> gossip_state \<Rightarrow> unit res \<times> gossip_state" where
  "gossip_new_message env message s =
     (case gossip_repr message of
        Inl e \<Rightarrow> (Inl e, s)
      | Inr _ \<Rightarrow>
          (case push (ge_monotonic env) message (gs_list s) of
             Inl e \<Rightarrow> (Inl e, s)
           | Inr ml \<Rightarrow> gossip_forward env message (s\<lparr>gs_list := ml\<rparr>)))"

definition message_arrived :: "gossip_env \<Rightarrow> wire_data \<Rightarrow> gossip_state \<Rightarrow> unit res \<times> gossip_state" where
  "message_arrived env data s =
     (if \<not> fields_check data then (Inr (), s)
      else case should_rumor (ge_time env) (ge_random env) (gs_list s) data of
        Inl e \<Rightarrow> (Inl e, s)
      | Inr False \<Rightarrow> (Inr (), s)
      | Inr True \<Rightarrow>
          (case (if dmem (w_id data) (ml_messages (gs_list s)) then gossip_forward env data s
                 else gossip_new_message env data s) of
             (Inl e, s') \<Rightarrow> (Inl e, s')
           | (Inr _, s') \<Rightarrow> (gossip_repr data, s')))"

definition is_seen :: "wire_data \<Rightarrow> gossip_state \<Rightarrow> bool res" where
  "is_seen message s = (if hashable (w_id message)
     then Inr (dmem (w_id message) (ml_messages (gs_list s))) else Inl TypeError)"


subsection \<open>No message is sent to a peer twice\<close>

definition sent_to :: "gossip_state \<Rightarrow> (pyval \<times> string) list" where
  "sent_to s = map (\<lambda>(i, p, d). (i, p)) (gs_out s)"

definition gossip_inv :: "gossip_state \<Rightarrow> bool" where
  "gossip_inv s \<longleftrightarrow> distinct (sent_to s) \<and>
     (\<forall>i p. (i, p) \<in> set (sent_to s) \<longrightarrow> i \<in> set (ml_dropped (gs_list s)) \<or>
        (\<exists>m. dget (ml_messages (gs_list s)) i = Some m \<and> p \<in> ri_peer_list m))"

lemma forward_loop_out:
  "\<exists>n. sent_to (snd (forward_loop env message pids s)) =
      sent_to s @ map (Pair (w_id message)) (take n pids) \<and>
    gs_list (snd (forward_loop env message pids s)) = gs_list s"
proof (induction pids arbitrary: s)
  case (Cons pid pids)
  show ?case
  proof (cases "\<exists>x. forward_payload env message pid = Inr (Some x)")
    case True
    then obtain peer dgram where "forward_payload env message pid = Inr (Some (peer, dgram))"
      by auto
    then show ?thesis
      using Cons.IH[of "s\<lparr>gs_out := gs_out s @ [(w_id message, pid, dgram)]\<rparr>"]
      by (auto simp: sent_to_def intro: exI[of _ "Suc n" for n])
  next
    case False
    then show ?thesis
      by (intro exI[of _ 0]) (auto split: sum.split option.split)
  qed
qed (simp add: exI[of _ 0])

lemma sample_peers_result:
  assumes "sample_peers rnd ps i k ml = Inr (r, ml')" "distinct ps"
  obtains m where "dget (ml_messages ml) i = Some m" "distinct r" "set r \<inter> ri_peer_list m = {}"
    "ml_dropped ml' = ml_dropped ml"
    "dget (ml_messages ml') = (dget (ml_messages ml))(i \<mapsto> m\<lparr>ri_peer_list := ri_peer_list m \<union> set r\<rparr>)"
proof -
  from assms(1) obtain m where m: "dindex (ml_messages ml) i = Inr m"
    by (cases "dindex (ml_messages ml) i") (auto simp: sample_peers_def)
  have r: "r = reservoir_loop k rnd 0 (filter (\<lambda>p. p \<notin> ri_peer_list m) ps) []"
      "ml' = ml\<lparr>ml_messages := dset i (m\<lparr>ri_peer_list := ri_peer_list m \<union> set r\<rparr>) (ml_messages ml)\<rparr>"
    using assms(1) unfolding sample_peers_def m by (auto simp: Let_def)
  have "distinct r" "set r \<inter> ri_peer_list m = {}"
    using reservoir_loop_props[of "filter (\<lambda>p. p \<notin> ri_peer_list m) ps" k rnd] assms(2) r(1) by auto
  moreover have "dget (ml_messages ml) i = Some m" "ml_dropped ml' = ml_dropped ml"
    using m by (simp_all add: r(2))
  moreover have "dget (ml_messages ml') =
      (dget (ml_messages ml))(i \<mapsto> m\<lparr>ri_peer_list := ri_peer_list m \<union> set r\<rparr>)"
    by (simp add: r(2) fun_upd_def)
  ultimately show thesis using that by blast
qed

lemma gossip_invD:
  "gossip_inv s \<Longrightarrow> (i, p) \<in> set (sent_to s) \<Longrightarrow> i \<notin> set (ml_dropped (gs_list s)) \<Longrightarrow>
     \<exists>m. dget (ml_messages (gs_list s)) i = Some m \<and> p \<in> ri_peer_list m"
  by (auto simp: gossip_inv_def)

lemma gossip_forward_inv:
  assumes "gossip_inv s" "dict_wf (ge_peers env)" "w_id message \<notin> set (ml_dropped (gs_list s))"
  shows "gossip_inv (snd (gossip_forward env message s))"
proof (cases "sample_peers (ge_randint env) (dkeys (ge_peers env)) (w_id message) alpha (gs_list s)")
  case (Inl e)
  then show ?thesis using assms(1) by (simp add: gossip_forward_def)
next
  case (Inr x)
  obtain r ml where x: "x = (r, ml)" by (cases x)
  have "distinct (dkeys (ge_peers env))"
    using assms(2) by (simp add: dkeys_def dict_wf_def)
  then obtain m where m: "dget (ml_messages (gs_list s)) (w_id message) = Some m" "distinct r"
      "set r \<inter> ri_peer_list m = {}" "ml_dropped ml = ml_dropped (gs_list s)"
      "dget (ml_messages ml) = (dget (ml_messages (gs_list s)))
         (w_id message \<mapsto> m\<lparr>ri_peer_list := ri_peer_list m \<union> set r\<rparr>)"
    using sample_peers_result Inr x by metis
  obtain n where n: "sent_to (snd (gossip_forward env message s)) =
      sent_to s @ map (Pair (w_id message)) (take n r)"
      "gs_list (snd (gossip_forward env message s)) = ml"
    using forward_loop_out[of env message r "s\<lparr>gs_list := ml\<rparr>"] Inr x
    by (auto simp: gossip_forward_def sent_to_def)
  have old: "(w_id message, p) \<notin> set (sent_to s)" if "p \<in> set r" for p
    using that gossip_invD[OF assms(1) _ assms(3), of p] m(1,3) by auto
  have "distinct (sent_to (snd (gossip_forward env message s)))"
    unfolding n(1) using assms(1) m(2) old
    by (auto simp: gossip_inv_def distinct_map inj_on_def dest: in_set_takeD)
  moreover have "i \<in> set (ml_dropped ml) \<or> (\<exists>m. dget (ml_messages ml) i = Some m \<and> p \<in> ri_peer_list m)"
    if "(i, p) \<in> set (sent_to (snd (gossip_forward env message s)))" for i p
  proof (cases "i = w_id message")
    case True
    then show ?thesis
      using that gossip_invD[OF assms(1) _ assms(3), of p] m unfolding n(1)
      by (auto dest: in_set_takeD)
  next
    case False
    then show ?thesis
      using that assms(1) m unfolding n(1) by (auto simp: gossip_inv_def)
  qed
  ultimately show ?thesis
    unfolding gossip_inv_def n(2) by blast
qed

lemma gossip_new_message_inv:
  assumes "gossip_inv s" "dict_wf (ge_peers env)" "w_id message \<notin> set (ml_dropped (gs_list s))"
    "\<not> dmem (w_id message) (ml_messages (gs_list s))"
  shows "gossip_inv (snd (gossip_new_message env message s))"
proof -
  have inv: "gossip_inv (s\<lparr>gs_list := ml\<rparr>)" if "push now message (gs_list s) = Inr ml" for now ml
  proof -
    have "sent_to (s\<lparr>gs_list := ml\<rparr>) = sent_to s"
      by (simp add: sent_to_def)
    then show ?thesis
      using that assms(1,4) gossip_invD[OF assms(1)] unfolding gossip_inv_def
      by (auto simp: push_def dmem_iff split: if_splits) (metis option.distinct(1))+
  qed
  have "ml_dropped ml = ml_dropped (gs_list s)" if "push now message (gs_list s) = Inr ml" for now ml
    using that by (auto simp: push_def split: if_splits)
  then show ?thesis
    using assms gossip_forward_inv[OF inv] by (auto simp: gossip_new_message_def split: sum.split)
qed

lemma should_rumor_not_dropped:
  "should_rumor now u ml message = Inr True \<Longrightarrow> w_id message \<notin> set (ml_dropped ml)"
  by (auto simp: should_rumor_def split: if_splits)

lemma message_arrived_inv:
  assumes "gossip_inv s" "dict_wf (ge_peers env)"
  shows "gossip_inv (snd (message_arrived env data s))"
proof -
  have "gossip_inv (snd (if dmem (w_id data) (ml_messages (gs_list s)) then gossip_forward env data s
                 else gossip_new_message env data s))"
    if "should_rumor (ge_time env) (ge_random env) (gs_list s) data = Inr True"
    using gossip_forward_inv[OF assms] gossip_new_message_inv[OF assms] should_rumor_not_dropped[OF that]
    by auto
  then show ?thesis
    using assms(1) by (auto simp: message_arrived_def split: sum.split bool.split prod.splits)
qed


lemma gossip_inv_drop:
  "gossip_inv s \<Longrightarrow> gossip_inv (s\<lparr>gs_list := (gs_list s)
     \<lparr>ml_messages := ddel i (ml_messages (gs_list s)), ml_dropped := List.insert i (ml_dropped (gs_list s))\<rparr>\<rparr>)"
  by (auto simp: gossip_inv_def sent_to_def)

lemma disseminate_inv: "gossip_inv s \<Longrightarrow> gossip_inv (s\<lparr>gs_list := disseminate now (gs_list s)\<rparr>)"
proof -
  have gen: "gossip_inv (s\<lparr>gs_list := fold (\<lambda>(i, item) l. if is_old_enough now (ri_time_in item)
      then l\<lparr>ml_messages := ddel i (ml_messages l), ml_dropped := List.insert i (ml_dropped l)\<rparr> else l) kvs l\<rparr>)"
    if "gossip_inv (s\<lparr>gs_list := l\<rparr>)" for kvs l
    using that
  proof (induction kvs arbitrary: l)
    case (Cons kv kvs)
    then show ?case
      using gossip_inv_drop[of "s\<lparr>gs_list := l\<rparr>" "fst kv"] by (cases kv) auto
  qed simp
  assume "gossip_inv s"
  then show ?thesis
    using gen[of "gs_list s" "ml_messages (gs_list s)"] by (simp add: disseminate_def)
qed

lemma remove_message_inv:
  "gossip_inv s \<Longrightarrow> remove_message i (gs_list s) = Inr ml \<Longrightarrow> gossip_inv (s\<lparr>gs_list := ml\<rparr>)"
  using gossip_inv_drop[of s i] by (auto simp: remove_message_def split: if_splits)

inductive gossip_step :: "gossip_state \<Rightarrow> gossip_state \<Rightarrow> bool" where
  gs_arrive: "dict_wf (ge_peers env) \<Longrightarrow> gossip_step s (snd (message_arrived env data s))"
| gs_search: "dict_wf (ge_peers env) \<Longrightarrow> w_id message \<notin> set (ml_dropped (gs_list s)) \<Longrightarrow>
    \<not> dmem (w_id message) (ml_messages (gs_list s)) \<Longrightarrow>
    gossip_step s (snd (gossip_new_message env message s))"
| gs_expire: "gossip_step s (s\<lparr>gs_list := disseminate now (gs_list s)\<rparr>)"
| gs_remove: "remove_message i (gs_list s) = Inr ml \<Longrightarrow> gossip_step s (s\<lparr>gs_list := ml\<rparr>)"

inductive_cases gossip_stepE: "gossip_step s s'"

definition gossip_init :: "gossip_state \<Rightarrow> bool" where
  "gossip_init s \<longleftrightarrow> s = \<lparr>gs_list = SimpleRumorMessageList NODE_POV_GOSSIP_TTL, gs_out = []\<rparr>"

interpretation rumor: inv_system gossip_init gossip_step gossip_inv
proof unfold_locales
  show "gossip_init s \<Longrightarrow> gossip_inv s" for s
    by (simp add: gossip_init_def gossip_inv_def sent_to_def SimpleRumorMessageList_def)
  show "gossip_inv s \<Longrightarrow> gossip_step s t \<Longrightarrow> gossip_inv t" for s t
    by (auto elim!: gossip_stepE
        intro: message_arrived_inv gossip_new_message_inv disseminate_inv remove_message_inv)
qed

text \<open>
  C3. A node never sends the same gossip message to the same peer twice, however often the message
  comes back, whatever the clocks and the random draws are, and also when messages expire or are
  removed in between.
\<close>

theorem gossip_no_resend:
  assumes "reachable gossip_init gossip_step s"
  shows "distinct (sent_to s)"
  using rumor.reachable_inv[OF assms] by (simp add: gossip_inv_def)

theorem gossip_no_resend_witness:
  "distinct (sent_to (snd (message_arrived
     \<lparr>ge_monotonic = 0, ge_time = 1, ge_random = 0, ge_randint = (\<lambda>i. 0), ge_peers = [],
      ge_dumps = (\<lambda>v. Inr [1])\<rparr>
     (WireData GOSSIP_MESSAGE (PInt 1) PNone WIRE_VERSION
        [(''message'', PStr ''hi''), (''id'', PInt 1), (''created'', PInt 1), (''ttl'', PInt 6)])
     \<lparr>gs_list = SimpleRumorMessageList NODE_POV_GOSSIP_TTL, gs_out = []\<rparr>)))"
  by (rule gossip_no_resend,
      rule reachable_one[where s = "\<lparr>gs_list = SimpleRumorMessageList NODE_POV_GOSSIP_TTL, gs_out = []\<rparr>"])
    (simp add: gossip_init_def, rule gs_arrive, simp)

section \<open>The gossip search\<close>

text \<open>\<open>_prepare_search_message\<close> and \<open>_prepare_reply\<close>; \<open>uid\<close> is the fresh uuid.\<close>

definition prepare_search_message :: "string \<Rightarrow> string \<Rightarrow> rat \<Rightarrow> wire_data" where
  "prepare_search_message find_str uid now =
     set_gossip_created (PFloat now) (set_gossip_id (PStr uid) (set_gossip_message (PStr find_str)
       (set_gossip_header GOSSIP_SEARCH_REQ empty_WireData)))"

definition prepare_reply :: "pyval \<Rightarrow> bytes \<Rightarrow> rat \<Rightarrow> wire_data" where
  "prepare_reply reply_id me_serialized now =
     set_gossip_created (PFloat now) (set_gossip_message (PBytes me_serialized) (set_gossip_id reply_id
       (set_gossip_header GOSSIP_SEARCH_REPLY empty_WireData)))"

text \<open>\<open>search_string in username\<close> needs a string.\<close>

definition request_arrived :: "remote_peer \<Rightarrow> bytes \<Rightarrow> rat \<Rightarrow> wire_data \<Rightarrow> wire_data option res" where
  "request_arrived me me_serialized now req =
     (case gossip_message req of
        PStr s \<Rightarrow> (case is_relevant s me of
            Inl e \<Rightarrow> Inl e
          | Inr b \<Rightarrow> Inr (if b then Some (prepare_reply (w_id req) me_serialized now) else None))
      | _ \<Rightarrow> Inl TypeError)"

text \<open>
  \<open>search_iterator\<close>: the replies queued so far and the start time; \<open>__anext__\<close> either returns the
  next reply or, \<open>wait_end\<close> being the moment its wait is over, stops.
\<close>

record search_iter =
  si_start :: rat
  si_queue :: "pyval list"

definition search_timeout :: rat where "search_timeout = 3"

definition iter_add_peer :: "pyval \<Rightarrow> search_iter \<Rightarrow> search_iter" where
  "iter_add_peer p it = it\<lparr>si_queue := si_queue it @ [p]\<rparr>"

definition iter_anext :: "rat \<Rightarrow> search_iter \<Rightarrow> pyval res \<times> search_iter" where
  "iter_anext now it =
     (if now - si_start it > search_timeout then (Inl StopAsyncIteration, it)
      else case si_queue it of
        [] \<Rightarrow> (Inl StopAsyncIteration, it)
      | p # ps \<Rightarrow> (Inr p, it\<lparr>si_queue := ps\<rparr>))"

definition search_for ::
    "gossip_env \<Rightarrow> string \<Rightarrow> string \<Rightarrow> rat \<Rightarrow> gossip_state \<times> (pyval, search_iter) pydict \<Rightarrow>
     unit res \<times> gossip_state \<times> (pyval, search_iter) pydict" where
  "search_for env find_str uid started st =
     (let m = prepare_search_message find_str uid (ge_time env)
      in case gossip_new_message env m (fst st) of
           (Inl e, s) \<Rightarrow> (Inl e, s, snd st)
         | (Inr _, s) \<Rightarrow> (Inr (), s, dset (w_id m) \<lparr>si_start = started, si_queue = []\<rparr> (snd st)))"

definition reply_arrived ::
    "gossip_env \<Rightarrow> (bytes \<Rightarrow> pyval res) \<Rightarrow> wire_data \<Rightarrow> gossip_state \<times> (pyval, search_iter) pydict \<Rightarrow>
     unit res \<times> gossip_state \<times> (pyval, search_iter) pydict" where
  "reply_arrived env load_peer reply st =
     (case message_arrived env reply (fst st) of
        (Inl e, s) \<Rightarrow> (Inl e, s, snd st)
      | (Inr _, s) \<Rightarrow>
          if \<not> hashable (w_id reply) then (Inl TypeError, s, snd st)
          else case dget (snd st) (w_id reply) of
            None \<Rightarrow> (Inr (), s, snd st)
          | Some it \<Rightarrow>
              (case (case gossip_message reply of
                       PBytes [] \<Rightarrow> Inr (PBytes [])
                     | PBytes b \<Rightarrow> load_peer b
                     | m \<Rightarrow> if py_truth m then Inl TypeError else Inr m) of
                 Inl e \<Rightarrow> (Inl e, s, snd st)
               | Inr p \<Rightarrow> (Inr (), s, dset (w_id reply) (iter_add_peer p it) (snd st))))"

text \<open>
  The handler of a search request: gossip it on if it is new, then answer it. \<open>print(event.message)\<close>
  comes first in the gossip handler.
\<close>

definition GossipSearchReqHandler ::
    "gossip_env \<Rightarrow> remote_peer \<Rightarrow> bytes \<Rightarrow> wire_data \<Rightarrow> gossip_state \<Rightarrow> wire_data option res \<times> gossip_state" where
  "GossipSearchReqHandler env me me_serialized message s =
     (case is_seen message s of
        Inl e \<Rightarrow> (Inl e, s)
      | Inr seen \<Rightarrow>
          (case (if seen then (Inr (), s)
                 else case gossip_repr message of Inl e \<Rightarrow> (Inl e, s) | Inr _ \<Rightarrow> message_arrived env message s) of
             (Inl e, s') \<Rightarrow> (Inl e, s')
           | (Inr _, s') \<Rightarrow> (request_arrived me me_serialized (ge_time env) message, s')))"

definition GossipDispatcher_submit ::
    "(pyval, wire_data \<Rightarrow> addr \<Rightarrow> 's \<Rightarrow> unit res \<times> 's) pydict \<Rightarrow> request_event \<Rightarrow> 's \<Rightarrow> unit res \<times> 's" where
  "GossipDispatcher_submit registry ev s =
     (let message = ev_request ev
      in if \<not> hashable (w_header message) then (Inl TypeError, s)
         else case dget registry (w_header message) of
           None \<Rightarrow> (Inl KeyError, s)
         | Some handler \<Rightarrow> handler message (ev_from_addr ev) s)"

lemmas gossip_field_defs = set_gossip_created_def set_gossip_id_def set_gossip_message_def
  set_gossip_header_def empty_WireData_def WireData_setitem_def WireData_def

text \<open>
  A search does not spread: the request as \<open>search_for\<close> builds it lacks the key \<open>id\<close> (the
  envelope calls it \<open>msg_id\<close>) and the \<open>ttl\<close> that \<open>fields_check\<close> asks for, so a node that receives it
  neither stores nor forwards it; it only answers when its own name matches.
\<close>

theorem search_request_not_forwarded:
  assumes "rp_username me = PStr name"
    and "message = norm_wire (prepare_search_message find_str uid now)"
    and "\<not> dmem (PStr uid) (ml_messages (gs_list s))"
  shows "GossipSearchReqHandler env me me_ser message s =
    (Inr (if sublist find_str name then Some (prepare_reply (PStr uid) me_ser (ge_time env)) else None), s)"
proof -
  have body: "w_body message = [(''message'', PStr find_str), (''created'', PFloat now)]"
    "w_id message = PStr uid" "w_header message = GOSSIP_SEARCH_REQ"
    using assms(2)
    by (simp_all add: prepare_search_message_def gossip_field_defs norm_wire_def GOSSIP_SEARCH_REQ_def)
  have msg: "gossip_message message = PStr find_str"
    by (simp add: gossip_message_def body_get_def body(1))
  have "\<not> fields_check message"
    unfolding fields_check_iff body(1) by (simp add: dmem_def dkeys_def)
  then show ?thesis
    using assms(1,3) body msg
    by (simp add: GossipSearchReqHandler_def is_seen_def message_arrived_def gossip_repr_def
        request_arrived_def is_relevant_def)
qed

theorem search_request_not_forwarded_witness:
  "snd (GossipSearchReqHandler
     \<lparr>ge_monotonic = 0, ge_time = 1, ge_random = 0, ge_randint = (\<lambda>i. 0), ge_peers = [],
      ge_dumps = (\<lambda>v. Inr [1])\<rparr>
     \<lparr>rp_username = PStr ''ali'', rp_ip = ''::1'', rp_conn_port = PORT_THIS, rp_req_port = PORT_REQ,
      rp_status = ONLINE, rp_id = [1], rp_long_id = 1, rp_byte_cache = None\<rparr> [9]
     (norm_wire (prepare_search_message ''li'' ''u1'' 1))
     \<lparr>gs_list = SimpleRumorMessageList 3, gs_out = []\<rparr>) =
   \<lparr>gs_list = SimpleRumorMessageList 3, gs_out = []\<rparr>"
  by (subst search_request_not_forwarded[OF _ refl])
    (simp_all add: SimpleRumorMessageList_def)

end
