(* ===== verification/Kademlia.thy ===== *)
theory Kademlia
  imports Dispatch
begin

text \<open>
  The program's own part of the distributed hash table: \<open>src/core/_kademlia.py\<close> and the peer lists
  of \<open>src/core/peers.py\<close>. The packages \<open>kademlia\<close> and \<open>rpcudp\<close> are third party: the routing table's
  \<open>find_neighbors\<close> and \<open>is_new_node\<close>, the crawls over the network and the remote calls are
  arguments of the definitions that use them.
\<close>

unbundle bit_operations_syntax

section \<open>The list identifiers\<close>

text \<open>The twenty keys under which the network keeps its lists of peers, byte for byte.\<close>

definition node_list_ids :: "bytes list" where
  "node_list_ids =
     [replicate 20 0x00,
      0x0c # replicate 19 0xcc,
      0x19 # replicate 18 0x99 @ [0x98],
      0x26 # replicate 18 0x66 @ [0x64],
      replicate 19 0x33 @ [0x30],
      0x3f # replicate 18 0xff @ [0xfc],
      0x4c # replicate 18 0xcc @ [0xc8],
      0x59 # replicate 18 0x99 @ [0x94],
      replicate 19 0x66 @ [0x60],
      0x73 # replicate 18 0x33 @ [0x2c],
      0x7f # replicate 18 0xff @ [0xf8],
      0x8c # replicate 18 0xcc @ [0xc4],
      replicate 19 0x99 @ [0x90],
      0xa6 # replicate 18 0x66 @ [0x5c],
      0xb3 # replicate 18 0x33 @ [0x28],
      0xbf # replicate 18 0xff @ [0xf4],
      replicate 19 0xcc @ [0xc0],
      0xd9 # replicate 18 0x99 @ [0x8c],
      0xe6 # replicate 18 0x66 @ [0x58],
      0xf3 # replicate 18 0x33 @ [0x24]]"

text \<open>
  \<open>_get_closest_list_id\<close>: the loop with its two variables; the initial \<open>nearest_list_id = 0\<close>, which is
  not a key, is \<open>None\<close>.
\<close>

fun closest_loop :: "nat \<Rightarrow> bytes list \<Rightarrow> bytes option \<Rightarrow> nat \<Rightarrow> bytes option" where
  "closest_loop me [] nearest_list_id prev_closest_xor = nearest_list_id"
| "closest_loop me (i # is) nearest_list_id prev_closest_xor =
     (let current_xor = me XOR be_decode i
      in if current_xor < prev_closest_xor then closest_loop me is (Some i) current_xor
         else closest_loop me is nearest_list_id prev_closest_xor)"

definition get_closest_list_id :: "remote_peer \<Rightarrow> bytes list \<Rightarrow> bytes option" where
  "get_closest_list_id me ids = closest_loop (rp_long_id me) ids None (2 ^ 160)"

lemma be_decode_append: "be_decode (xs @ ys) = be_decode xs * 256 ^ length ys + be_decode ys"
proof (induction ys rule: rev_induct)
  case (snoc y ys)
  then show ?case
    using be_decode_simps(2)[of "xs @ ys" y] by (simp add: algebra_simps)
qed simp

lemma be_decode_single: "be_decode [b] = unat b"
  using be_decode_simps(2)[of "[]" b] by simp

lemma be_decode_Cons: "be_decode (b # bs) = unat b * 256 ^ length bs + be_decode bs"
  using be_decode_append[of "[b]" bs] by (simp add: be_decode_single)

lemma be_decode_replicate: "255 * be_decode (replicate n b) = unat b * (256 ^ n - 1)"
proof (induction n)
  case (Suc n)
  have "255 * be_decode (replicate (Suc n) b) = 255 * unat b * 256 ^ n + unat b * (256 ^ n - 1)"
    using Suc by (simp add: be_decode_Cons algebra_simps)
  also have "\<dots> = unat b * (255 * 256 ^ n + (256 ^ n - 1))"
    by (simp only: algebra_simps)
  also have "(255 * 256 ^ n + (256 ^ n - 1) :: nat) = 256 ^ Suc n - 1"
    by simp
  finally show ?case .
qed simp

lemma be_decode_replicate': "be_decode (replicate n b) = unat b * (256 ^ n - 1) div 255"
  using be_decode_replicate[of n b] by (metis nonzero_mult_div_cancel_left zero_neq_numeral)

lemma node_list_ids_values:
  "map be_decode node_list_ids = map (\<lambda>i. i * (2 ^ 160 div 20)) [0..<20]"
  by (simp add: node_list_ids_def be_decode_Cons be_decode_append be_decode_single
      be_decode_replicate' upt_rec)


lemma node_list_ids_wf: "length node_list_ids = 20" "list_all (\<lambda>i. length i = 20) node_list_ids"
  by (simp_all add: node_list_ids_def)

lemma closest_loop_nearest:
  assumes "closest_loop me is (Some b) (me XOR be_decode b) = r"
  shows "\<exists>c. r = Some c \<and> c \<in> insert b (set is) \<and>
    keys.nearest me (be_decode ` insert b (set is)) (be_decode c)"
  using assms
proof (induction "is" arbitrary: b)
  case Nil
  then show ?case by (simp add: keys.nearest_def)
next
  case (Cons i "is")
  define b' where "b' = (if me XOR be_decode i < me XOR be_decode b then i else b)"
  have "closest_loop me is (Some b') (me XOR be_decode b') = r"
    using Cons.prems by (simp add: b'_def Let_def split: if_splits)
  then obtain c where c: "r = Some c" "c \<in> insert b' (set is)"
      "keys.nearest me (be_decode ` insert b' (set is)) (be_decode c)"
    using Cons.IH by blast
  have "me XOR be_decode c \<le> me XOR be_decode b'" "me XOR be_decode b' \<le> me XOR be_decode b"
      "me XOR be_decode b' \<le> me XOR be_decode i"
    using c(3) by (auto simp: keys.nearest_def b'_def)
  then have "keys.nearest me (be_decode ` insert b (set (i # is))) (be_decode c)"
    using c(2,3) by (auto simp: keys.nearest_def b'_def split: if_splits)
  then show ?case
    using c(1,2) by (auto simp: b'_def split: if_splits)
qed

lemma xor_nat_less: "a < 2 ^ n \<Longrightarrow> b < 2 ^ n \<Longrightarrow> (a XOR b :: nat) < 2 ^ n"
  by (metis take_bit_nat_eq_self_iff take_bit_xor)

lemma closest_loop_start:
  assumes "me < 2 ^ 160" "length i = 20"
  shows "closest_loop me (i # is) None (2 ^ 160) = closest_loop me is (Some i) (me XOR be_decode i)"
proof -
  have "be_decode i < 2 ^ 160"
    using be_decode_lt[of i] assms(2) by (simp add: power_mult[symmetric, of 2 8 20, simplified])
  then show ?thesis
    using xor_nat_less[OF assms(1)] by (simp add: Let_def)
qed

text \<open>
  C13. The list a peer registers itself in is the right one: for a peer with a 20-byte id
  \<open>_get_closest_list_id\<close> returns one of the twenty list ids, and every other list id is strictly
  farther away in the XOR metric.
\<close>

theorem closest_list_id_unique:
  assumes "peer_wf me" and "length (rp_id me) = 20"
  shows "\<exists>i \<in> set node_list_ids. get_closest_list_id me node_list_ids = Some i \<and>
    (\<forall>j \<in> set node_list_ids. j \<noteq> i \<longrightarrow> rp_long_id me XOR be_decode i < rp_long_id me XOR be_decode j)"
proof -
  obtain i0 rest where ids: "node_list_ids = i0 # rest"
    by (simp add: node_list_ids_def)
  have len: "length j = 20" if "j \<in> set node_list_ids" for j
    using that node_list_ids_wf(2) by (simp add: list_all_iff)
  have me: "rp_long_id me < 2 ^ 160"
    using assms be_decode_lt[of "rp_id me"]
    by (simp add: peer_wf_def power_mult[symmetric, of 2 8 20, simplified])
  obtain i where i: "get_closest_list_id me node_list_ids = Some i" "i \<in> set node_list_ids"
      "keys.nearest (rp_long_id me) (be_decode ` set node_list_ids) (be_decode i)"
    using closest_loop_nearest[OF refl, of "rp_long_id me" rest i0]
      closest_loop_start[OF me len[of i0], of rest]
    unfolding get_closest_list_id_def ids by auto
  have "rp_long_id me XOR be_decode i < rp_long_id me XOR be_decode j"
    if j: "j \<in> set node_list_ids" "j \<noteq> i" for j
  proof -
    have "be_decode j \<noteq> be_decode i"
      using j len i(2) be_decode_inj by metis
    then have "rp_long_id me XOR be_decode i \<noteq> rp_long_id me XOR be_decode j"
      by (simp add: xor_nat_cancel)
    moreover have "rp_long_id me XOR be_decode i \<le> rp_long_id me XOR be_decode j"
      using i(3) j(1) by (simp add: keys.nearest_def)
    ultimately show ?thesis by simp
  qed
  then show ?thesis using i by blast
qed

theorem closest_list_id_unique_witness:
  "\<exists>i \<in> set node_list_ids. get_closest_list_id
     \<lparr>rp_username = PNone, rp_ip = [], rp_conn_port = PNone, rp_req_port = PNone, rp_status = PNone,
      rp_id = replicate 20 0, rp_long_id = 0, rp_byte_cache = None\<rparr> node_list_ids = Some i"
proof -
  have "be_decode (replicate 20 (0::byte)) = 0"
    by (simp only: be_decode_replicate') simp
  then have "\<exists>i \<in> set node_list_ids. get_closest_list_id
      \<lparr>rp_username = PNone, rp_ip = [], rp_conn_port = PNone, rp_req_port = PNone, rp_status = PNone,
       rp_id = replicate 20 0, rp_long_id = 0, rp_byte_cache = None\<rparr> node_list_ids = Some i \<and>
     (\<forall>j \<in> set node_list_ids. j \<noteq> i \<longrightarrow> rp_long_id
      \<lparr>rp_username = PNone, rp_ip = [], rp_conn_port = PNone, rp_req_port = PNone, rp_status = PNone,
       rp_id = replicate 20 0, rp_long_id = 0, rp_byte_cache = None\<rparr> XOR be_decode i <
      rp_long_id \<lparr>rp_username = PNone, rp_ip = [], rp_conn_port = PNone, rp_req_port = PNone,
       rp_status = PNone, rp_id = replicate 20 0, rp_long_id = 0, rp_byte_cache = None\<rparr> XOR be_decode j)"
    by (intro closest_list_id_unique) (simp_all add: peer_wf_def)
  then show ?thesis by blast
qed

section \<open>Paging through the lists\<close>

text \<open>
  \<open>PeerListGetter.get_more_peers\<close>: \<open>fetch\<close> is \<open>peer_server.get_list_of_nodes\<close>. \<open>list(set(...))\<close>
  keeps one peer of each class of \<open>RemotePeer.__eq__\<close>.
\<close>

definition fetch_index :: "nat \<Rightarrow> nat" where
  "fetch_index previously_fetched_index =
     (if length node_list_ids - 1 \<le> previously_fetched_index then 0 else previously_fetched_index)"

definition dedup_peers :: "remote_peer list \<Rightarrow> remote_peer list" where
  "dedup_peers ps = fold (\<lambda>p acc. if list_ex (peer_eq p) acc then acc else acc @ [p]) ps []"

definition get_more_peers ::
    "(bytes \<Rightarrow> remote_peer list option res) \<Rightarrow> nat \<times> peer_dict \<Rightarrow> remote_peer list res \<times> nat \<times> peer_dict" where
  "get_more_peers fetch st =
     (let i = fetch_index (fst st)
      in case fetch (node_list_ids ! i) of
           Inl e \<Rightarrow> (Inl e, i, snd st)
         | Inr None \<Rightarrow> (Inr [], Suc i, snd st)
         | Inr (Some []) \<Rightarrow> (Inr [], Suc i, snd st)
         | Inr (Some ps) \<Rightarrow> (Inr (dedup_peers ps), Suc i, extend_peers ps (snd st)))"

text \<open>The indices looked up by \<open>n\<close> successive calls, whatever the network answers.\<close>

fun fetched_indices :: "(bytes \<Rightarrow> remote_peer list option res) list \<Rightarrow> nat \<times> peer_dict \<Rightarrow> nat list" where
  "fetched_indices [] st = []"
| "fetched_indices (f # fs) st = fetch_index (fst st) # fetched_indices fs (snd (get_more_peers f st))"

lemma get_more_peers_index:
  "fst (snd (get_more_peers f st)) \<in> {fetch_index (fst st), Suc (fetch_index (fst st))}"
  by (auto simp: get_more_peers_def Let_def split: sum.split option.split list.split)

lemma fetch_index_lt: "fetch_index i < 19"
  by (simp add: fetch_index_def node_list_ids_wf)

lemma fetched_indices_lt: "i \<in> set (fetched_indices fs st) \<Longrightarrow> i < 19"
  by (induction fs arbitrary: st) (simp, metis fetch_index_lt fetched_indices.simps(2) set_ConsD)

lemma get_more_peers_Suc:
  "fetch (node_list_ids ! fetch_index i) = Inr r \<Longrightarrow>
    fst (snd (get_more_peers fetch (i, d))) = Suc (fetch_index i)"
  by (auto simp: get_more_peers_def Let_def split: option.split list.split)

lemma fetched_indices_cycle:
  assumes "\<And>f x. f \<in> set fs \<Longrightarrow> \<exists>r. f x = Inr r" "i \<le> 19" "k < length fs"
  shows "fetched_indices fs (i, d) ! k = (i + k) mod 19"
  using assms
proof (induction fs arbitrary: i d k)
  case (Cons f fs)
  have fi: "fetch_index i = i mod 19"
    using Cons.prems(2) by (cases "i = 19") (auto simp: fetch_index_def node_list_ids_wf)
  show ?case
  proof (cases k)
    case 0
    then show ?thesis using fi by simp
  next
    case (Suc m)
    obtain d' where st: "snd (get_more_peers f (i, d)) = (Suc (i mod 19), d')"
      using Cons.prems(1)[of f "node_list_ids ! fetch_index i"] get_more_peers_Suc[of f i _ d] fi
      by (metis list.set_intros(1) prod.collapse)
    have "fetched_indices fs (Suc (i mod 19), d') ! m = (Suc (i mod 19) + m) mod 19"
      using Cons.IH[of "Suc (i mod 19)" m d'] Cons.prems Suc by (simp add: less_Suc_eq_le[symmetric])
    also have "\<dots> = (i + k) mod 19"
      using Suc by (metis add.commute add_Suc mod_add_left_eq add_Suc_right)
    finally show ?thesis using st Suc by simp
  qed
qed simp

text \<open>
  Successive page requests walk round-robin through the first nineteen list ids, one per
  answered request; the twentieth list is never asked for, whatever the network answers.
\<close>

theorem get_more_peers_pages:
  assumes "\<And>f x. f \<in> set fs \<Longrightarrow> \<exists>r. f x = Inr r"
  shows "(\<forall>k<length fs. fetched_indices fs (0, d) ! k = k mod 19) \<and>
    (\<forall>i\<in>set (fetched_indices gs st). i \<noteq> length node_list_ids - 1)"
proof (intro conjI allI impI ballI)
  show "fetched_indices fs (0, d) ! k = k mod 19" if "k < length fs" for k
    using fetched_indices_cycle[of fs 0 k d] assms that by simp
  show "i \<noteq> length node_list_ids - 1" if "i \<in> set (fetched_indices gs st)" for i
    using fetched_indices_lt[OF that] by (simp add: node_list_ids_wf)
qed

theorem get_more_peers_pages_witness:
  "fetched_indices (replicate 40 (\<lambda>k. Inr None)) (0, []) ! 19 = 0"
  using get_more_peers_pages[of "replicate 40 (\<lambda>k. Inr None)" "[]" "[]" "(0, [])", THEN conjunct1,
      rule_format, of 19]
  by simp


section \<open>Storage\<close>

text \<open>
  The lists of serialised peers by list id; a set of byte strings is a list without repetitions.
  An entry that arrives as a list stands for its first element.
\<close>

type_synonym peer_lists = "(bytes, pyval list) pydict"

definition get_list_of_peers :: "bytes \<Rightarrow> peer_lists \<Rightarrow> pyval list option" where
  "get_list_of_peers list_key st = dget st list_key"

definition all_peers_in_lists :: "peer_lists \<Rightarrow> (bytes \<times> pyval list) list" where
  "all_peers_in_lists st = st"

fun filtered_peers :: "pyval list \<Rightarrow> pyval list res" where
  "filtered_peers [] = Inr []"
| "filtered_peers (PList [] # ps) = Inl IndexError"
| "filtered_peers (PList (x # xs) # ps) =
     (if hashable x then map_sum id (List.insert x) (filtered_peers ps) else Inl TypeError)"
| "filtered_peers (x # ps) =
     (if hashable x then map_sum id (List.insert x) (filtered_peers ps) else Inl TypeError)"

definition store_peers_in_list :: "bytes \<Rightarrow> pyval list \<Rightarrow> peer_lists \<Rightarrow> bool res \<times> peer_lists" where
  "store_peers_in_list list_key list_of_peers st =
     (if list_key \<notin> set node_list_ids then (Inr False, st)
      else case filtered_peers list_of_peers of
        Inl e \<Rightarrow> (Inl e, st)
      | Inr new \<Rightarrow>
          (Inr True, dset list_key
             (fold List.insert new (case dget st list_key of None \<Rightarrow> [] | Some old \<Rightarrow> old)) st))"

definition storage_wf :: "peer_lists \<Rightarrow> bool" where
  "storage_wf st \<longleftrightarrow> dict_wf st \<and> set (dkeys st) \<subseteq> set node_list_ids \<and>
     (\<forall>k ps. dget st k = Some ps \<longrightarrow> distinct ps)"

lemma set_fold_insert: "set (fold List.insert xs ys) = set xs \<union> set ys"
  by (induction xs arbitrary: ys) auto

lemma distinct_fold_insert: "distinct ys \<Longrightarrow> distinct (fold List.insert xs ys)"
  by (induction xs arbitrary: ys) auto

lemma filtered_peers_bytes: "filtered_peers (map PBytes bs) = Inr (remdups (map PBytes bs))"
  by (induction bs) (auto simp: List.insert_def)

lemma store_peers_wf [inv_intros]:
  assumes "storage_wf st"
  shows "storage_wf (snd (store_peers_in_list k ps st))"
proof -
  have "set (dkeys (dset k v st)) \<subseteq> insert k (set (dkeys st))" for v
    using dmem_update[of _ k v st] by (auto simp: dmem_def)
  moreover have "distinct (case dget st k of None \<Rightarrow> [] | Some old \<Rightarrow> old)"
    using assms by (auto simp: storage_wf_def split: option.split)
  ultimately show ?thesis
    using assms unfolding storage_wf_def store_peers_in_list_def
    by (auto simp: distinct_fold_insert split: sum.split)
qed

text \<open>
  Storing serialised peers under a list id adds exactly those to that list and touches no other
  list; a key that is not one of the twenty ids is refused and changes nothing; and the storage
  invariant (only the twenty keys, no duplicates) is kept.
\<close>

theorem store_peers_in_list_spec:
  assumes "storage_wf st"
  shows "store_peers_in_list k (map PBytes bs) st =
      (if k \<in> set node_list_ids then (Inr True, snd (store_peers_in_list k (map PBytes bs) st)) else (Inr False, st)) \<and>
    storage_wf (snd (store_peers_in_list k ps st)) \<and>
    (k \<in> set node_list_ids \<longrightarrow>
      (\<exists>l. get_list_of_peers k (snd (store_peers_in_list k (map PBytes bs) st)) = Some l \<and>
        set l = PBytes ` set bs \<union> (case get_list_of_peers k st of None \<Rightarrow> {} | Some old \<Rightarrow> set old))) \<and>
    (j \<noteq> k \<longrightarrow> get_list_of_peers j (snd (store_peers_in_list k ps st)) = get_list_of_peers j st)"
  using store_peers_wf[OF assms]
  by (auto simp: store_peers_in_list_def filtered_peers_bytes get_list_of_peers_def set_fold_insert
      split: option.split sum.split)

theorem store_peers_in_list_spec_witness:
  "\<exists>l. get_list_of_peers (replicate 20 0) (snd (store_peers_in_list (replicate 20 0) (map PBytes [[1]]) [])) = Some l
     \<and> set l = {PBytes [1]}"
proof -
  have "storage_wf []" "replicate 20 0 \<in> set node_list_ids"
    by (simp_all add: storage_wf_def dkeys_def node_list_ids_def)
  with store_peers_in_list_spec[OF this(1), of "replicate 20 0" "[[1]]" "[]" "[]",
      THEN conjunct2, THEN conjunct2, THEN conjunct1]
  show ?thesis
    by (simp add: get_list_of_peers_def)
qed


section \<open>KadProtocol\<close>

text \<open>
  The protocol object: its peer lists, its value store and the contacts the routing table has been
  told about. \<open>find_neighbors\<close> and \<open>is_new\<close> are the routing table's queries.
\<close>

record kad_state =
  kd_lists :: peer_lists
  kd_values :: "(bytes, pyval) pydict"
  kd_contacts :: "remote_peer list"

text \<open>A remote call \<open>call_store_peers_in_list(peer, list_key, peer_list)\<close>.\<close>

type_synonym store_call = "remote_peer \<times> bytes \<times> pyval list"

definition handover_lists ::
    "(remote_peer \<Rightarrow> remote_peer list) \<Rightarrow> remote_peer \<Rightarrow> remote_peer \<Rightarrow> remote_peer \<Rightarrow> bool" where
  "handover_lists find_neighbors source_node peer key_node =
     (let neighbors = find_neighbors key_node
      in neighbors = [] \<or>
         (distance_to peer key_node < distance_to (last neighbors) key_node \<and>
          distance_to source_node key_node < distance_to (hd neighbors) key_node))"

fun send_peer_lists ::
    "(remote_peer \<Rightarrow> remote_peer list) \<Rightarrow> (bytes \<Rightarrow> remote_peer) \<Rightarrow> remote_peer \<Rightarrow> remote_peer \<Rightarrow>
     (bytes \<times> pyval list) list \<Rightarrow> store_call list" where
  "send_peer_lists find_neighbors mk source_node peer [] = []"
| "send_peer_lists find_neighbors mk source_node peer ((list_key, peer_list) # rest) =
     (if handover_lists find_neighbors source_node peer (mk list_key)
      then map (\<lambda>i. (peer, list_key, [i])) peer_list else [])
     @ send_peer_lists find_neighbors mk source_node peer rest"

text \<open>\<open>RemotePeer(list_key)\<close>: the stand-in peer for a list id.\<close>

definition key_peer :: "bytes \<Rightarrow> remote_peer" where
  "key_peer b = \<lparr>rp_username = PNone, rp_ip = ''None'', rp_conn_port = PORT_THIS, rp_req_port = PORT_REQ,
     rp_status = OFFLINE, rp_id = b, rp_long_id = be_decode b, rp_byte_cache = None\<rparr>"

definition welcome_if_new ::
    "(remote_peer \<Rightarrow> remote_peer list) \<Rightarrow> (remote_peer \<Rightarrow> bool) \<Rightarrow> remote_peer \<Rightarrow> remote_peer \<Rightarrow>
     kad_state \<Rightarrow> store_call list \<times> kad_state" where
  "welcome_if_new find_neighbors is_new source_node peer kd =
     (if is_new peer then send_peer_lists find_neighbors key_peer source_node peer (all_peers_in_lists (kd_lists kd)) else [],
      if is_new peer then kd\<lparr>kd_contacts := kd_contacts kd @ [peer]\<rparr> else kd)"

definition check_in ::
    "(bytes \<Rightarrow> remote_peer res) \<Rightarrow> (remote_peer \<Rightarrow> remote_peer list) \<Rightarrow> (remote_peer \<Rightarrow> bool) \<Rightarrow> remote_peer \<Rightarrow>
     bytes \<Rightarrow> kad_state \<Rightarrow> (remote_peer \<times> store_call list) res \<times> kad_state" where
  "check_in load find_neighbors is_new source_node raw kd =
     (case load raw of
        Inl e \<Rightarrow> (Inl e, kd)
      | Inr s \<Rightarrow> (case welcome_if_new find_neighbors is_new source_node s kd of
          (calls, kd') \<Rightarrow> (Inr (s, calls), kd')))"

section \<open>Remote procedure calls\<close>

datatype rpc_reply =
    RSelf | RBool bool | RNodes "remote_peer list" | RValue pyval | RPeers "bytes list" | RFindNode bytes

text \<open>
  The requests of \<open>RPCReceiver\<close>; every one starts with \<open>_check_in\<close> of the sender. What the bodies
  use besides the protocol's own state: \<open>ex_near p q\<close> is \<open>find_neighbors(p, exclude=q)\<close>, \<open>ex_dock\<close>
  is \<open>Dock.peer_list\<close>, \<open>ex_bytes\<close> is \<open>bytes\<close> on a peer.
\<close>

record kad_env =
  ex_load :: "bytes \<Rightarrow> remote_peer res"
  ex_find_neighbors :: "remote_peer \<Rightarrow> remote_peer list"
  ex_near :: "remote_peer \<Rightarrow> remote_peer \<Rightarrow> remote_peer list"
  ex_is_new :: "remote_peer list \<Rightarrow> remote_peer \<Rightarrow> bool"
  ex_source :: remote_peer
  ex_dock :: peer_dict
  ex_bytes :: "remote_peer \<Rightarrow> bytes res"

datatype rpc_request =
    RpcPing
  | RpcStore bytes pyval
  | RpcFindNode bytes
  | RpcFindValue bytes
  | RpcFindListOfPeers bytes
  | RpcStorePeersInList bytes "pyval list"
  | RpcSearchPeers string

fun map_res :: "('a \<Rightarrow> 'b res) \<Rightarrow> 'a list \<Rightarrow> 'b list res" where
  "map_res f [] = Inr []"
| "map_res f (x # xs) = res_bind (f x) (\<lambda>y. res_bind (map_res f xs) (\<lambda>ys. Inr (y # ys)))"

text \<open>
  What follows the check-in. A miss in \<open>rpc_find_value\<close> and \<open>rpc_find_list_of_peers\<close> goes on with
  \<open>rpc_find_node\<close> (\<open>RFindNode\<close>), which checks the sender in again.
\<close>

fun rpc_body :: "kad_env \<Rightarrow> remote_peer \<Rightarrow> rpc_request \<Rightarrow> kad_state \<Rightarrow> rpc_reply res \<times> kad_state" where
  "rpc_body env sender RpcPing kd = (Inr RSelf, kd)"
| "rpc_body env sender (RpcStore key value) kd =
     (Inr (RBool True), kd\<lparr>kd_values := dset key value (kd_values kd)\<rparr>)"
| "rpc_body env sender (RpcFindNode key) kd = (Inr (RNodes (ex_near env (key_peer key) sender)), kd)"
| "rpc_body env sender (RpcFindValue key) kd =
     (case dget (kd_values kd) key of
        None \<Rightarrow> (Inr (RFindNode key), kd)
      | Some v \<Rightarrow> (Inr (if v = PNone then RFindNode key else RValue v), kd))"
| "rpc_body env sender (RpcFindListOfPeers list_key) kd =
     (case get_list_of_peers list_key (kd_lists kd) of
        None \<Rightarrow> (Inr (RFindNode list_key), kd)
      | Some ps \<Rightarrow> (Inr (RValue (PList ps)), kd))"
| "rpc_body env sender (RpcStorePeersInList list_key ps) kd =
     (case store_peers_in_list list_key ps (kd_lists kd) of
        (r, ls) \<Rightarrow> (map_sum id RBool r, kd\<lparr>kd_lists := ls\<rparr>))"
| "rpc_body env sender (RpcSearchPeers s) kd =
     (map_sum id RPeers (res_bind
        (search_relevant_peers PeerDict_accepts_attributes (ex_dock env) (\<lambda>i. ex_dock env) s)
        (map_res (ex_bytes env))), kd)"

definition checked_in ::
    "kad_env \<Rightarrow> bytes \<Rightarrow> kad_state \<Rightarrow> (remote_peer \<times> store_call list) res \<times> kad_state" where
  "checked_in env raw kd = check_in (ex_load env) (ex_find_neighbors env)
     (ex_is_new env (kd_contacts kd)) (ex_source env) raw kd"

definition rpc :: "kad_env \<Rightarrow> bytes \<Rightarrow> rpc_request \<Rightarrow> kad_state \<Rightarrow> rpc_reply res \<times> kad_state" where
  "rpc env raw req kd =
     (case checked_in env raw kd of
        (Inl e, kd1) \<Rightarrow> (Inl e, kd1)
      | (Inr (s, calls), kd1) \<Rightarrow>
          (case rpc_body env s req kd1 of
             (Inr (RFindNode key), kd2) \<Rightarrow>
               (case checked_in env raw kd2 of
                  (Inl e, kd3) \<Rightarrow> (Inl e, kd3)
                | (Inr (s', calls'), kd3) \<Rightarrow> rpc_body env s' (RpcFindNode key) kd3)
           | r \<Rightarrow> r))"

inductive kad_step :: "kad_env \<Rightarrow> kad_state \<Rightarrow> kad_state \<Rightarrow> bool" for env where
  kad_rpc: "kad_step env kd (snd (rpc env raw req kd))"

definition kad_init :: "kad_state \<Rightarrow> bool" where
  "kad_init kd \<longleftrightarrow> kd = \<lparr>kd_lists = [], kd_values = [], kd_contacts = []\<rparr>"

definition kad_inv :: "kad_state \<Rightarrow> bool" where
  "kad_inv kd \<longleftrightarrow> storage_wf (kd_lists kd)"

lemma rpc_body_inv: "kad_inv kd \<Longrightarrow> kad_inv (snd (rpc_body env s req kd))"
  using store_peers_wf[of "kd_lists kd"]
  by (cases req) (auto simp: kad_inv_def split: option.split prod.split, (metis snd_conv)+)

lemma checked_in_lists: "kd_lists (snd (checked_in env raw kd)) = kd_lists kd"
  by (simp add: checked_in_def check_in_def welcome_if_new_def split: sum.split)

lemma rpc_inv: "kad_inv kd \<Longrightarrow> kad_inv (snd (rpc env raw req kd))"
proof -
  assume kd: "kad_inv kd"
  have ci: "kad_inv kd2" if "checked_in env raw kd1 = (r, kd2)" "kad_inv kd1" for r kd1 kd2
    using checked_in_lists[of env raw kd1] that by (simp add: kad_inv_def)
  have bd: "kad_inv kd2" if "rpc_body env s q kd1 = (r, kd2)" "kad_inv kd1" for r s q kd1 kd2
    using rpc_body_inv[of kd1 env s q] that by simp
  obtain r kd1 where c1: "checked_in env raw kd = (r, kd1)" by fastforce
  show ?thesis
  proof (cases r)
    case (Inl e)
    then show ?thesis using c1 ci[OF c1 kd] by (simp add: rpc_def)
  next
    case (Inr sc)
    obtain s calls where sc: "sc = (s, calls)" by (cases sc)
    obtain r2 kd2 where b2: "rpc_body env s req kd1 = (r2, kd2)" by fastforce
    obtain r3 kd3 where c3: "checked_in env raw kd2 = (r3, kd3)" by fastforce
    have "kad_inv kd2" "kad_inv kd3"
      using ci[OF c1 kd] bd[OF b2] ci[OF c3] by blast+
    then show ?thesis
      using c1 Inr sc b2 c3
      by (auto simp: rpc_def split: sum.split rpc_reply.split prod.split)
  qed
qed

interpretation kad: inv_system kad_init "kad_step env" kad_inv
proof unfold_locales
  show "kad_init kd \<Longrightarrow> kad_inv kd" for kd
    by (simp add: kad_init_def kad_inv_def storage_wf_def dkeys_def)
  show "kad_inv kd \<Longrightarrow> kad_step env kd kd' \<Longrightarrow> kad_inv kd'" for kd kd'
    by (auto elim: kad_step.cases intro: rpc_inv)
qed

text \<open>
  C14. Whatever remote procedure calls a node receives, with whatever senders, keys and values, its
  peer lists stay well formed (only the twenty list ids as keys, no duplicates); and a request to
  find a list answers with exactly the stored list when there is one.
\<close>

theorem kad_lists_wf:
  assumes "reachable kad_init (kad_step env) kd"
  shows "storage_wf (kd_lists kd) \<and>
    (\<forall>raw s calls kd1 k ps. checked_in env raw kd = (Inr (s, calls), kd1) \<longrightarrow>
       get_list_of_peers k (kd_lists kd) = Some ps \<longrightarrow>
       fst (rpc env raw (RpcFindListOfPeers k) kd) = Inr (RValue (PList ps)))"
proof (intro conjI allI impI)
  show "storage_wf (kd_lists kd)"
    using kad.reachable_inv[OF assms] by (simp add: kad_inv_def)
  fix raw s calls kd1 k ps
  assume c: "checked_in env raw kd = (Inr (s, calls), kd1)"
    and "get_list_of_peers k (kd_lists kd) = Some ps"
  then show "fst (rpc env raw (RpcFindListOfPeers k) kd) = Inr (RValue (PList ps))"
    using checked_in_lists[of env raw kd] by (simp add: rpc_def)
qed

theorem kad_lists_wf_witness:
  "\<exists>env. storage_wf (kd_lists (snd (rpc env [] (RpcStorePeersInList (replicate 20 0) [PBytes [7]])
     \<lparr>kd_lists = [], kd_values = [], kd_contacts = []\<rparr>)))"
proof
  let ?env = "\<lparr>ex_load = (\<lambda>b. Inr (key_peer [5])), ex_find_neighbors = (\<lambda>p. []), ex_near = (\<lambda>p q. []),
    ex_is_new = (\<lambda>cs p. p \<notin> set cs), ex_source = key_peer [1], ex_dock = [], ex_bytes = (\<lambda>p. Inr [])\<rparr>"
  show "storage_wf (kd_lists (snd (rpc ?env [] (RpcStorePeersInList (replicate 20 0) [PBytes [7]])
     \<lparr>kd_lists = [], kd_values = [], kd_contacts = []\<rparr>)))"
    by (rule kad_lists_wf[THEN conjunct1],
        rule reachable_one[where s = "\<lparr>kd_lists = [], kd_values = [], kd_contacts = []\<rparr>"])
      (simp add: kad_init_def, rule kad_rpc)
qed


section \<open>PeerServer\<close>

text \<open>
  \<open>store_nodes_in_list\<close>: \<open>spider\<close> is the result of the node crawl for the list id, \<open>call\<close> the answer
  of a remote \<open>store_peers_in_list\<close>; the remote calls are all made before the answers are combined.
\<close>

definition store_nodes_in_list ::
    "(remote_peer \<Rightarrow> remote_peer list) \<Rightarrow> (remote_peer \<Rightarrow> remote_peer list) \<Rightarrow> (remote_peer \<Rightarrow> bool) \<Rightarrow>
     remote_peer \<Rightarrow> bytes \<Rightarrow> bytes list \<Rightarrow> peer_lists \<Rightarrow> bool \<times> store_call list \<times> peer_lists" where
  "store_nodes_in_list find_neighbors spider call me list_key_id peer_objs st =
     (let list_key = key_peer list_key_id; objs = map PBytes peer_objs
      in if find_neighbors list_key = [] then (False, [], st)
         else let relevant_peers = spider list_key;
                  distances = map (\<lambda>n. distance_to n list_key) relevant_peers
              in if distances = [] then (False, [], st)
                 else (list_ex call relevant_peers,
                       map (\<lambda>n. (n, list_key_id, objs)) relevant_peers,
                       if distance_to me list_key < Max (set distances)
                       then snd (store_peers_in_list list_key_id objs st) else st))"

text \<open>\<open>PeerServer.get_remote_peer\<close>: the first peer of the crawl with that id.\<close>

definition kad_get_remote_peer :: "remote_peer list \<Rightarrow> bytes \<Rightarrow> remote_peer option" where
  "kad_get_remote_peer found_peers byte_id = List.find (\<lambda>p. rp_id p = byte_id) found_peers"

text \<open>\<open>peers.get_remote_peer\<close>: \<open>crawl\<close> is the node crawl for a byte id.\<close>

definition get_remote_peer :: "(bytes \<Rightarrow> remote_peer list) \<Rightarrow> string \<Rightarrow> remote_peer option res" where
  "get_remote_peer crawl pid =
     (case convert_peer_id_to_byte_id pid of
        Inl e \<Rightarrow> Inl e
      | Inr byte_id \<Rightarrow> Inr (kad_get_remote_peer (crawl byte_id) byte_id))"

text \<open>
  \<open>get_remote_peer_at_every_cost\<close>: the network is asked only when \<open>get_peer\<close> raises \<open>KeyError\<close>;
  \<open>get_peer\<close> answers \<open>None\<close> for an unknown id instead.
\<close>

definition dock_get_peer :: "peer_dict \<Rightarrow> string \<Rightarrow> remote_peer option res" where
  "dock_get_peer d pid = Inr (get_peer d pid)"

definition get_remote_peer_at_every_cost ::
    "(bytes \<Rightarrow> remote_peer list) \<Rightarrow> peer_dict \<Rightarrow> string \<Rightarrow> remote_peer option res" where
  "get_remote_peer_at_every_cost crawl d pid =
     (case dock_get_peer d pid of
        Inl e \<Rightarrow> if e = KeyError then get_remote_peer crawl pid else Inl e
      | Inr p \<Rightarrow> Inr p)"

definition is_bootstrapped :: "bytes list list \<Rightarrow> bool" where
  "is_bootstrapped buckets = list_ex (\<lambda>nodes. list_ex (\<lambda>i. i \<noteq> []) nodes) buckets"

definition may_be_remove :: "remote_peer \<Rightarrow> bool \<Rightarrow> remote_peer" where
  "may_be_remove peer what = (if \<not> what then peer\<lparr>rp_status := OFFLINE\<rparr> else peer)"

definition new_peer :: "remote_peer \<Rightarrow> peer_dict \<Rightarrow> peer_dict" where
  "new_peer peer d = add_peer peer d"

text \<open>
  Looking a peer up by its textual id does not work for the network's 20-byte ids: the search
  in the network returns nobody, or fails, for every such peer even when the crawl finds it; and
  \<open>get_remote_peer_at_every_cost\<close> never searches the network, it answers from the local
  dictionary alone.
\<close>

theorem peer_lookup_by_id:
  assumes "peer_wf p" and "length (rp_id p) = 20"
    and "\<And>b q. q \<in> set (crawl b) \<Longrightarrow> length (rp_id q) = 20"
  shows "get_remote_peer crawl (peer_id p) \<in> {Inr None, Inl OverflowError} \<and>
    get_remote_peer_at_every_cost crawl d pid = Inr (dget d pid)"
proof
  have "kad_get_remote_peer (crawl (be_encode 16 n)) (be_encode 16 n) = None" for n
  proof -
    have "\<not> (\<exists>q\<in>set (crawl (be_encode 16 n)). rp_id q = be_encode 16 n)"
      using assms(3) length_be_encode[of 16 n] by fastforce
    then show ?thesis
      by (auto simp: kad_get_remote_peer_def find_None_iff)
  qed
  then show "get_remote_peer crawl (peer_id p) \<in> {Inr None, Inl OverflowError}"
    by (simp add: get_remote_peer_def convert_peer_id_to_byte_id_def peer_id_def)
  show "get_remote_peer_at_every_cost crawl d pid = Inr (dget d pid)"
    by (simp add: get_remote_peer_at_every_cost_def dock_get_peer_def get_peer_def)
qed

theorem peer_lookup_by_id_witness:
  "get_remote_peer_at_every_cost (\<lambda>b. [key_peer (replicate 20 7)]) [] ''5'' = Inr None"
  using peer_lookup_by_id[of "key_peer (replicate 20 7)" "\<lambda>b. [key_peer (replicate 20 7)]" "[]" "''5''",
      THEN conjunct2]
  by (simp add: peer_wf_def key_peer_def)

subsection \<open>Handing lists over\<close>

lemma send_peer_lists_set:
  "(q, k, xs) \<in> set (send_peer_lists fn mk me peer ls) \<longleftrightarrow>
     q = peer \<and> (\<exists>ps i. (k, ps) \<in> set ls \<and> i \<in> set ps \<and> xs = [i] \<and> handover_lists fn me peer (mk k))"
  by (induction ls) (auto, blast)

lemma send_peer_lists_length:
  "length (send_peer_lists fn mk me peer ls) =
     sum_list (map (\<lambda>(k, ps). if handover_lists fn me peer (mk k) then length ps else 0) ls)"
  by (induction ls) auto

text \<open>
  When a new peer is welcomed it is sent, one entry per call, every entry of exactly those lists
  for which this node knows no neighbour of the list id, or is itself closer to it than its closest
  known neighbour while the new peer is closer than the farthest one; a known peer is sent nothing.
\<close>

theorem welcome_handover:
  "(\<forall>q k xs. (q, k, xs) \<in> set (fst (welcome_if_new fn is_new me peer kd)) \<longleftrightarrow>
     is_new peer \<and> q = peer \<and>
     (\<exists>ps i. (k, ps) \<in> set (kd_lists kd) \<and> i \<in> set ps \<and> xs = [i] \<and>
        (fn (key_peer k) = [] \<or>
         (distance_to peer (key_peer k) < distance_to (last (fn (key_peer k))) (key_peer k) \<and>
          distance_to me (key_peer k) < distance_to (hd (fn (key_peer k))) (key_peer k))))) \<and>
   kd_lists (snd (welcome_if_new fn is_new me peer kd)) = kd_lists kd"
  unfolding welcome_if_new_def
  by (auto simp: send_peer_lists_set handover_lists_def Let_def all_peers_in_lists_def)

end
