(* ===== verification/Front_End.thy ===== *)
theory Front_End
  imports Dispatch "HOL-Library.Multiset"
begin

text \<open>
  The connection to the web page, \<open>src/webpage_handlers/pagehandle.py\<close> and the two dispatchers of
  \<open>handledata.py\<close> and \<open>handlesignals.py\<close>: messages to the page go through one
  \<open>FrontEndWebSocketDispatcher\<close> per kind, which buffers while there is no web socket; messages from
  the page are checked and dispatched.

  \<open>wd_net\<close> schedules the outcomes of the successive \<open>transport.send\<close> calls (\<open>False\<close> is a
  \<open>WebSocketException\<close>; when it is used up every call succeeds), \<open>wd_sent\<close> is what has gone out.
  The message type is a parameter.
\<close>

section \<open>A bounded deque\<close>

definition deque_append :: "nat \<Rightarrow> 'a \<Rightarrow> 'a list \<Rightarrow> 'a list" where
  "deque_append maxlen x xs = (if maxlen = 0 then [] else if length xs < maxlen then xs @ [x] else tl xs @ [x])"

definition deque_appendleft :: "nat \<Rightarrow> 'a \<Rightarrow> 'a list \<Rightarrow> 'a list" where
  "deque_appendleft maxlen x xs = (if maxlen = 0 then [] else if length xs < maxlen then x # xs else x # butlast xs)"

section \<open>FrontEndWebSocketDispatcher\<close>

definition MAX_FRONTEND_MESSAGE_BUFFER_LEN :: nat where "MAX_FRONTEND_MESSAGE_BUFFER_LEN = 1000"

record 'm ws_dispatcher =
  wd_max_buffer_size :: nat
  wd_buffer :: "'m list"
  wd_is_transport_connected :: bool
  wd_net :: "bool list"
  wd_sent :: "'m list"

definition FrontEndWebSocketDispatcher :: "bool \<Rightarrow> nat \<Rightarrow> 'm ws_dispatcher" where
  "FrontEndWebSocketDispatcher transport buffer_size =
     \<lparr>wd_max_buffer_size = buffer_size, wd_buffer = [], wd_is_transport_connected = transport, wd_net = [],
      wd_sent = []\<rparr>"

definition update_transport :: "bool list \<Rightarrow> 'm ws_dispatcher \<Rightarrow> 'm ws_dispatcher" where
  "update_transport net d = d\<lparr>wd_is_transport_connected := True, wd_net := net\<rparr>"

definition ws_send :: "'m \<Rightarrow> 'm ws_dispatcher \<Rightarrow> unit res \<times> 'm ws_dispatcher" where
  "ws_send data d = (case wd_net d of
     [] \<Rightarrow> (Inr (), d\<lparr>wd_sent := wd_sent d @ [data]\<rparr>)
   | True # net \<Rightarrow> (Inr (), d\<lparr>wd_sent := wd_sent d @ [data], wd_net := net\<rparr>)
   | False # net \<Rightarrow> (Inl WebSocketException, d\<lparr>wd_net := net\<rparr>))"

definition handle_buffer_and_log :: "'m ws_dispatcher \<Rightarrow> 'm ws_dispatcher" where
  "handle_buffer_and_log d =
     (if length (wd_buffer d) \<ge> wd_max_buffer_size d then d\<lparr>wd_buffer := tl (wd_buffer d)\<rparr> else d)"

text \<open>\<open>_send_buffer\<close>, by recursion on the buffer that is still to be sent.\<close>

fun send_buffer_loop :: "'m list \<Rightarrow> 'm ws_dispatcher \<Rightarrow> unit res \<times> 'm ws_dispatcher" where
  "send_buffer_loop [] d = (Inr (), d\<lparr>wd_buffer := []\<rparr>)"
| "send_buffer_loop (msg # rest) d =
     (case ws_send msg (d\<lparr>wd_buffer := rest\<rparr>) of
        (Inr _, d1) \<Rightarrow> send_buffer_loop rest d1
      | (Inl e, d1) \<Rightarrow>
          if e = WebSocketException
          then (let d2 = handle_buffer_and_log (d1\<lparr>wd_is_transport_connected := False\<rparr>)
                in (Inl TransferIncomplete,
                    d2\<lparr>wd_buffer := deque_appendleft (wd_max_buffer_size d2) msg (wd_buffer d2)\<rparr>))
          else (Inl e, d1))"

definition send_buffer :: "'m ws_dispatcher \<Rightarrow> unit res \<times> 'm ws_dispatcher" where
  "send_buffer d = send_buffer_loop (wd_buffer d) d"

definition ws_submit :: "'m \<Rightarrow> 'm ws_dispatcher \<Rightarrow> unit res \<times> 'm ws_dispatcher" where
  "ws_submit data d =
     (if \<not> wd_is_transport_connected d
      then (Inr (), d\<lparr>wd_buffer := deque_append (wd_max_buffer_size d) data (wd_buffer d)\<rparr>)
      else case ws_send data d of
        (Inr _, d1) \<Rightarrow> send_buffer d1
      | (Inl e, d1) \<Rightarrow>
          if e = WebSocketException
          then (let d2 = handle_buffer_and_log (d1\<lparr>wd_is_transport_connected := False\<rparr>)
                in (Inl TransferIncomplete,
                    d2\<lparr>wd_buffer := deque_append (wd_max_buffer_size d2) data (wd_buffer d2)\<rparr>))
          else (Inl e, d1))"

subsection \<open>Its properties\<close>

definition ws_ok :: "'m ws_dispatcher \<Rightarrow> bool" where
  "ws_ok d \<longleftrightarrow> 0 < wd_max_buffer_size d \<and> length (wd_buffer d) \<le> wd_max_buffer_size d"

text \<open>What the dispatcher has to account for: the messages sent and the ones it still holds.\<close>

definition ws_messages :: "'m ws_dispatcher \<Rightarrow> 'm multiset" where
  "ws_messages d = mset (wd_sent d) + mset (wd_buffer d)"

lemma send_buffer_loop_spec:
  assumes "0 < wd_max_buffer_size d" "length buf \<le> wd_max_buffer_size d"
  shows "\<exists>k \<le> length buf. wd_sent (snd (send_buffer_loop buf d)) = wd_sent d @ take k buf \<and>
    wd_buffer (snd (send_buffer_loop buf d)) = drop k buf \<and>
    wd_max_buffer_size (snd (send_buffer_loop buf d)) = wd_max_buffer_size d \<and>
    (fst (send_buffer_loop buf d) = Inr () \<longleftrightarrow> k = length buf) \<and>
    (fst (send_buffer_loop buf d) \<noteq> Inr () \<longrightarrow> fst (send_buffer_loop buf d) = Inl TransferIncomplete \<and>
       \<not> wd_is_transport_connected (snd (send_buffer_loop buf d))) \<and>
    (k = length buf \<longrightarrow> wd_is_transport_connected (snd (send_buffer_loop buf d)) = wd_is_transport_connected d)"
  using assms
proof (induction buf arbitrary: d)
  case Nil
  then show ?case by simp
next
  case (Cons m buf)
  show ?case
  proof (cases "wd_net d = [] \<or> hd (wd_net d)")
    case True
    let ?d = "d\<lparr>wd_buffer := buf, wd_sent := wd_sent d @ [m], wd_net := tl (wd_net d)\<rparr>"
    have "ws_send m (d\<lparr>wd_buffer := buf\<rparr>) = (Inr (), ?d)"
      using True by (cases "wd_net d") (auto simp: ws_send_def)
    then have loop: "send_buffer_loop (m # buf) d = send_buffer_loop buf ?d" by simp
    from Cons.IH[of ?d] Cons.prems obtain k where "k \<le> length buf"
      "wd_sent (snd (send_buffer_loop buf ?d)) = wd_sent ?d @ take k buf"
      "wd_buffer (snd (send_buffer_loop buf ?d)) = drop k buf"
      "wd_max_buffer_size (snd (send_buffer_loop buf ?d)) = wd_max_buffer_size ?d"
      "fst (send_buffer_loop buf ?d) = Inr () \<longleftrightarrow> k = length buf"
      "fst (send_buffer_loop buf ?d) \<noteq> Inr () \<longrightarrow> fst (send_buffer_loop buf ?d) = Inl TransferIncomplete \<and>
       \<not> wd_is_transport_connected (snd (send_buffer_loop buf ?d))"
      "k = length buf \<longrightarrow> wd_is_transport_connected (snd (send_buffer_loop buf ?d)) = wd_is_transport_connected ?d"
      by auto
    then show ?thesis
      unfolding loop by (intro exI[of _ "Suc k"]) simp
  next
    case False
    then obtain net where "wd_net d = False # net" by (cases "wd_net d") auto
    then show ?thesis
      using Cons.prems
      by (intro exI[of _ 0]) (simp add: ws_send_def handle_buffer_and_log_def deque_appendleft_def Let_def)
  qed
qed

text \<open>Whether the next \<open>transport.send\<close> of a connected dispatcher succeeds.\<close>

definition ws_reachable :: "'m ws_dispatcher \<Rightarrow> bool" where
  "ws_reachable d \<longleftrightarrow> wd_is_transport_connected d \<and> (wd_net d = [] \<or> hd (wd_net d))"

lemma ws_submit_reachable:
  assumes "ws_ok d" "ws_reachable d"
  shows "\<exists>k \<le> length (wd_buffer d). wd_sent (snd (ws_submit x d)) = wd_sent d @ x # take k (wd_buffer d) \<and>
    wd_buffer (snd (ws_submit x d)) = drop k (wd_buffer d) \<and>
    wd_max_buffer_size (snd (ws_submit x d)) = wd_max_buffer_size d \<and>
    (fst (ws_submit x d) = Inr () \<longleftrightarrow> k = length (wd_buffer d)) \<and>
    (fst (ws_submit x d) \<noteq> Inr () \<longrightarrow> fst (ws_submit x d) = Inl TransferIncomplete)"
proof -
  define e where "e = d\<lparr>wd_sent := wd_sent d @ [x], wd_net := tl (wd_net d)\<rparr>"
  have e: "wd_sent e = wd_sent d @ [x]" "wd_max_buffer_size e = wd_max_buffer_size d" "wd_buffer e = wd_buffer d"
    by (simp_all add: e_def)
  have "ws_send x d = (Inr (), e)"
    using assms(2) by (cases "wd_net d") (auto simp: ws_send_def ws_reachable_def e_def)
  then have loop: "ws_submit x d = send_buffer_loop (wd_buffer d) e"
    using assms(2) by (simp add: ws_submit_def ws_reachable_def send_buffer_def e)
  have "0 < wd_max_buffer_size e" "length (wd_buffer d) \<le> wd_max_buffer_size e"
    using assms(1) by (simp_all add: ws_ok_def e)
  from send_buffer_loop_spec[OF this] show ?thesis
    unfolding loop by (auto simp: e)
qed

lemma ws_submit_unreachable:
  assumes "ws_ok d" "\<not> ws_reachable d"
  shows "wd_sent (snd (ws_submit x d)) = wd_sent d" "wd_max_buffer_size (snd (ws_submit x d)) = wd_max_buffer_size d"
    "wd_buffer (snd (ws_submit x d)) = (if length (wd_buffer d) < wd_max_buffer_size d then wd_buffer d @ [x] else tl (wd_buffer d) @ [x])"
    "fst (ws_submit x d) = (if wd_is_transport_connected d then Inl TransferIncomplete else Inr ())"
proof -
  have "(\<not> wd_is_transport_connected d) \<or> (\<exists>net. wd_net d = False # net)"
    using assms(2) by (cases "wd_net d") (auto simp: ws_reachable_def)
  then show "wd_sent (snd (ws_submit x d)) = wd_sent d" "wd_max_buffer_size (snd (ws_submit x d)) = wd_max_buffer_size d"
    "wd_buffer (snd (ws_submit x d)) = (if length (wd_buffer d) < wd_max_buffer_size d then wd_buffer d @ [x] else tl (wd_buffer d) @ [x])"
    "fst (ws_submit x d) = (if wd_is_transport_connected d then Inl TransferIncomplete else Inr ())"
    using assms(1)
    by (auto simp: ws_submit_def ws_send_def handle_buffer_and_log_def deque_append_def ws_ok_def Let_def)
qed

lemma front_end_no_loss_messages:
  assumes "ws_ok d" "length (wd_buffer d) < wd_max_buffer_size d"
  shows "ws_messages (snd (ws_submit x d)) = add_mset x (ws_messages d)"
proof (cases "ws_reachable d")
  case True
  from ws_submit_reachable[OF assms(1) True, of x] obtain k where
    "wd_sent (snd (ws_submit x d)) = wd_sent d @ x # take k (wd_buffer d)"
    "wd_buffer (snd (ws_submit x d)) = drop k (wd_buffer d)" by metis
  moreover have "mset (take k (wd_buffer d)) + mset (drop k (wd_buffer d)) = mset (wd_buffer d)"
    by (metis append_take_drop_id mset_append)
  ultimately show ?thesis by (simp add: ws_messages_def)
next
  case False
  then show ?thesis using ws_submit_unreachable[OF assms(1) False, of x] assms(2) by (simp add: ws_messages_def)
qed

lemma ws_submit_outcome: "ws_ok d \<Longrightarrow> fst (ws_submit x d) \<in> {Inr (), Inl TransferIncomplete}"
  using ws_submit_reachable[of d x] ws_submit_unreachable(4)[of d x] by (cases "ws_reachable d") auto



section \<open>FrontEndDispatcher\<close>

text \<open>
  \<open>DataWeaver.type\<close>: \<open>str(header[0])\<close>, the first character of a text and the decimal code of the
  first byte of a byte string. Headers that are lists do not occur.
\<close>

definition weaver_type :: "weaver \<Rightarrow> string res" where
  "weaver_type w = (case fst (weaver_getitem w ''header'') of
     Inl e \<Rightarrow> Inl e
   | Inr (PStr s) \<Rightarrow> (case s of [] \<Rightarrow> Inl IndexError | c # cs \<Rightarrow> Inr [c])
   | Inr (PBytes s) \<Rightarrow> (case s of [] \<Rightarrow> Inl IndexError | b # bs \<Rightarrow> Inr (str_of_nat (unat b)))
   | Inr _ \<Rightarrow> Inl TypeError)"

type_synonym 'm front_end = "(string, 'm ws_dispatcher) pydict"

definition add_dispatcher :: "string \<Rightarrow> 'm ws_dispatcher list \<Rightarrow> 'm front_end \<Rightarrow> 'm front_end" where
  "add_dispatcher type_code dispatchers fe = fold (\<lambda>d. dset type_code d) dispatchers fe"

definition get_dispatcher :: "string \<Rightarrow> 'm front_end \<Rightarrow> 'm ws_dispatcher option" where
  "get_dispatcher type_code fe = dget fe type_code"

text \<open>\<open>submit\<close>: the kind of a message selects its dispatcher; a message that cannot be sent is only logged.\<close>

definition FrontEndDispatcher_submit :: "weaver \<Rightarrow> weaver front_end \<Rightarrow> unit res \<times> weaver front_end" where
  "FrontEndDispatcher_submit msg_packet fe =
     (case weaver_type msg_packet of
        Inl e \<Rightarrow> (Inl e, fe)
      | Inr typ \<Rightarrow>
          (case dget fe typ of
             None \<Rightarrow> (Inl KeyError, fe)
           | Some d \<Rightarrow>
               (case ws_submit msg_packet d of
                  (out, d') \<Rightarrow> (if out = Inl TransferIncomplete then Inr () else out, dset typ d' fe))))"

text \<open>
  \<open>validate_connection\<close>: the first message of a web socket names its kind. \<open>first\<close> is the message, an
  error when the wait timed out; \<open>net\<close> is the new web socket.
\<close>

definition validate_connection ::
    "(string \<Rightarrow> (string, pyval) pydict res) \<Rightarrow> string res \<Rightarrow> bool list \<Rightarrow> weaver front_end \<Rightarrow> unit res \<times> weaver front_end" where
  "validate_connection json_loads first net fe =
     (case first of
        Inl e \<Rightarrow> (Inl (if e = TimeoutError then ConnectionError else e), fe)
      | Inr wire_data \<Rightarrow>
          (case DataWeaver_serial json_loads wire_data of
             Inl e \<Rightarrow> (Inl e, fe)
           | Inr verification \<Rightarrow>
               (case weaver_type verification of
                  Inl e \<Rightarrow> (Inl e, fe)
                | Inr typ \<Rightarrow>
                    (case get_dispatcher typ fe of
                       Some disp \<Rightarrow> (Inr (), dset typ (update_transport net disp) fe)
                     | None \<Rightarrow>
                         (Inr (), add_dispatcher typ
                            [update_transport net (FrontEndWebSocketDispatcher True MAX_FRONTEND_MESSAGE_BUFFER_LEN)] fe)))))"

lemma validated_connection_reachable:
  assumes "DataWeaver_serial json_loads t = Inr w" "weaver_type w = Inr typ"
  shows "\<exists>d. dget (snd (validate_connection json_loads (Inr t) [] fe)) typ = Some d \<and> ws_reachable d \<and>
    (\<forall>d0. dget fe typ = Some d0 \<longrightarrow> wd_buffer d = wd_buffer d0 \<and> wd_sent d = wd_sent d0)"
  using assms
  by (cases "dget fe typ")
    (auto simp: validate_connection_def get_dispatcher_def add_dispatcher_def update_transport_def ws_reachable_def)

section \<open>Messages from the page\<close>

text \<open>
  \<open>ReplyRegistryMixIn.is_registered\<close> reads the attribute \<open>id\<close> of its argument. The dispatcher passes
  the message id itself, a JSON value, which has no such attribute.
\<close>

definition is_registered_value :: "(pyval, weaver) registry \<Rightarrow> pyval \<Rightarrow> bool res" where
  "is_registered_value reg v = Inl AttributeError"

text \<open>\<open>MessageFromFrontEndDispatcher.submit\<close> with the registry of its handlers, which work on \<open>'s\<close>.\<close>

definition MessageFromFrontEnd_submit ::
    "(string, weaver \<Rightarrow> 's \<Rightarrow> unit res \<times> 's) pydict \<Rightarrow> weaver \<Rightarrow> (pyval, weaver) registry \<times> 's \<Rightarrow>
     unit res \<times> (pyval, weaver) registry \<times> 's" where
  "MessageFromFrontEnd_submit handlers w st =
     (case fst (weaver_getitem w ''msgId'') of
        Inl e \<Rightarrow> (Inl e, st)
      | Inr v \<Rightarrow>
          (case is_registered_value (fst st) v of
             Inl e \<Rightarrow> (Inl e, st)
           | Inr True \<Rightarrow> (Inr (), msg_arrived (\<lambda>m. v) w (fst st), snd st)
           | Inr False \<Rightarrow>
               (case weaver_type w of
                  Inl e \<Rightarrow> (Inl e, st)
                | Inr typ \<Rightarrow>
                    (case dget handlers typ of
                       None \<Rightarrow> (Inl KeyError, st)
                     | Some h \<Rightarrow> (case h w (snd st) of (out, s') \<Rightarrow> (out, fst st, s'))))))"

text \<open>\<open>handle_client\<close> after the validation, over the messages of the web socket.\<close>

fun handle_client ::
    "(string \<Rightarrow> (string, pyval) pydict res) \<Rightarrow> (weaver \<Rightarrow> 't \<Rightarrow> unit res \<times> 't) \<Rightarrow> string list \<Rightarrow>
     task_group \<times> 't \<Rightarrow> unit res \<times> task_group \<times> 't" where
  "handle_client json_loads submit [] st = (Inr (), st)"
| "handle_client json_loads submit (data # rest) st =
     (case DataWeaver_serial json_loads data of
        Inl e \<Rightarrow> (Inl e, st)
      | Inr parsed_data \<Rightarrow>
          (case field_check parsed_data of
             Inl e \<Rightarrow> if e = InvalidPacket then handle_client json_loads submit rest st else (Inl e, st)
           | Inr _ \<Rightarrow>
               if tg_aborting (fst st) then (Inl RuntimeError, st)
               else handle_client json_loads submit rest (snd (queue_call submit parsed_data st))))"

text \<open>\<open>FrontEndDataDispatcher.submit\<close> and \<open>FrontEndSignalDispatcher.submit\<close>: every \<open>Exception\<close> is logged and dropped.\<close>

definition page_submit ::
    "(pyval, weaver \<Rightarrow> 's \<Rightarrow> unit res \<times> 's) pydict \<Rightarrow> weaver \<Rightarrow> 's \<Rightarrow> unit res \<times> 's" where
  "page_submit registry w s =
     (case fst (weaver_getitem w ''header'') of
        Inl e \<Rightarrow> (Inr (), s)
      | Inr header \<Rightarrow>
          (case dget registry header of
             None \<Rightarrow> (Inr (), s)
           | Some h \<Rightarrow> (case h w s of (out, s') \<Rightarrow> (if out = Inl CancelledError then out else Inr (), s'))))"

lemma page_submit_never_raises:
  "fst (page_submit registry w s) = Inr () \<or> fst (page_submit registry w s) = Inl CancelledError"
  by (auto simp: page_submit_def split: sum.split option.split prod.split)

definition CMD_TEXT :: bytes where
  "CMD_TEXT = [0x74, 0x68, 0x69, 0x73, 0x20, 0x69, 0x73, 0x20, 0x6D, 0x65, 0x73, 0x73, 0x61, 0x67, 0x65, 0x20]"

text \<open>\<open>MessageHandler\<close>: a text message of a peer becomes a message to the page.\<close>

definition MessageHandler :: "wire_data \<Rightarrow> weaver res" where
  "MessageHandler w = map_sum id (\<lambda>m. DataWeaver_fields (w_header w) m (w_peer_id w) PNone (PInt 1))
     (WireData_getitem w ''message'')"

text \<open>
  Neither direction works as it is wired. Whatever well-formed message the page sends, its
  dispatch raises \<open>AttributeError\<close> before any handler runs, which leaves the handlers' state
  untouched and shuts the dispatcher's task group down, so that the next message ends the web
  socket's handler with \<open>RuntimeError\<close>. And a text message of a peer has a byte-string header, whose
  type is no kind the page's dispatcher knows: it is refused with \<open>KeyError\<close>.
\<close>

theorem front_end_dispatch_broken:
  assumes "DataWeaver_serial json_loads t = Inr w" "field_check w = Inr ()"
    and "DataWeaver_serial json_loads t' = Inr w'" "field_check w' = Inr ()"
    and "\<not> tg_aborting (fst st)" "tg_parent_running (fst st)"
    and "WireData_getitem msg ''message'' = Inr m" "w_header msg = PBytes CMD_TEXT"
    and "\<not> dmem ''116'' fe"
  shows "handle_client json_loads (MessageFromFrontEnd_submit handlers) (t # t' # rest) st =
      (Inl RuntimeError, (fst st)\<lparr>tg_aborting := True\<rparr>, snd st) \<and>
    (\<exists>page_msg. MessageHandler msg = Inr page_msg \<and> FrontEndDispatcher_submit page_msg fe = (Inl KeyError, fe))"
proof -
  have "dmem ''msgId'' (wv_data w)"
    using assms(2) by (simp add: field_check_def split: if_splits)
  then obtain v where "fst (weaver_getitem w ''msgId'') = Inr v"
    by (auto simp: weaver_getitem_def dmem_iff)
  then have "MessageFromFrontEnd_submit handlers w s = (Inl AttributeError, s)" for s
    by (simp add: MessageFromFrontEnd_submit_def is_registered_value_def)
  then have "queue_call (MessageFromFrontEnd_submit handlers) w st =
      (Inl AttributeError, (fst st)\<lparr>tg_aborting := True\<rparr>, snd st)"
    using assms(5,6) by (simp add: queue_call_def task_done_def)
  then have 1: "handle_client json_loads (MessageFromFrontEnd_submit handlers) (t # t' # rest) st =
      (Inl RuntimeError, (fst st)\<lparr>tg_aborting := True\<rparr>, snd st)"
    using assms(1-6) by simp
  let ?m = "DataWeaver_fields (w_header msg) m (w_peer_id msg) PNone (PInt 1)"
  have "str_of_nat 116 = ''116''"
    by code_simp
  then have "weaver_type ?m = Inr ''116''"
    using assms(8) by (simp add: weaver_type_def weaver_getitem_def DataWeaver_fields_def CMD_TEXT_def)
  then have "FrontEndDispatcher_submit ?m fe = (Inl KeyError, fe)"
    using assms(9) by (simp add: FrontEndDispatcher_submit_def dmem_iff)
  moreover have "MessageHandler msg = Inr ?m"
    using assms(7) by (simp add: MessageHandler_def)
  ultimately show ?thesis using 1 by blast
qed

theorem front_end_dispatch_broken_witness:
  "fst (handle_client (\<lambda>t. Inr [(''msgId'', PInt 1), (''content'', PNone), (''header'', PStr ''0x''), (''peerId'', PNone)])
      (MessageFromFrontEnd_submit [(''0'', \<lambda>w s. (Inr (), s + 1 :: nat))]) [''m'', ''m'']
      (\<lparr>tg_aborting = False, tg_parent_running = True\<rparr>, empty_registry, 0)) = Inl RuntimeError"
proof -
  let ?d = "[(''msgId'', PInt 1), (''content'', PNone), (''header'', PStr ''0x''), (''peerId'', PNone)]"
  have s: "DataWeaver_serial (\<lambda>t. Inr ?d) ''m'' = Inr \<lparr>wv_data = ?d, wv_default = False\<rparr>"
    by (simp add: DataWeaver_serial_def)
  have f: "field_check \<lparr>wv_data = ?d, wv_default = False\<rparr> = Inr ()"
    by (simp add: field_check_def dmem_def dkeys_def)
  have m: "WireData_getitem (WireData (PBytes CMD_TEXT) PNone PNone PNone [(''message'', PNone)]) ''message'' = Inr PNone"
    by (simp add: WireData_getitem_def WireData_def)
  have h: "w_header (WireData (PBytes CMD_TEXT) PNone PNone PNone [(''message'', PNone)]) = PBytes CMD_TEXT"
    by (simp add: WireData_def)
  let ?st = "(\<lparr>tg_aborting = False, tg_parent_running = True\<rparr>, empty_registry, 0 :: nat)"
  have st: "\<not> tg_aborting (fst ?st)" "tg_parent_running (fst ?st)" by simp_all
  from front_end_dispatch_broken[OF s f s f st m h dmem_empty, of "[(''0'', \<lambda>w s. (Inr (), s + 1))]" "[]"]
  show ?thesis by simp
qed

end
