(* ===== verification/Page.thy ===== *)
theory Page
  imports Front_End Remote_Peer
begin

text \<open>
  The messages between the program and its page: \<open>src/webpage_handlers/webpage.py\<close>,
  \<open>headers.py\<close>, the wiring at the end of \<open>pagehandle.py\<close> and the handlers of \<open>handledata.py\<close> and
  \<open>handlesignals.py\<close>, over the dispatchers of theory Front_End.

  Managers that the handlers call are functions of an environment. A future is its index in the
  registry's heap.
\<close>

section \<open>Headers\<close>

datatype page_handle =
    SIGNALS | DATA | COMMAND | SEARCH_RESPONSE | SEND_PEER_LIST_RESPONSE | RELOAD | POP_DIR_SELECTOR | OPEN_FILE
  | NEW_PEER | REMOVE_PEER | SEARCH_FOR_NAME | SEND_PROFILES | PEER_LIST | SYNC_USERS | CONNECT_USER
  | SEND_PEER_LIST | VERIFICATION | SET_PROFILE | TRANSFER_UPDATE | FAILED_TO_REACH
  | REQ_PEER_NAME_FOR_DISCOVERY | SEND_DIR | SEND_FILE | SEND_TEXT | SEND_FILE_TO_MULTIPLE_PEERS
  | SEND_DIR_TO_MULTIPLE_PEERS | REQ_FOR_FILE_TRANSFER

fun handle_text :: "page_handle \<Rightarrow> string" where
  "handle_text SIGNALS = ''1''"
| "handle_text DATA = ''0''"
| "handle_text COMMAND = ''this is command ''"
| "handle_text SEARCH_RESPONSE = ''0result for search name''"
| "handle_text SEND_PEER_LIST_RESPONSE = ''0result for send peer list''"
| "handle_text RELOAD = ''1this is reload  ''"
| "handle_text POP_DIR_SELECTOR = ''1pop dir selector''"
| "handle_text OPEN_FILE = ''1open file       ''"
| "handle_text NEW_PEER = ''1new peer''"
| "handle_text REMOVE_PEER = ''1remove peer''"
| "handle_text SEARCH_FOR_NAME = ''1search name''"
| "handle_text SEND_PROFILES = ''1send profiles''"
| "handle_text PEER_LIST = ''1this is a profiles list''"
| "handle_text SYNC_USERS = ''1sync users''"
| "handle_text CONNECT_USER = ''1connect_peer''"
| "handle_text SEND_PEER_LIST = ''1send peer list''"
| "handle_text VERIFICATION = ''1han verification''"
| "handle_text SET_PROFILE = ''1set selected profile''"
| "handle_text TRANSFER_UPDATE = ''1transfer update''"
| "handle_text FAILED_TO_REACH = ''1failed to reach''"
| "handle_text REQ_PEER_NAME_FOR_DISCOVERY = ''1get a peer name for discovery''"
| "handle_text SEND_DIR = ''0send_a_directory''"
| "handle_text SEND_FILE = ''0send_file_to_peer''"
| "handle_text SEND_TEXT = ''0send_text''"
| "handle_text SEND_FILE_TO_MULTIPLE_PEERS = ''0send_file_to_multiple_peers''"
| "handle_text SEND_DIR_TO_MULTIPLE_PEERS = ''0send_dir_to_multiple_peers''"
| "handle_text REQ_FOR_FILE_TRANSFER = ''0a file recv request has been arrived''"

section \<open>The dispatchers of the page\<close>

text \<open>
  \<open>FrontEndDispatcher\<close> with its task group, and \<open>MessageFromFrontEndDispatcher\<close>, a singleton that
  exists once \<open>initiate_page_handle\<close> has made it, with the counter of message ids.
\<close>

record page =
  pg_group :: task_group
  pg_front :: "weaver front_end"
  pg_registry :: "(pyval, weaver) registry option"
  pg_ids :: nat

definition no_page :: page where
  "no_page = \<lparr>pg_group = \<lparr>tg_aborting = False, tg_parent_running = True\<rparr>, pg_front = [], pg_registry = None, pg_ids = 0\<rparr>"

definition initiate_page_handle :: "page \<Rightarrow> page" where
  "initiate_page_handle st = st\<lparr>
     pg_front := add_dispatcher (handle_text SIGNALS) [FrontEndWebSocketDispatcher False MAX_FRONTEND_MESSAGE_BUFFER_LEN]
       (add_dispatcher (handle_text DATA) [FrontEndWebSocketDispatcher False MAX_FRONTEND_MESSAGE_BUFFER_LEN] (pg_front st)),
     pg_registry := (case pg_registry st of None \<Rightarrow> Some empty_registry | Some r \<Rightarrow> Some r)\<rparr>"

text \<open>\<open>ReplyRegistry.register_reply\<close>: the message gets a new id.\<close>

definition register_message :: "weaver \<Rightarrow> nat \<Rightarrow> (pyval, weaver) registry \<Rightarrow> nat \<times> weaver \<times> nat \<times> (pyval, weaver) registry" where
  "register_message data_weaver ids reg =
     (let (i, ids') = id_factory ids; (f, reg') = register_reply (PStr i) reg
      in (f, weaver_setitem data_weaver ''msgId'' (PStr i), ids', reg'))"

text \<open>
  \<open>front_end_data_dispatcher\<close>: with \<open>expect_reply\<close> the future of the registered reply; otherwise the
  message goes to the page as a task.
\<close>

definition front_end_data_dispatcher :: "weaver \<Rightarrow> bool \<Rightarrow> page \<Rightarrow> (nat option) res \<times> page" where
  "front_end_data_dispatcher data expect_reply st =
     (case pg_registry st of
        None \<Rightarrow> (Inl TypeError, st)
      | Some reg \<Rightarrow>
          if expect_reply then
            (case register_message data (pg_ids st) reg of
               (f, _, ids, reg') \<Rightarrow> (Inr (Some f), st\<lparr>pg_ids := ids, pg_registry := Some reg'\<rparr>))
          else if tg_aborting (pg_group st) then (Inl RuntimeError, st)
          else (case queue_call FrontEndDispatcher_submit data (pg_group st, pg_front st) of
                  (_, tg, fe) \<Rightarrow> (Inr None, st\<lparr>pg_group := tg, pg_front := fe\<rparr>)))"

section \<open>The messages\<close>

text \<open>\<open>DataWeaver\<close> with its keyword arguments.\<close>

definition page_message :: "page_handle \<Rightarrow> pyval \<Rightarrow> pyval \<Rightarrow> pyval \<Rightarrow> weaver" where
  "page_message header content pid msg_id = DataWeaver_fields (PStr (handle_text header)) content pid msg_id (PInt 1)"

definition py_dict :: "(string \<times> pyval) list \<Rightarrow> pyval" where
  "py_dict kvs = PDict (map (\<lambda>(k, v). (PStr k, v)) kvs)"

definition notify :: "weaver \<Rightarrow> page \<Rightarrow> unit res \<times> page" where
  "notify w st = (case front_end_data_dispatcher w False st of (out, st') \<Rightarrow> (map_sum id (\<lambda>_. ()) out, st'))"

definition ask_user_for_a_peer :: "page \<Rightarrow> (nat option) res \<times> page" where
  "ask_user_for_a_peer = front_end_data_dispatcher (page_message REQ_PEER_NAME_FOR_DISCOVERY PNone PNone PNone) True"

definition failed_to_reach :: "pyval \<Rightarrow> page \<Rightarrow> unit res \<times> page" where
  "failed_to_reach peer = notify (page_message FAILED_TO_REACH (py_dict [(''peer'', peer)]) PNone PNone)"

definition update_peer :: "remote_peer \<Rightarrow> page \<Rightarrow> unit res \<times> page" where
  "update_peer p = notify (page_message (if rp_status p = ONLINE then NEW_PEER else REMOVE_PEER)
     (py_dict [(''name'', rp_username p), (''ip'', PStr (rp_ip p))]) (PStr (peer_id p)) PNone)"

definition get_transfer_ok :: "pyval \<Rightarrow> page \<Rightarrow> (nat option) res \<times> page" where
  "get_transfer_ok pid = front_end_data_dispatcher (page_message REQ_FOR_FILE_TRANSFER PNone pid PNone) True"

definition transfer_confirmation :: "pyval \<Rightarrow> pyval \<Rightarrow> pyval \<Rightarrow> page \<Rightarrow> unit res \<times> page" where
  "transfer_confirmation pid transfer_id confirmation =
     notify (page_message TRANSFER_UPDATE (py_dict [(''confirmation'', confirmation), (''transferId'', transfer_id)]) pid PNone)"

text \<open>Of a file item the messages use its path as text and how much has been received.\<close>

definition transfer_update :: "pyval \<Rightarrow> pyval \<Rightarrow> string \<times> int \<Rightarrow> page \<Rightarrow> unit res \<times> page" where
  "transfer_update pid transfer_id item =
     notify (page_message TRANSFER_UPDATE
       (py_dict [(''item_path'', PStr (fst item)), (''received'', PInt (snd item)), (''transfer_id'', transfer_id)]) pid PNone)"

definition transfer_incomplete :: "pyval \<Rightarrow> pyval \<Rightarrow> (string \<times> int) option \<Rightarrow> string option \<Rightarrow> page \<Rightarrow> unit res \<times> page" where
  "transfer_incomplete pid transfer_id item detail =
     notify (page_message TRANSFER_UPDATE
       (py_dict ([(''transfer_id'', transfer_id), (''cancelled'', PBool True)] @
          (case item of None \<Rightarrow> [] | Some (path, seeked) \<Rightarrow> [(''item_path'', PStr path), (''received'', PInt seeked)]) @
          (case detail of Some (c # d) \<Rightarrow> [(''error'', PStr (c # d))] | _ \<Rightarrow> []))) pid PNone)"

definition search_response :: "pyval \<Rightarrow> remote_peer list \<Rightarrow> page \<Rightarrow> unit res \<times> page" where
  "search_response search_id peer_list =
     notify (page_message SEARCH_RESPONSE
       (PList (map (\<lambda>p. py_dict [(''name'', rp_username p), (''ip'', PStr (rp_ip p)), (''peerId'', PStr (peer_id p))]) peer_list))
       PNone search_id)"

definition send_profiles_and_get_updated_profiles :: "pyval \<Rightarrow> page \<Rightarrow> (nat option) res \<times> page" where
  "send_profiles_and_get_updated_profiles profiles =
     front_end_data_dispatcher (page_message PEER_LIST profiles PNone PNone) True"

section \<open>Where the messages go\<close>

lemma page_message_type:
  "weaver_type (page_message h content pid mid) = Inr [hd (handle_text h)]"
  by (cases h) (simp_all add: weaver_type_def weaver_getitem_def page_message_def DataWeaver_fields_def)

text \<open>
  A notification goes to the dispatcher its header names; the program is never disturbed by a page
  that cannot be reached, and while the task group lives no notification raises.
\<close>

lemma notify_submits:
  assumes "pg_registry st \<noteq> None" "\<not> tg_aborting (pg_group st)" "dget (pg_front st) [hd (handle_text h)] = Some d" "ws_ok d"
  shows "\<exists>out d'. ws_submit (page_message h content pid mid) d = (out, d') \<and>
    notify (page_message h content pid mid) st = (Inr (), st\<lparr>pg_front := dset [hd (handle_text h)] d' (pg_front st)\<rparr>)"
proof -
  obtain out d' where sub: "ws_submit (page_message h content pid mid) d = (out, d')" by fastforce
  then have "out \<in> {Inr (), Inl TransferIncomplete}"
    using ws_submit_outcome[OF assms(4), of "page_message h content pid mid"] by simp
  then have "FrontEndDispatcher_submit (page_message h content pid mid) (pg_front st) =
      (Inr (), dset [hd (handle_text h)] d' (pg_front st))"
    using assms(3) sub by (auto simp: FrontEndDispatcher_submit_def page_message_type)
  then show ?thesis
    using assms(1,2) sub
    by (auto simp: notify_def front_end_data_dispatcher_def queue_call_def task_done_def split: option.split)
qed

text \<open>
  Nothing that arrives from the page reaches the registry of expected replies: the dispatcher raises
  before it looks at it.
\<close>

lemma submit_keeps_registry:
  "snd (MessageFromFrontEnd_submit handlers w st) = st"
  by (auto simp: MessageFromFrontEnd_submit_def is_registered_value_def split: sum.split)

lemma handle_client_keeps_registry:
  "snd (snd (handle_client json_loads (MessageFromFrontEnd_submit handlers) ts st)) = snd st"
proof (induction ts arbitrary: st)
  case (Cons t ts)
  have "snd (snd (queue_call (MessageFromFrontEnd_submit handlers) w st)) = snd st" for w
    using submit_keeps_registry[of handlers w "snd st"] by (auto simp: queue_call_def split: prod.split)
  then show ?case using Cons.IH by (auto split: sum.split)
qed simp

text \<open>
  No question of the program is ever answered: a message that expects a reply is registered but not
  sent, neither to the page nor into its buffer, and whatever the page sends, its messages never reach
  the registry, so the reply stays pending. The profile choice, the confirmation of a transfer and the
  name of a peer to discover wait for ever.
\<close>

theorem page_questions_unanswered:
  assumes "pg_registry st = Some reg"
  shows "\<exists>f st' reg'. front_end_data_dispatcher w True st = (Inr (Some f), st') \<and>
    pg_front st' = pg_front st \<and> pg_group st' = pg_group st \<and> pg_registry st' = Some reg' \<and>
    (\<forall>json_loads handlers ts tg s.
       rg_futs (fst (snd (snd (handle_client json_loads (MessageFromFrontEnd_submit handlers) ts (tg, reg', s))))) ! f = Pending)"
proof -
  obtain i ids where ids: "id_factory (pg_ids st) = (i, ids)" by fastforce
  obtain f reg' where "register_reply (PStr i) reg = (f, reg')" by fastforce
  with ids have reg: "register_reply (PStr i) reg = (f, reg')"
      "register_message w (pg_ids st) reg = (f, weaver_setitem w ''msgId'' (PStr i), ids, reg')"
    by (simp_all add: register_message_def)
  then have "rg_futs reg' ! f = Pending" by (auto simp: register_reply_def)
  with reg assms show ?thesis
    by (intro exI[of _ f]) (auto simp: front_end_data_dispatcher_def handle_client_keeps_registry)
qed

theorem page_questions_unanswered_witness:
  "\<exists>f st'. send_profiles_and_get_updated_profiles PNone (initiate_page_handle no_page) = (Inr (Some f), st') \<and>
    pg_front st' = pg_front (initiate_page_handle no_page)"
proof -
  have "pg_registry (initiate_page_handle no_page) = Some empty_registry"
    by (simp add: initiate_page_handle_def no_page_def)
  from page_questions_unanswered[OF this] show ?thesis
    by (force simp: send_profiles_and_get_updated_profiles_def)
qed

section \<open>The handlers of the page's messages\<close>

definition st_bind :: "'a res \<times> 's \<Rightarrow> ('a \<Rightarrow> 's \<Rightarrow> 'b res \<times> 's) \<Rightarrow> 'b res \<times> 's" where
  "st_bind m k = (case m of (Inl e, s) \<Rightarrow> (Inl e, s) | (Inr x, s) \<Rightarrow> k x s)"

text \<open>\<open>content['name']\<close>: only dictionaries have string keys.\<close>

definition content_item :: "pyval \<Rightarrow> string \<Rightarrow> pyval res" where
  "content_item content k = (case content of
     PDict kvs \<Rightarrow> (case map_of kvs (PStr k) of None \<Rightarrow> Inl KeyError | Some v \<Rightarrow> Inr v)
   | _ \<Rightarrow> Inl TypeError)"

definition weaver_field :: "weaver \<Rightarrow> string \<Rightarrow> pyval res" where
  "weaver_field w k = fst (weaver_getitem w k)"

text \<open>The managers and the connector, on their own state.\<close>

record 's page_env =
  pe_open_dir :: "'s \<Rightarrow> pyval res \<times> 's"
  pe_open_files :: "'s \<Rightarrow> (string list) res \<times> 's"
  pe_find_peer :: "pyval \<Rightarrow> 's \<Rightarrow> (remote_peer option) res \<times> 's"
  pe_get_peer :: "pyval \<Rightarrow> 's \<Rightarrow> remote_peer option"
  pe_send_directory :: "remote_peer \<Rightarrow> pyval \<Rightarrow> 's \<Rightarrow> unit res \<times> 's"
  pe_send_files :: "pyval \<Rightarrow> string list \<Rightarrow> 's \<Rightarrow> unit res \<times> 's"
  pe_send_otm :: "string list \<Rightarrow> remote_peer option list \<Rightarrow> 's \<Rightarrow> unit res \<times> 's"
  pe_connection :: "remote_peer \<Rightarrow> 's \<Rightarrow> sock res \<times> 's"
  pe_send :: "sock \<Rightarrow> wire_data \<Rightarrow> 's \<Rightarrow> unit res \<times> 's"
  pe_me :: remote_peer
  pe_more_peers :: "'s \<Rightarrow> (remote_peer list option) res \<times> 's"
  pe_search_response :: "pyval \<Rightarrow> remote_peer list \<Rightarrow> 's \<Rightarrow> unit res \<times> 's"

definition new_dir_transfer :: "'s page_env \<Rightarrow> weaver \<Rightarrow> 's \<Rightarrow> unit res \<times> 's" where
  "new_dir_transfer env command_data s =
     (case res_bind (weaver_field command_data ''content'') (\<lambda>c. content_item c ''path'') of
        Inl e \<Rightarrow> (Inl e, s)
      | Inr p \<Rightarrow>
          st_bind (if py_truth p then (Inr p, s) else pe_open_dir env s) (\<lambda>dir_path s.
            if \<not> py_truth dir_path then (Inr (), s)
            else case weaver_field command_data ''peerId'' of
              Inl e \<Rightarrow> (Inl e, s)
            | Inr pid \<Rightarrow>
                st_bind (pe_find_peer env pid s) (\<lambda>remote s.
                  case remote of
                    None \<Rightarrow> (Inl PlainException, s)
                  | Some q \<Rightarrow> pe_send_directory env q dir_path s)))"

definition send_file :: "'s page_env \<Rightarrow> weaver \<Rightarrow> 's \<Rightarrow> unit res \<times> 's" where
  "send_file env command_data s =
     st_bind (pe_open_files env s) (\<lambda>selected_files s.
       if selected_files = [] then (Inr (), s)
       else case weaver_field command_data ''peerId'' of
         Inl e \<Rightarrow> (Inl e, s)
       | Inr pid \<Rightarrow>
           (case pe_send_files env pid selected_files s of
              (Inl e, s') \<Rightarrow> (if is_OSError e then Inr () else Inl e, s')
            | (Inr _, s') \<Rightarrow> (Inr (), s')))"

definition send_text :: "'s page_env \<Rightarrow> weaver \<Rightarrow> 's \<Rightarrow> unit res \<times> 's" where
  "send_text env command_data s =
     (case weaver_field command_data ''peerId'' of
        Inl e \<Rightarrow> (Inl e, s)
      | Inr pid \<Rightarrow>
          st_bind (pe_find_peer env pid s) (\<lambda>peer_obj s.
            case peer_obj of
              None \<Rightarrow> (Inr (), s)
            | Some q \<Rightarrow>
                st_bind (pe_connection env q s) (\<lambda>connection s.
                  case weaver_field command_data ''content'' of
                    Inl e \<Rightarrow> (Inl e, s)
                  | Inr content \<Rightarrow>
                      pe_send env connection
                        (WireData (PBytes CMD_TEXT) (PStr (peer_id (pe_me env))) PNone WIRE_VERSION [(''message'', content)]) s)))"

definition send_files_to_multiple_peers :: "'s page_env \<Rightarrow> weaver \<Rightarrow> 's \<Rightarrow> unit res \<times> 's" where
  "send_files_to_multiple_peers env command_data s =
     st_bind (pe_open_files env s) (\<lambda>selected_files s.
       if selected_files = [] then (Inr (), s)
       else case res_bind (weaver_field command_data ''content'') (\<lambda>c. content_item c ''peerList'') of
         Inl e \<Rightarrow> (Inl e, s)
       | Inr peer_ids \<Rightarrow>
           (case py_iter peer_ids of
              None \<Rightarrow> (Inl TypeError, s)
            | Some ids \<Rightarrow> pe_send_otm env selected_files (map (\<lambda>i. pe_get_peer env i s) ids) s))"

text \<open>
  \<open>search_for_user\<close> awaits what \<open>search_for_nodes_with_name\<close> returns, an asynchronous generator, which
  cannot be awaited.
\<close>

definition search_for_user :: "weaver \<Rightarrow> 's \<Rightarrow> unit res \<times> 's" where
  "search_for_user data s = (case weaver_field data ''searchPeerInNetwork'' of Inl e \<Rightarrow> (Inl e, s) | Inr v \<Rightarrow> (Inl TypeError, s))"

definition send_list :: "'s page_env \<Rightarrow> weaver \<Rightarrow> 's \<Rightarrow> unit res \<times> 's" where
  "send_list env data s =
     st_bind (pe_more_peers env s) (\<lambda>peer_list s.
       case weaver_field data ''msgId'' of
         Inl e \<Rightarrow> (Inl e, s)
       | Inr i \<Rightarrow> (case peer_list of None \<Rightarrow> (Inl TypeError, s) | Some ps \<Rightarrow> pe_search_response env i ps s))"

text \<open>\<open>register_all\<close> of the two dispatchers, with the profile handlers as arguments.\<close>

definition data_registry :: "'s page_env \<Rightarrow> (pyval, weaver \<Rightarrow> 's \<Rightarrow> unit res \<times> 's) pydict" where
  "data_registry env =
     [(PStr (handle_text SEND_DIR), new_dir_transfer env), (PStr (handle_text SEND_FILE), send_file env),
      (PStr (handle_text SEND_TEXT), send_text env),
      (PStr (handle_text SEND_FILE_TO_MULTIPLE_PEERS), send_files_to_multiple_peers env),
      (PStr (handle_text SEND_DIR_TO_MULTIPLE_PEERS), \<lambda>w s. (Inr (), s))]"

definition signal_registry ::
    "'s page_env \<Rightarrow> (weaver \<Rightarrow> 's \<Rightarrow> unit res \<times> 's) \<Rightarrow> (weaver \<Rightarrow> 's \<Rightarrow> unit res \<times> 's) \<Rightarrow>
     (pyval, weaver \<Rightarrow> 's \<Rightarrow> unit res \<times> 's) pydict" where
  "signal_registry env align select =
     [(PStr (handle_text CONNECT_USER), \<lambda>w s. (Inr (), s)), (PStr (handle_text SYNC_USERS), \<lambda>w s. (Inr (), s)),
      (PStr (handle_text SEND_PROFILES), align), (PStr (handle_text SET_PROFILE), select),
      (PStr (handle_text SEARCH_FOR_NAME), search_for_user), (PStr (handle_text SEND_PEER_LIST), send_list env)]"

text \<open>
  The handlers are selected by the header; searching for a user never sends a result, whatever is
  searched for, and its exception is only logged.
\<close>

lemma search_never_answers:
  assumes "weaver_field w ''header'' = Inr (PStr (handle_text SEARCH_FOR_NAME))"
  shows "page_submit (signal_registry env align select) w s = (Inr (), s)"
  using assms
  by (auto simp: page_submit_def signal_registry_def weaver_field_def search_for_user_def weaver_getitem_def
      split: sum.split option.split)

lemma text_to_unknown_peer_dropped:
  assumes "weaver_field w ''header'' = Inr (PStr (handle_text SEND_TEXT))" "weaver_field w ''peerId'' = Inr pid"
    "pe_find_peer env pid s = (Inr None, s')"
  shows "page_submit (data_registry env) w s = (Inr (), s')"
  using assms by (simp add: page_submit_def data_registry_def weaver_field_def send_text_def st_bind_def)

end
