(* ===== verification/Acceptor.thy ===== *)
theory Acceptor
  imports Front_End Containers Useables
begin

text \<open>
  Connections between peers: \<open>src/core/acceptor.py\<close> (the listening side: handshake, dispatch by
  header, the loop over the messages of a basic connection) and \<open>src/core/connector.py\<close> (the connecting
  side with its socket cache).

  Accepted connections are handled in the order in which they come in, each to its end. \<open>conn_ok\<close> is
  what \<open>is_socket_connected\<close> answers for the new socket; a handshake that times out is an accepted
  connection whose stream is not consulted (\<open>Silent\<close>).
\<close>

section \<open>Handshake\<close>

datatype incoming = Silent | Speaking bool stream

text \<open>\<open>asyncio.wait_for(Wire.receive_async(conn), SERVER_TIMEOUT)\<close>.\<close>

definition receive_handshake :: "incoming \<Rightarrow> bytes res" where
  "receive_handshake c = (case c of
     Silent \<Rightarrow> Inl TimeoutError
   | Speaking conn_ok s \<Rightarrow> fst (Wire_receive_async conn_ok s))"

text \<open>\<open>_perform_handshake\<close>: the handshake or \<open>None\<close>, and whether the connection was closed.\<close>

definition perform_handshake :: "(bytes \<Rightarrow> pyval res) \<Rightarrow> incoming \<Rightarrow> wire_data option res \<times> bool" where
  "perform_handshake loads c =
     (case res_bind (receive_handshake c)
             (\<lambda>raw. if raw = [] then Inr None else map_sum id Some (WireData_load_from loads raw)) of
        Inr w \<Rightarrow> (Inr w, False)
      | Inl e \<Rightarrow> if is_OSError e \<or> e = InvalidPacket then (Inr None, True) else (Inl e, False))"

section \<open>Dispatch of connections and data\<close>

text \<open>\<open>ConnectionDispatcher.submit\<close> and \<open>StreamDataDispatcher.submit\<close>: the header selects the handler.\<close>

definition header_submit ::
    "(pyval, wire_data \<Rightarrow> 's \<Rightarrow> unit res \<times> 's) pydict \<Rightarrow> wire_data \<Rightarrow> 's \<Rightarrow> unit res \<times> 's" where
  "header_submit registry w s =
     (if \<not> hashable (w_header w) then (Inl TypeError, s)
      else case dget registry (w_header w) of None \<Rightarrow> (Inl KeyError, s) | Some h \<Rightarrow> h w s)"

text \<open>
  \<open>__accept_connection\<close>: the dispatcher is called, which queues the event; it raises itself only
  when its task group takes no more tasks. \<open>find_peer\<close> is the outcome of looking the peer up, \<open>submit c\<close>
  the dispatcher's \<open>submit\<close> for an event on the connection \<open>c\<close>.
\<close>

definition accept_connection ::
    "(bytes \<Rightarrow> pyval res) \<Rightarrow> (pyval \<Rightarrow> unit res) \<Rightarrow> (incoming \<Rightarrow> wire_data \<Rightarrow> 's \<Rightarrow> unit res \<times> 's) \<Rightarrow> incoming \<Rightarrow>
     task_group \<times> 's \<Rightarrow> unit res \<times> task_group \<times> 's" where
  "accept_connection loads find_peer submit c st =
     (case fst (perform_handshake loads c) of
        Inl e \<Rightarrow> (Inl e, st)
      | Inr None \<Rightarrow> (Inr (), st)
      | Inr (Some handshake) \<Rightarrow>
          (case find_peer (w_peer_id handshake) of
             Inl e \<Rightarrow> (Inl e, st)
           | Inr _ \<Rightarrow>
               if tg_aborting (fst st) then (Inl RuntimeError, st)
               else (Inr (), snd (queue_call (submit c) handshake st))))"

text \<open>
  \<open>initiate\<close>: \<open>Inl e\<close> in the list is an \<open>accept\<close> that fails, with the answer of the stopping flag. A
  task that fails ends the task group and the loop with it; the exception is the group's cause.
  \<open>initiate\<close> runs in the task that entered the dispatcher's group (\<open>initiate_acceptor\<close>), so that group
  cancels it, in its await, when a handler fails.
\<close>

definition group_failed :: "task_group \<Rightarrow> task_group \<Rightarrow> bool" where
  "group_failed before after \<longleftrightarrow> \<not> tg_aborting before \<and> tg_aborting after"

fun acceptor_initiate ::
    "(bytes \<Rightarrow> pyval res) \<Rightarrow> (pyval \<Rightarrow> unit res) \<Rightarrow> (incoming \<Rightarrow> wire_data \<Rightarrow> 's \<Rightarrow> unit res \<times> 's) \<Rightarrow>
     (py_exn \<times> bool + incoming) list \<Rightarrow> task_group \<times> 's \<Rightarrow> unit res \<times> task_group \<times> 's" where
  "acceptor_initiate loads find_peer submit [] st = (Inr (), st)"
| "acceptor_initiate loads find_peer submit (Inl (e, stopping) # cs) st =
     (if is_OSError e \<and> stopping then (Inr (), st) else (Inl e, st))"
| "acceptor_initiate loads find_peer submit (Inr c # cs) st =
     (case accept_connection loads find_peer submit c st of
        (Inl e, st') \<Rightarrow> (Inl e, st')
      | (Inr _, st') \<Rightarrow>
          if group_failed (fst st) (fst st') then (Inl CancelledError, st')
          else acceptor_initiate loads find_peer submit cs st')"

text \<open>A connection that cannot get past the handshake and does no harm.\<close>

definition harmless :: "(bytes \<Rightarrow> pyval res) \<Rightarrow> incoming \<Rightarrow> bool" where
  "harmless loads c \<longleftrightarrow>
     (case receive_handshake c of
        Inl e \<Rightarrow> is_OSError e
      | Inr raw \<Rightarrow> raw = [] \<or> WireData_load_from loads raw = Inl InvalidPacket)"

lemma harmless_ignored:
  "harmless loads c \<Longrightarrow> accept_connection loads find_peer submit c st = (Inr (), st)"
  by (auto simp: harmless_def accept_connection_def perform_handshake_def split: sum.splits)

text \<open>
  C36. The acceptor goes on listening through any number of connections that time out, are reset,
  close at once or send an invalid packet. But two bytes are enough to stop it for good: a peer that
  connects, sends fewer than the four bytes of a length and stays connected makes \<open>Wire.receive_async\<close>
  raise \<open>struct.error\<close>, which the handshake does not catch, so the acceptor's task group ends and no
  later connection is accepted.
\<close>

theorem acceptor_stopped_by_short_header:
  assumes "list_all (harmless loads) cs"
    and "unsplit s" "length (pending s) < 4"
  shows "acceptor_initiate loads find_peer submit (map Inr cs @ rest) st =
      acceptor_initiate loads find_peer submit rest st \<and>
    acceptor_initiate loads find_peer submit (map Inr cs @ Inr (Speaking True s) # later) st = (Inl StructError, st)"
proof -
  have skip: "acceptor_initiate loads find_peer submit (map Inr cs @ xs) st =
      acceptor_initiate loads find_peer submit xs st" for xs
    using assms(1) by (induction cs) (simp_all add: harmless_ignored group_failed_def)
  have "unpack_I (pending s) = Inl StructError"
    using assms(3) by (simp add: struct_unpack_def)
  then have "receive_handshake (Speaking True s) = Inl StructError"
    using assms(2,3) by (simp add: receive_handshake_def Wire_receive_async_def)
  then have "accept_connection loads find_peer submit (Speaking True s) st = (Inl StructError, st)"
    by (simp add: accept_connection_def perform_handshake_def is_OSError_def)
  then show ?thesis by (simp add: skip)
qed

theorem acceptor_stopped_by_short_header_witness:
  "acceptor_initiate (\<lambda>b. Inl UnpackException) (\<lambda>p. Inr ()) (\<lambda>c. header_submit [])
     [Inr Silent, Inr (Speaking True \<lparr>pending = [1, 2], sched = []\<rparr>), Inr Silent]
     (\<lparr>tg_aborting = False, tg_parent_running = True\<rparr>, ()) =
   (Inl StructError, \<lparr>tg_aborting = False, tg_parent_running = True\<rparr>, ())"
proof -
  have h: "list_all (harmless (\<lambda>b. Inl UnpackException)) [Silent]"
    by (simp add: harmless_def receive_handshake_def is_OSError_def)
  have u: "unsplit \<lparr>pending = [1, 2], sched = []\<rparr>" by (simp add: unsplit_def)
  have l: "length (pending \<lparr>pending = [1, 2 :: byte], sched = []\<rparr>) < 4" by simp
  from acceptor_stopped_by_short_header[OF h u l, THEN conjunct2, of "\<lambda>p. Inr ()" "\<lambda>c. header_submit []" "[Inr Silent]"
      "(\<lparr>tg_aborting = False, tg_parent_running = True\<rparr>, ())"]
  show ?thesis by (simp only: list.map append.simps)
qed

text \<open>
  A handler that fails takes the acceptor with it: the dispatcher's group shuts down and cancels the
  task that accepts connections. A connection with a header nobody has registered is enough.
\<close>

lemma failing_handler_stops_acceptor:
  assumes "receive_handshake c = Inr raw" "raw \<noteq> []" "WireData_load_from loads raw = Inr w"
    "find_peer (w_peer_id w) = Inr ()" "submit c w (snd st) = (Inl e, s')" "e \<noteq> CancelledError"
    "\<not> tg_aborting (fst st)" "tg_parent_running (fst st)"
  shows "acceptor_initiate loads find_peer submit (Inr c # later) st =
    (Inl CancelledError, (fst st)\<lparr>tg_aborting := True\<rparr>, s')"
  using assms
  by (simp add: accept_connection_def perform_handshake_def queue_call_def task_done_def group_failed_def)

lemma unknown_header_stops_dispatcher:
  assumes "receive_handshake c = Inr raw" "raw \<noteq> []" "WireData_load_from loads raw = Inr w"
    "find_peer (w_peer_id w) = Inr ()" "hashable (w_header w)" "\<not> dmem (w_header w) registry"
    "\<not> tg_aborting (fst st)" "tg_parent_running (fst st)"
  shows "acceptor_initiate loads find_peer (\<lambda>c. header_submit registry) (Inr c # later) st =
    (Inl CancelledError, (fst st)\<lparr>tg_aborting := True\<rparr>, snd st)"
proof -
  have "header_submit registry w (snd st) = (Inl KeyError, snd st)"
    using assms(5,6) by (simp add: header_submit_def dmem_iff)
  then show ?thesis
    using assms by (intro failing_handler_stops_acceptor[of c raw loads w find_peer _ st KeyError]) simp_all
qed

section \<open>The loop over a basic connection\<close>

text \<open>
  \<open>process_once\<close> of \<open>ProcessDataHandler\<close>: \<open>dispatch\<close> is \<open>data_dispatcher(event)\<close> under its timeout.
\<close>

definition process_once ::
    "(bytes \<Rightarrow> pyval res) \<Rightarrow> (wire_data \<Rightarrow> 's \<Rightarrow> unit res \<times> 's) \<Rightarrow> stream \<times> 's \<Rightarrow> unit res \<times> stream \<times> 's" where
  "process_once loads dispatch st =
     (case recv_int arecv SHORT_INT (fst st) of
        (Inl e, s1) \<Rightarrow> (Inl e, s1, snd st)
      | (Inr raw_data_len, s1) \<Rightarrow>
          if raw_data_len = 0 then (Inr (), s1, snd st)
          else (case arecv raw_data_len s1 of
                  (Inl e, s2) \<Rightarrow> (Inl e, s2, snd st)
                | (Inr raw_data, s2) \<Rightarrow>
                    (case WireData_load_from loads raw_data of
                       Inl e \<Rightarrow> (Inl e, s2, snd st)
                     | Inr data \<Rightarrow> (case dispatch data (snd st) of (out, w) \<Rightarrow> (out, s2, w)))))"

text \<open>
  The handler of a basic connection: \<open>finalizer\<close> lists the answers of the flag at the successive
  tests; it is closed (\<open>True\<close>) when the handler returns or raises.
\<close>

fun process_data_handler ::
    "(bytes \<Rightarrow> pyval res) \<Rightarrow> (wire_data \<Rightarrow> 's \<Rightarrow> unit res \<times> 's) \<Rightarrow> bool list \<Rightarrow> stream \<times> 's \<Rightarrow>
     unit res \<times> bool \<times> stream \<times> 's" where
  "process_data_handler loads dispatch (True # fs) st =
     (case process_once loads dispatch st of
        (Inl e, st') \<Rightarrow> (Inl e, True, st')
      | (Inr _, st') \<Rightarrow> process_data_handler loads dispatch fs st')"
| "process_data_handler loads dispatch (False # fs) st = (Inr (), True, st)"
| "process_data_handler loads dispatch [] st = (Inr (), False, st)"

definition ConnectionCloseHandler :: "sock \<Rightarrow> sock list \<Rightarrow> sock list" where
  "ConnectionCloseHandler s clsd = clsd @ [s]"

text \<open>
  As it is wired, a basic connection delivers nothing. The handler loops while its flag is set,
  and the flag it is given is \<open>Dock.finalizing.is_set\<close>, which is unset while the program runs: the
  connection is closed at once and not a byte of it is read, whatever the peer has sent. With the
  flag set as its documentation says, the loop hands every message on, in order.
\<close>

theorem basic_connection_delivers_nothing:
  assumes "no_reset s" "list_all (\<lambda>(b, w). frameable b \<and> b \<noteq> [] \<and> WireData_load_from loads b = Inr w) bws"
    and "unsplit s" "pending s = concat (map (\<lambda>bw. frame (fst bw)) bws) @ rest"
  shows "process_data_handler loads dispatch (False # fs) (s, w0) = (Inr (), True, s, w0) \<and>
    process_data_handler loads (\<lambda>w ws. (Inr (), ws @ [w])) (replicate (length bws) True) (s, seen) =
      (Inr (), False, s\<lparr>pending := rest\<rparr>, seen @ map snd bws)"
proof -
  have step: "process_once loads (\<lambda>w ws. (Inr (), ws @ [w])) (t, seen) =
      (Inr (), t\<lparr>pending := more\<rparr>, seen @ [w])"
    if "unsplit t" "pending t = frame b @ more" "frameable b" "b \<noteq> []" "WireData_load_from loads b = Inr w" for t b w more seen
  proof -
    have "arecv 4 t = (Inr (be_encode 4 (length b)), t\<lparr>pending := b @ more\<rparr>)"
      using that(1,2) by (simp del: drop_append)
    then have "recv_int arecv SHORT_INT t = (Inr (length b), t\<lparr>pending := b @ more\<rparr>)"
      using that(3) by (intro recv_int_short) (simp_all add: frameable_def)
    moreover have "unsplit (t\<lparr>pending := b @ more\<rparr>)" using that(1) by (simp add: unsplit_def)
    ultimately show ?thesis using that(4,5) by (simp add: process_once_def)
  qed
  have "process_data_handler loads (\<lambda>w ws. (Inr (), ws @ [w])) (replicate (length bws) True) (t, seen) =
      (Inr (), False, t\<lparr>pending := rest\<rparr>, seen @ map snd bws)"
    if "unsplit t" "pending t = concat (map (\<lambda>bw. frame (fst bw)) bws) @ rest" for t seen
    using assms(2) that
  proof (induction bws arbitrary: t seen)
    case Nil
    then show ?case by simp
  next
    case (Cons bw bws)
    obtain b w where bw: "bw = (b, w)" by (cases bw)
    let ?t = "t\<lparr>pending := concat (map (\<lambda>bw. frame (fst bw)) bws) @ rest\<rparr>"
    have "process_once loads (\<lambda>w ws. (Inr (), ws @ [w])) (t, seen) = (Inr (), ?t, seen @ [w])"
      using Cons.prems bw by (intro step[where b = b]) auto
    moreover have "unsplit ?t" using Cons.prems(2) by (simp add: unsplit_def)
    ultimately show ?case using Cons.IH[of ?t "seen @ [w]"] Cons.prems bw by simp
  qed
  from this[OF assms(3,4)] show ?thesis by simp
qed

theorem basic_connection_delivers_nothing_witness:
  "process_data_handler (\<lambda>b. Inr (PList [PNone, PNone, PNone, PDict [], PNone])) (\<lambda>w n. (Inr (), n + 1 :: nat))
     [False] (\<lparr>pending = frame [5], sched = []\<rparr>, 0) = (Inr (), True, \<lparr>pending = frame [5], sched = []\<rparr>, 0)"
proof -
  let ?loads = "\<lambda>b :: bytes. Inr (PList [PNone, PNone, PNone, PDict [], PNone]) :: pyval res"
  let ?s = "\<lparr>pending = frame [5], sched = []\<rparr>"
  have r: "no_reset ?s" "unsplit ?s" by (simp_all add: no_reset_def unsplit_def)
  have l: "list_all (\<lambda>(b, w). frameable b \<and> b \<noteq> [] \<and> WireData_load_from ?loads b = Inr w)
      [([5], WireData PNone PNone PNone PNone [])]"
    by (simp add: frameable_def WireData_load_from_def kwargs_of_def WireData_def)
  have p: "pending ?s = concat (map (\<lambda>bw. frame (fst bw)) [([5], WireData PNone PNone PNone PNone [])]) @ []"
    by simp
  show ?thesis by (rule basic_connection_delivers_nothing[OF r(1) l r(2) p, THEN conjunct1])
qed

section \<open>Connector\<close>

text \<open>
  \<open>Dock.connected_peers\<close> is an argument: the cache it names, or \<open>None\<close> when \<open>Dock\<close> has no such
  attribute. The class in \<open>src/core/__init__.py\<close> has none and nothing ever sets it.

  \<open>get_connection\<close>: \<open>conn\<close> is \<open>is_socket_connected\<close>, \<open>dialled\<close> the outcome of \<open>connect_to_peer\<close>,
  \<open>verified\<close> that of sending the verification. The new socket is stored under the byte identifier by
  \<open>_add_connection\<close> and under the textual one afterwards.
\<close>

type_synonym connected_peers = "pyval socket_cache option"

definition dock_add_peer_sock :: "pyval \<Rightarrow> sock \<Rightarrow> connected_peers \<Rightarrow> connected_peers res" where
  "dock_add_peer_sock k s cp =
     (case cp of None \<Rightarrow> Inl AttributeError | Some c \<Rightarrow> map_sum id Some (add_peer_sock k s c))"

definition connector_add_connection :: "remote_peer \<Rightarrow> sock res \<Rightarrow> connected_peers \<Rightarrow> sock res \<times> connected_peers" where
  "connector_add_connection peer dialled cp =
     (case dialled of
        Inl e \<Rightarrow> (Inl e, cp)
      | Inr s \<Rightarrow> (case dock_add_peer_sock (PBytes (rp_id peer)) s cp of Inl e \<Rightarrow> (Inl e, cp) | Inr cp' \<Rightarrow> (Inr s, cp')))"

definition connector_verification :: "(pyval \<Rightarrow> bytes res) \<Rightarrow> remote_peer \<Rightarrow> bytes res" where
  "connector_verification dumps me =
     res_bind (WireData_bytes dumps (WireData
       (PBytes [0x62, 0x61, 0x73, 0x69, 0x63, 0x20, 0x63, 0x6F, 0x6E, 0x6E, 0x65, 0x63, 0x74, 0x69, 0x6F, 0x6E])
       (PStr (peer_id me)) PNone WIRE_VERSION [])) Wire_send_async"

definition get_connection ::
    "(sock \<Rightarrow> bool) \<Rightarrow> remote_peer \<Rightarrow> sock res \<Rightarrow> unit res \<Rightarrow> connected_peers \<Rightarrow> sock res \<times> connected_peers" where
  "get_connection conn peer dialled verified cp =
     (case cp of None \<Rightarrow> (Inl AttributeError, cp) | Some c \<Rightarrow>
     (case cache_is_connected conn (PStr (peer_id peer)) c of
        Some s \<Rightarrow> (Inr s, cp)
      | None \<Rightarrow>
          (case connector_add_connection peer dialled cp of
             (Inl e, cp1) \<Rightarrow> (Inl e, cp1)
           | (Inr s, cp1) \<Rightarrow>
               (case verified of
                  Inl e \<Rightarrow> (Inl e, cp1)
                | Inr _ \<Rightarrow>
                    (case dock_add_peer_sock (PStr (peer_id peer)) s cp1 of
                       Inl e \<Rightarrow> (Inl e, cp1) | Inr cp2 \<Rightarrow> (Inr s, cp2))))))"

lemmas connector_defs = get_connection_def connector_add_connection_def dock_add_peer_sock_def

lemma add_peer_sock_ok:
  assumes "cache_wf c"
  shows "\<exists>c'. add_peer_sock k s c = Inr c' \<and> cache_wf c' \<and> dget (socket_cache c') k = Some s \<and> max_limit c' = max_limit c"
proof (cases "max_limit c \<le> length (socket_cache c)")
  case True
  then obtain x rest where "socket_cache c = x # rest"
    using assms by (cases "socket_cache c") (auto simp: cache_wf_def)
  then show ?thesis
    using True assms add_peer_sock_wf[OF assms, of k s] by (auto simp: add_peer_sock_def)
next
  case False
  then show ?thesis
    using assms add_peer_sock_wf[OF assms, of k s] by (auto simp: add_peer_sock_def)
qed

text \<open>
  As the program stands the connector never connects: \<open>Dock\<close> has no \<open>connected_peers\<close>, so
  every call raises \<open>AttributeError\<close> whatever the peer. With a cache in its place it keeps the cache
  well formed whatever happens, and it reuses connections: when \<open>get_connection\<close> has returned a
  socket, the next call for that peer returns the same socket without connecting again, as long as
  that socket is connected and nothing else used the cache; a failure to connect leaves the cache as
  it was.
\<close>

theorem connection_reused:
  assumes "cache_wf c" "get_connection conn peer dialled verified (Some c) = (out, cp)"
  shows "get_connection conn peer dialled verified None = (Inl AttributeError, None) \<and>
    (\<exists>c'. cp = Some c' \<and> cache_wf c' \<and>
      (\<forall>s. out = Inr s \<and> conn s \<longrightarrow> get_connection conn peer dialled' verified' cp = (Inr s, cp)) \<and>
      (\<forall>e. out = Inl e \<and> dialled = Inl e \<longrightarrow> c' = c))"
proof (cases "cache_is_connected conn (PStr (peer_id peer)) c")
  case (Some s)
  then show ?thesis using assms by (auto simp: get_connection_def)
next
  case miss: None
  show ?thesis
  proof (cases dialled)
    case (Inl e)
    then show ?thesis using assms miss by (auto simp: connector_defs)
  next
    case (Inr s)
    obtain c1 where c1: "add_peer_sock (PBytes (rp_id peer)) s c = Inr c1" "cache_wf c1"
      using add_peer_sock_ok[OF assms(1)] by blast
    obtain c2 where c2: "add_peer_sock (PStr (peer_id peer)) s c1 = Inr c2" "cache_wf c2"
        "dget (socket_cache c2) (PStr (peer_id peer)) = Some s"
      using add_peer_sock_ok[OF c1(2)] by blast
    show ?thesis
      using assms(2) miss Inr c1 c2
      by (cases verified) (auto simp: connector_defs cache_is_connected_def)
  qed
qed

theorem connection_reused_witness:
  "\<exists>(p :: remote_peer) c. get_connection (\<lambda>s. True) p (Inl OSError) (Inl OSError) (Some c) = (Inr 7, Some c) \<and> cache_wf c"
proof -
  define p :: remote_peer where "p = \<lparr>rp_username = PNone, rp_ip = [], rp_conn_port = PNone, rp_req_port = PNone,
    rp_status = PNone, rp_id = [1], rp_long_id = 1, rp_byte_cache = None\<rparr>"
  obtain out cp where c: "get_connection (\<lambda>s. True) p (Inr 7) (Inr ()) (Some (SocketCache 4)) = (out, cp)" by fastforce
  have wf: "cache_wf (SocketCache 4 :: pyval socket_cache)" by (rule cache_wf_init) simp
  have "out = Inr 7"
    using c by (auto simp: connector_defs cache_is_connected_def SocketCache_def add_peer_sock_def)
  then obtain c where "get_connection (\<lambda>s. True) p (Inl OSError) (Inl OSError) (Some c) = (Inr 7, Some c)" "cache_wf c"
    using connection_reused[OF wf c, of "Inl OSError" "Inl OSError"] by auto
  then show ?thesis by blast
qed

text \<open>Every connection takes two entries of the cache.\<close>

lemma connection_cached_twice:
  assumes "cache_wf c" "2 \<le> max_limit c" "cache_is_connected conn (PStr (peer_id peer)) c = None"
    "get_connection conn peer (Inr s) (Inr ()) (Some c) = (Inr s, Some c')" "length (socket_cache c) + 2 \<le> max_limit c"
  shows "dget (socket_cache c') (PBytes (rp_id peer)) = Some s \<and> dget (socket_cache c') (PStr (peer_id peer)) = Some s"
  using assms
  by (auto simp: connector_defs add_peer_sock_def length_dset split: if_splits list.splits)

end
