(* ===== verification/Kad_Server.thy ===== *)
theory Kad_Server
  imports Kademlia Page Acceptor
begin

text \<open>
  The Kademlia server around the lists of theory Kademlia: the calls to other nodes, the task that
  keeps this node's entry in its list and the crawls of \<open>src/core/_kademlia.py\<close>, and the peers the
  program and its page see, \<open>src/core/peers.py\<close>.

  The kademlia package is a parameter: \<open>handle\<close> is \<open>handle_call_response\<close>, which only has effects on
  the routing table, the crawls are functions of what they look for.
\<close>

section \<open>Calls to other nodes\<close>

text \<open>The answer of a remote call: whether there was one, and its value.\<close>

type_synonym call_result = "bool \<times> pyval"

datatype kad_call =
    Find_Node bytes | Find_Value bytes | Ping | Store bytes pyval | Store_Peers_In_List bytes pyval
  | Find_List_Of_Peers bytes | Search_Peers string

record 's caller =
  ca_remote :: "string \<times> pyval \<Rightarrow> bytes \<Rightarrow> kad_call \<Rightarrow> 's \<Rightarrow> call_result \<times> 's"
  ca_handle :: "call_result \<Rightarrow> remote_peer \<Rightarrow> 's \<Rightarrow> 's"
  ca_source :: bytes
  ca_load :: "pyval \<Rightarrow> remote_peer res"

text \<open>\<open>call_find_node\<close>, \<open>call_find_value\<close>, \<open>call_ping\<close>, \<open>call_store\<close>, \<open>call_find_peer_list\<close>: the call and its handling.\<close>

definition call_node :: "'s caller \<Rightarrow> remote_peer \<Rightarrow> kad_call \<Rightarrow> 's \<Rightarrow> call_result \<times> 's" where
  "call_node c node_to_ask call s =
     (case ca_remote c (req_uri node_to_ask) (ca_source c) call s of
        (result, s') \<Rightarrow> (result, ca_handle c result node_to_ask s'))"

text \<open>The key is a peer or a node, of which the identifier is used, or the identifier.\<close>

definition call_store_peers_in_list ::
    "'s caller \<Rightarrow> remote_peer \<Rightarrow> remote_peer + bytes \<Rightarrow> pyval \<Rightarrow> 's \<Rightarrow> call_result \<times> 's" where
  "call_store_peers_in_list c peer_to_ask list_key peer_list s =
     call_node c peer_to_ask
       (Store_Peers_In_List (case list_key of Inl p \<Rightarrow> rp_id p | Inr k \<Rightarrow> k) peer_list) s"

definition call_search_peers :: "'s caller \<Rightarrow> remote_peer \<Rightarrow> string \<Rightarrow> 's \<Rightarrow> (remote_peer list) res \<times> 's" where
  "call_search_peers c peer_to_ask search_string s =
     (case call_node c peer_to_ask (Search_Peers search_string) s of
        (result, s') \<Rightarrow>
          (case py_iter (snd result) of
             None \<Rightarrow> (Inl TypeError, s')
           | Some ps \<Rightarrow> (map_res (ca_load c) ps, s')))"

text \<open>A node that does not answer gives \<open>(False, None)\<close>: the search fails instead of leaving it out.\<close>

lemma unanswered_search_fails:
  "ca_remote c (req_uri p) (ca_source c) (Search_Peers t) s = ((False, PNone), s') \<Longrightarrow>
     fst (call_search_peers c p t s) = Inl TypeError"
  by (simp add: call_search_peers_def call_node_def)

definition bootstrap_node :: "'s caller \<Rightarrow> string \<times> pyval \<Rightarrow> bytes \<Rightarrow> 's \<Rightarrow> (remote_peer option) res \<times> 's" where
  "bootstrap_node c addr me s =
     (case ca_remote c addr me Ping s of
        ((ok, v), s') \<Rightarrow> ((if ok then map_sum id Some (ca_load c v) else Inr None), s'))"

text \<open>\<open>KademliaHandler\<close>: what the package receives of a request, and from whom.\<close>

definition KademliaHandler :: "(pyval \<Rightarrow> addr \<Rightarrow> 's \<Rightarrow> unit res \<times> 's) \<Rightarrow> wire_data \<Rightarrow> addr \<Rightarrow> 's \<Rightarrow> unit res \<times> 's" where
  "KademliaHandler receive req from_addr s =
     (case WireData_getitem req ''data'' of Inl e \<Rightarrow> (Inl e, s) | Inr v \<Rightarrow> receive v from_addr s)"

section \<open>Searching all lists\<close>

text \<open>
  \<open>search_for_nodes\<close> yields peers and, for every node of a list, a whole list of peers. \<open>dock\<close> is the
  result of the local search, \<open>crawl\<close> the nodes responsible for a list.
\<close>

datatype search_item = One remote_peer | Several "remote_peer list"

fun search_nodes :: "'s caller \<Rightarrow> string \<Rightarrow> remote_peer list \<Rightarrow> 's \<Rightarrow> (search_item list) res \<times> 's" where
  "search_nodes c search_string [] s = (Inr [], s)"
| "search_nodes c search_string (p # ps) s =
     (case call_search_peers c p search_string s of
        (Inl e, s1) \<Rightarrow> (Inl e, s1)
      | (Inr found, s1) \<Rightarrow> (case search_nodes c search_string ps s1 of
           (out, s2) \<Rightarrow> (map_sum id ((#) (Several found)) out, s2)))"

definition search_for_nodes ::
    "'s caller \<Rightarrow> (bytes \<Rightarrow> remote_peer list) \<Rightarrow> (remote_peer list) res \<Rightarrow> string \<Rightarrow> 's \<Rightarrow> (search_item list) res \<times> 's" where
  "search_for_nodes c crawl dock search_string s =
     (case dock of
        Inl e \<Rightarrow> (Inl e, s)
      | Inr local_peers \<Rightarrow>
          (case search_nodes c search_string (concat (map crawl node_list_ids)) s of
             (out, s') \<Rightarrow> (map_sum id ((@) (map One local_peers)) out, s')))"

text \<open>With the dictionary of the program the search ends before the first node is asked.\<close>

lemma search_never_starts:
  "search_for_nodes c crawl (search_relevant_peers PeerDict_accepts_attributes d (\<lambda>i. d) t) t s = (Inl AttributeError, s)"
  by (simp add: search_for_nodes_def search_relevant_peers_def PeerDict_accepts_attributes_def)

section \<open>Keeping the own entry in its list\<close>

text \<open>
  \<open>add_this_peer_to_lists\<close>. \<open>events\<close> are what the task meets: \<open>Check b\<close> when it looks at \<open>stopping\<close>,
  \<open>Stored b\<close> the result of \<open>store_nodes_in_list\<close>. The value is the number of stores and the rest of
  the events; \<open>None\<close> while the task is still running when they are used up. At most \<open>MAX_RETIRES\<close>
  stores are tried before the periodic ones.
\<close>

datatype keep_event = Check bool | Stored bool

fun first_rounds :: "nat \<Rightarrow> keep_event list \<Rightarrow> (nat \<times> keep_event list) option" where
  "first_rounds 0 es = Some (0, es)"
| "first_rounds (Suc n) (Check stopping # es) =
     (if stopping then Some (0, es)
      else case es of
        Stored ok # es' \<Rightarrow> if ok then Some (1, es') else map_option (apfst Suc) (first_rounds n es')
      | _ \<Rightarrow> None)"
| "first_rounds (Suc n) es = None"

fun periodic_rounds :: "keep_event list \<Rightarrow> (nat \<times> keep_event list) option" where
  "periodic_rounds (Check stopping # es) =
     (if stopping then Some (0, es)
      else case es of Stored ok # es' \<Rightarrow> map_option (apfst Suc) (periodic_rounds es') | _ \<Rightarrow> None)"
| "periodic_rounds es = None"

definition add_this_peer_to_lists :: "bool \<Rightarrow> keep_event list \<Rightarrow> (nat \<times> keep_event list) option" where
  "add_this_peer_to_lists already_running events =
     (if already_running then Some (0, events)
      else case first_rounds (nat MAX_RETIRES) events of
        None \<Rightarrow> None
      | Some (n, es) \<Rightarrow> map_option (apfst ((+) n)) (periodic_rounds es))"

text \<open>Seven rounds at most are made at first, and they end with the first success.\<close>

lemma first_rounds_bound: "first_rounds n es = Some (k, es') \<Longrightarrow> k \<le> n"
proof (induction n es arbitrary: k rule: first_rounds.induct)
  case (2 n stopping es)
  then show ?case by (auto split: if_splits list.splits keep_event.splits)
qed auto

text \<open>Once the server stops, the task ends at its next look, after at most one more store.\<close>

lemma periodic_rounds_stop:
  "periodic_rounds (Check True # es) = Some (0, es)" "periodic_rounds (Check False # Stored ok # Check True # es) = Some (1, es)"
  by simp_all

lemma periodic_rounds_run:
  "periodic_rounds (concat (map (\<lambda>ok. [Check False, Stored ok]) oks) @ Check True # es) = Some (length oks, es)"
  by (induction oks) auto

lemma keeps_storing:
  "add_this_peer_to_lists False
     (Check False # Stored True # concat (map (\<lambda>ok. [Check False, Stored ok]) oks) @ Check True # es) = Some (Suc (length oks), es)"
proof -
  have "first_rounds (nat MAX_RETIRES) (Check False # Stored True # es') = Some (1, es')" for es'
    by (simp add: MAX_RETIRES_def eval_nat_numeral)
  then show ?thesis by (simp add: add_this_peer_to_lists_def periodic_rounds_run)
qed

section \<open>Peers and the page\<close>

text \<open>
  The callbacks of the routing table: \<open>new_peer\<close> when a contact is added, \<open>remove_peer\<close> when one is
  dropped, which has the peer checked first. \<open>use.sync\<close> runs the page's update to its end.
\<close>

definition shown_new_peer :: "remote_peer \<Rightarrow> peer_dict \<times> page \<Rightarrow> unit res \<times> peer_dict \<times> page" where
  "shown_new_peer peer dp = (case update_peer peer (snd dp) of (out, pg) \<Rightarrow> (out, new_peer peer (fst dp), pg))"

definition shown_may_be_remove :: "remote_peer \<Rightarrow> bool \<Rightarrow> page \<Rightarrow> unit res \<times> remote_peer \<times> page" where
  "shown_may_be_remove peer what pg =
     (if what then (Inr (), peer, pg)
      else case update_peer (may_be_remove peer what) pg of (out, pg') \<Rightarrow> (out, may_be_remove peer what, pg'))"

text \<open>
  \<open>remove_peer\<close>: \<open>result\<close> is the result of a check that is done; otherwise a task waits for the check
  and does the rest, with the result \<open>later\<close>.
\<close>

definition kad_remove_peer :: "bool option \<Rightarrow> bool \<Rightarrow> remote_peer \<Rightarrow> page \<Rightarrow> unit res \<times> remote_peer \<times> page" where
  "kad_remove_peer result later peer pg =
     (case result of
        Some what \<Rightarrow> shown_may_be_remove peer what pg
      | None \<Rightarrow> (case shown_may_be_remove peer later pg of (_, p, pg') \<Rightarrow> (Inr (), p, pg')))"

definition add_contact :: "(remote_peer \<Rightarrow> 't \<Rightarrow> 't) \<Rightarrow> remote_peer \<Rightarrow> 't \<times> peer_dict \<times> page \<Rightarrow> unit res \<times> 't \<times> peer_dict \<times> page" where
  "add_contact table_add peer st =
     (case shown_new_peer peer (snd st) of (out, dp) \<Rightarrow> (out, table_add peer (fst st), dp))"



end
