(* ===== verification/Node.thy ===== *)
theory Node
  imports Gossip Kad_Server
begin

text \<open>
  The requests side of a node put together: what \<open>initiate\<close> of \<open>src/core/requests.py\<close>,
  \<open>initiate_gossip\<close> of \<open>src/core/gossip.py\<close>, \<open>register_into_dispatcher\<close> of
  \<open>src/core/_kademlia.py\<close> and \<open>discovery_initiate\<close> of \<open>src/core/discover.py\<close> register at the
  dispatcher, and what a datagram does from its bytes to the state of the component it is for.

  The rpc layer of the kademlia package is an argument: \<open>ne_receive\<close> decodes what it is given and calls
  a procedure of the protocol. That it does nothing else to the protocol is the hypothesis
  \<open>receives_calls\<close>.
\<close>

section \<open>State and surroundings\<close>

record node =
  nd_gossip :: gossip_state
  nd_searches :: "(pyval, search_iter) pydict"
  nd_gossip_group :: task_group
  nd_kad :: kad_state
  nd_discovery :: "(task_group \<times> unit requests_dispatcher) option"
  nd_bootstraps :: "pyval list list"
  nd_sent :: "(bytes \<times> pyval list) list"

record node_env =
  ne_gossip :: gossip_env
  ne_load_peer :: "bytes \<Rightarrow> pyval res"
  ne_me :: remote_peer
  ne_me_bytes :: bytes
  ne_this_ip :: string
  ne_receive :: "pyval \<Rightarrow> addr \<Rightarrow> kad_state \<Rightarrow> unit res \<times> kad_state"
  ne_bootstrap :: "unit res"

definition addr_values :: "addr \<Rightarrow> pyval list" where
  "addr_values a = [PStr (fst a), PInt (int (snd a))]"

section \<open>Handlers\<close>

definition GlobalGossipMessageHandler :: "node_env \<Rightarrow> wire_data \<Rightarrow> addr \<Rightarrow> node \<Rightarrow> unit res \<times> node" where
  "GlobalGossipMessageHandler env message from_addr n =
     (case gossip_repr message of
        Inl e \<Rightarrow> (Inl e, n)
      | Inr _ \<Rightarrow> (case message_arrived (ne_gossip env) message (nd_gossip n) of (r, s) \<Rightarrow> (r, n\<lparr>nd_gossip := s\<rparr>)))"

text \<open>The search handler of theory Gossip, with the reply sent through the transport.\<close>

definition search_request_handler :: "node_env \<Rightarrow> wire_data \<Rightarrow> addr \<Rightarrow> node \<Rightarrow> unit res \<times> node" where
  "search_request_handler env message from_addr n =
     (case GossipSearchReqHandler (ne_gossip env) (ne_me env) (ne_me_bytes env) message (nd_gossip n) of
        (Inl e, s) \<Rightarrow> (Inl e, n\<lparr>nd_gossip := s\<rparr>)
      | (Inr None, s) \<Rightarrow> (Inr (), n\<lparr>nd_gossip := s\<rparr>)
      | (Inr (Some reply), s) \<Rightarrow>
          (case res_bind (WireData_bytes (ge_dumps (ne_gossip env)) reply) (transport_sendto GossipTransport) of
             Inl e \<Rightarrow> (Inl e, n\<lparr>nd_gossip := s\<rparr>)
           | Inr dgram \<Rightarrow> (Inr (), n\<lparr>nd_gossip := s, nd_sent := nd_sent n @ [(dgram, addr_values from_addr)]\<rparr>)))"

definition GossipSearchReplyHandler :: "node_env \<Rightarrow> wire_data \<Rightarrow> addr \<Rightarrow> node \<Rightarrow> unit res \<times> node" where
  "GossipSearchReplyHandler env message from_addr n =
     (case gossip_repr message of
        Inl e \<Rightarrow> (Inl e, n)
      | Inr _ \<Rightarrow>
          (case reply_arrived (ne_gossip env) (ne_load_peer env) message (nd_gossip n, nd_searches n) of
             (r, s, searches) \<Rightarrow> (r, n\<lparr>nd_gossip := s, nd_searches := searches\<rparr>)))"

text \<open>\<open>initiate_gossip\<close>: the registry of the gossip dispatcher.\<close>

definition initiate_gossip :: "node_env \<Rightarrow> (pyval, wire_data \<Rightarrow> addr \<Rightarrow> node \<Rightarrow> unit res \<times> node) pydict" where
  "initiate_gossip env =
     [(GOSSIP_MESSAGE, GlobalGossipMessageHandler env), (GOSSIP_SEARCH_REQ, search_request_handler env),
      (GOSSIP_SEARCH_REPLY, GossipSearchReplyHandler env)]"

text \<open>
  A dispatcher that is registered as a handler: calling it makes a task of its own task group, which
  the caller awaits.
\<close>

definition gossip_dispatcher :: "node_env \<Rightarrow> request_event \<Rightarrow> node \<Rightarrow> unit res \<times> node" where
  "gossip_dispatcher env ev n =
     (case queue_call (GossipDispatcher_submit (initiate_gossip env)) ev (nd_gossip_group n, n) of
        (r, g, n') \<Rightarrow> (r, n'\<lparr>nd_gossip_group := g\<rparr>))"

definition kademlia_handler :: "node_env \<Rightarrow> request_event \<Rightarrow> node \<Rightarrow> unit res \<times> node" where
  "kademlia_handler env ev n =
     (case KademliaHandler (ne_receive env) (ev_request ev) (ev_from_addr ev) (nd_kad n) of (r, kd) \<Rightarrow> (r, n\<lparr>nd_kad := kd\<rparr>))"

text \<open>The discovery handlers on the part of the node they change: addresses to bootstrap from, datagrams sent.\<close>

type_synonym discovered = "pyval list list \<times> (bytes \<times> pyval list) list"

definition discovery_registry :: "node_env \<Rightarrow> (pyval, request_event \<Rightarrow> discovered \<Rightarrow> unit res \<times> discovered) pydict" where
  "discovery_registry env =
     [(PBytes NETWORK_FIND_REPLY, \<lambda>ev (b, s). case DiscoveryReplyHandler (ne_this_ip env) ev of
          Inl e \<Rightarrow> (Inl e, b, s) | Inr None \<Rightarrow> (Inr (), b, s) | Inr (Some a) \<Rightarrow> (ne_bootstrap env, b @ [a], s)),
      (PBytes NETWORK_FIND, \<lambda>ev (b, s). case DiscoveryRequestHandler (ge_dumps (ne_gossip env)) (ne_this_ip env) (ne_me env) ev of
          Inl e \<Rightarrow> (Inl e, b, s) | Inr None \<Rightarrow> (Inr (), b, s) | Inr (Some d) \<Rightarrow> (Inr (), b, s @ [d]))]"

definition discovery_dispatcher ::
    "node_env \<Rightarrow> task_group \<times> unit requests_dispatcher \<Rightarrow> request_event \<Rightarrow> node \<Rightarrow> unit res \<times> node" where
  "discovery_dispatcher env gd ev n =
     (case queue_call (DiscoveryDispatcher_submit (discovery_registry env)) ev
             (fst gd, \<lparr>rd_replies = rd_replies (snd gd), rd_world = (nd_bootstraps n, nd_sent n)\<rparr>) of
        (r, g, d) \<Rightarrow> (r, n\<lparr>nd_bootstraps := fst (rd_world d), nd_sent := snd (rd_world d),
                          nd_discovery := Some (g, \<lparr>rd_replies = rd_replies d, rd_world = ()\<rparr>)\<rparr>))"

text \<open>
  What is registered at the requests dispatcher: Kademlia and gossip from the start, discovery once its
  state has been entered.
\<close>

definition requests_registry :: "node_env \<Rightarrow> node \<Rightarrow> (bytes, request_event \<Rightarrow> node \<Rightarrow> unit res \<times> node) pydict" where
  "requests_registry env n =
     [(KADEMLIA, kademlia_handler env), (GOSSIP, gossip_dispatcher env)] @
     (case nd_discovery n of None \<Rightarrow> [] | Some gd \<Rightarrow> [(DISCOVERY, discovery_dispatcher env gd)])"

definition discovery_initiate :: "node \<Rightarrow> node" where
  "discovery_initiate n = n\<lparr>nd_discovery :=
     Some (\<lparr>tg_aborting = False, tg_parent_running = True\<rparr>, \<lparr>rd_replies = empty_registry, rd_world = ()\<rparr>)\<rparr>"

text \<open>
  \<open>_try_asking_user\<close>: \<open>answer\<close> is what the page answers (\<open>None\<close> while it has not), \<open>resolve\<close> the
  addresses of a name. The result is what is sent and the names reported as not reached.
\<close>

definition try_asking_user ::
    "pyval option \<Rightarrow> (pyval \<Rightarrow> pyval list list res) \<Rightarrow> bytes \<Rightarrow> ((bytes \<times> pyval list) list \<times> pyval list) res option" where
  "try_asking_user answer resolve discovery_packet =
     map_option (\<lambda>peer_name.
       if \<not> py_truth peer_name then Inr ([], [])
       else case resolve peer_name of
         Inr addrs \<Rightarrow> Inr (map (Pair discovery_packet) addrs, [])
       | Inl e \<Rightarrow> if is_OSError e then Inr ([], [peer_name]) else Inl e) answer"

text \<open>
  \<open>send_discovery_requests\<close>: the packets sent at first, the question to the user if the server is not
  bootstrapped then, and the first \<open>n\<close> rounds of the passive mode, which runs beside the question.
\<close>

definition send_discovery_requests ::
    "(nat \<Rightarrow> bool) \<Rightarrow> bool \<Rightarrow> pyval option \<Rightarrow> (pyval \<Rightarrow> pyval list list res) \<Rightarrow> bytes \<Rightarrow> (nat \<Rightarrow> bool \<times> bool) \<Rightarrow> nat \<Rightarrow>
     nat \<times> ((bytes \<times> pyval list) list \<times> pyval list) res option \<times> passive_action list" where
  "send_discovery_requests boot booted answer resolve packet obs n =
     (send_discovery_packet boot,
      if booted then Some (Inr ([], [])) else try_asking_user answer resolve packet,
      passive_mode obs n)"

text \<open>
  The page never answers a question (theory Page), so a node that is alone at start waits for the user
  for ever; its passive mode goes on all the same.
\<close>

lemma discovery_waits_for_user:
  "send_discovery_requests boot False None resolve packet obs n = (send_discovery_packet boot, None, passive_mode obs n)"
  by (simp add: send_discovery_requests_def try_asking_user_def)

text \<open>The node as a whole: the task group of the requests dispatcher, its replies, and the rest.\<close>

type_synonym endpoint = "task_group \<times> node requests_dispatcher"

definition requests_initiate :: endpoint where
  "requests_initiate =
     (\<lparr>tg_aborting = False, tg_parent_running = True\<rparr>,
      \<lparr>rd_replies = empty_registry,
       rd_world = \<lparr>nd_gossip = \<lparr>gs_list = SimpleRumorMessageList NODE_POV_GOSSIP_TTL, gs_out = []\<rparr>, nd_searches = [],
         nd_gossip_group = \<lparr>tg_aborting = False, tg_parent_running = True\<rparr>,
         nd_kad = \<lparr>kd_lists = [], kd_values = [], kd_contacts = []\<rparr>, nd_discovery = None,
         nd_bootstraps = [], nd_sent = []\<rparr>\<rparr>)"

definition world :: "endpoint \<Rightarrow> node" where "world p = rd_world (snd p)"

definition map_world :: "(node \<Rightarrow> node) \<Rightarrow> endpoint \<Rightarrow> endpoint" where
  "map_world f p = (fst p, (snd p)\<lparr>rd_world := f (world p)\<rparr>)"

definition node_datagram :: "(bytes \<Rightarrow> pyval res) \<Rightarrow> node_env \<Rightarrow> bytes \<times> addr \<Rightarrow> endpoint \<Rightarrow> endpoint" where
  "node_datagram loads env d p = on_datagram loads (requests_registry env (world p)) d p"

section \<open>Invariants of a node under arbitrary datagrams\<close>

definition receives_calls :: "kad_env \<Rightarrow> node_env \<Rightarrow> bool" where
  "receives_calls kenv env \<longleftrightarrow> (\<forall>v a kd. (kad_step kenv)\<^sup>*\<^sup>* kd (snd (ne_receive env v a kd)))"

definition env_ok :: "kad_env \<Rightarrow> node_env \<Rightarrow> bool" where
  "env_ok kenv env \<longleftrightarrow> receives_calls kenv env \<and> dict_wf (ge_peers (ne_gossip env))"

text \<open>
  A step of the node: a datagram of any bytes, the start of discovery, a new message or the end of an
  old one in the gossip part, a search, the end of the task that started the endpoint.
\<close>

inductive node_step :: "kad_env \<Rightarrow> endpoint \<Rightarrow> endpoint \<Rightarrow> bool" for kenv where
  node_bytes: "env_ok kenv env \<Longrightarrow> node_step kenv p (node_datagram loads env d p)"
| node_discovers: "node_step kenv p (map_world discovery_initiate p)"
| node_gossips: "gossip_step (nd_gossip (world p)) s \<Longrightarrow> node_step kenv p (map_world (\<lambda>n. n\<lparr>nd_gossip := s\<rparr>) p)"
| node_searches: "env_ok kenv env \<Longrightarrow> PStr uid \<notin> set (ml_dropped (gs_list (nd_gossip (world p)))) \<Longrightarrow>
    \<not> dmem (PStr uid) (ml_messages (gs_list (nd_gossip (world p)))) \<Longrightarrow>
    search_for (ne_gossip env) find_str uid started (nd_gossip (world p), nd_searches (world p)) = (r, s, searches) \<Longrightarrow>
    node_step kenv p (map_world (\<lambda>n. n\<lparr>nd_gossip := s, nd_searches := searches\<rparr>) p)"
| node_started: "node_step kenv p ((fst p)\<lparr>tg_parent_running := False\<rparr>, snd p)"

definition parts_inv :: "node \<Rightarrow> bool" where
  "parts_inv n \<longleftrightarrow> gossip_inv (nd_gossip n) \<and> kad_inv (nd_kad n)"

lemma world_simps [simp]: "world (map_world f p) = f (world p)" "world (g, snd p) = world p"
  by (simp_all add: world_def map_world_def)

lemma message_handler_inv:
  assumes "dict_wf (ge_peers (ne_gossip env))" "parts_inv n"
  shows "parts_inv (snd (GlobalGossipMessageHandler env message a n))"
  using assms message_arrived_inv[of "nd_gossip n" "ne_gossip env" message]
  by (auto simp: GlobalGossipMessageHandler_def parts_inv_def split: sum.split prod.split)

lemma search_handler_inv:
  assumes "dict_wf (ge_peers env)" "gossip_inv s"
  shows "gossip_inv (snd (GossipSearchReqHandler env me me_bytes message s))"
  using assms message_arrived_inv[of s env message]
  by (auto simp: GossipSearchReqHandler_def split: sum.split prod.split)

lemma search_request_handler_inv:
  assumes "dict_wf (ge_peers (ne_gossip env))" "parts_inv n"
  shows "parts_inv (snd (search_request_handler env message a n))"
  using assms search_handler_inv[of "ne_gossip env" "nd_gossip n" "ne_me env" "ne_me_bytes env" message]
  by (auto simp: search_request_handler_def parts_inv_def split: sum.split prod.split option.split)

lemma reply_arrived_gossip: "fst (snd (reply_arrived env load reply st)) = snd (message_arrived env reply (fst st))"
  by (auto simp: reply_arrived_def split: sum.split prod.split option.split)

lemma reply_handler_inv:
  assumes "dict_wf (ge_peers (ne_gossip env))" "parts_inv n"
  shows "parts_inv (snd (GossipSearchReplyHandler env message a n))"
  using assms message_arrived_inv[of "nd_gossip n" "ne_gossip env" message]
    reply_arrived_gossip[of "ne_gossip env" "ne_load_peer env" message "(nd_gossip n, nd_searches n)"]
  by (auto simp: GossipSearchReplyHandler_def parts_inv_def split: sum.split prod.split)

lemma gossip_dispatcher_inv:
  assumes "dict_wf (ge_peers (ne_gossip env))" "parts_inv n"
  shows "parts_inv (snd (gossip_dispatcher env ev n))"
proof -
  have "parts_inv (snd (GossipDispatcher_submit (initiate_gossip env) ev n))"
    using assms message_handler_inv search_request_handler_inv reply_handler_inv
    by (auto simp: GossipDispatcher_submit_def initiate_gossip_def Let_def split: option.split)
  then show ?thesis
    using assms(2) by (auto simp: gossip_dispatcher_def queue_call_def parts_inv_def split: prod.split)
qed

lemma kademlia_handler_inv:
  assumes "receives_calls kenv env" "parts_inv n"
  shows "parts_inv (snd (kademlia_handler env ev n))"
proof -
  have "kad_inv kd" if "ne_receive env v a (nd_kad n) = (r, kd)" for v a r kd
    using assms kad.steps_inv that unfolding receives_calls_def parts_inv_def by (metis snd_conv)
  then show ?thesis
    using assms(2) by (auto simp: kademlia_handler_def KademliaHandler_def parts_inv_def split: sum.split prod.split)
qed

lemma discovery_dispatcher_inv: "parts_inv n \<Longrightarrow> parts_inv (snd (discovery_dispatcher env gd ev n))"
  by (simp add: discovery_dispatcher_def parts_inv_def split: prod.split)

lemma on_datagram_world:
  assumes "\<And>code h ev n. dget registry code = Some h \<Longrightarrow> P n \<Longrightarrow> P (snd (h ev n))" "P (rd_world (snd p))"
  shows "P (rd_world (snd (on_datagram loads registry d p)))"
proof -
  have submit: "P (rd_world (snd (RequestsDispatcher_submit registry ev (snd p))))" for ev
  proof (cases "dget registry (ev_root_code ev)")
    case (Some h)
    then show ?thesis
      using assms(1)[OF Some assms(2), of ev] assms(2)
      by (auto simp: RequestsDispatcher_submit_def Let_def split: sum.split prod.split)
  qed (use assms(2) in \<open>auto simp: RequestsDispatcher_submit_def Let_def split: sum.split\<close>)
  have "P (rd_world s)" if "RequestsDispatcher_submit registry ev (snd p) = (r, s)" for ev r s
    using submit[of ev] that by simp
  then show ?thesis
    using assms(2) by (auto simp: on_datagram_def queue_call_def split: sum.split option.split prod.split)
qed

lemma node_datagram_inv:
  assumes "env_ok kenv env" "parts_inv (world p)"
  shows "parts_inv (world (node_datagram loads env d p))"
proof -
  have "parts_inv (snd (h ev n))" if h: "dget (requests_registry env (world p)) code = Some h" "parts_inv n" for code h ev n
  proof -
    have "h = kademlia_handler env \<or> h = gossip_dispatcher env \<or> (\<exists>gd. h = discovery_dispatcher env gd)"
      using h(1) by (auto simp: requests_registry_def split: if_splits option.splits)
    then show ?thesis
      using assms(1) h(2) kademlia_handler_inv gossip_dispatcher_inv discovery_dispatcher_inv
      unfolding env_ok_def by blast
  qed
  then show ?thesis
    unfolding node_datagram_def world_def
    using on_datagram_world[of "requests_registry env (rd_world (snd p))" parts_inv p loads d] assms(2)
    by (simp add: world_def)
qed

lemma search_for_inv:
  assumes "dict_wf (ge_peers env)" "gossip_inv (fst st)" "PStr uid \<notin> set (ml_dropped (gs_list (fst st)))"
    "\<not> dmem (PStr uid) (ml_messages (gs_list (fst st)))"
  shows "gossip_inv (fst (snd (search_for env find_str uid started st)))"
proof -
  have "w_id (prepare_search_message find_str uid (ge_time env)) = PStr uid"
    by (simp add: prepare_search_message_def gossip_field_defs)
  then show ?thesis
    using gossip_new_message_inv[of "fst st" env "prepare_search_message find_str uid (ge_time env)"] assms
    by (auto simp: search_for_def Let_def split: sum.split prod.split)
qed

interpretation node: inv_system "\<lambda>p. p = requests_initiate" "node_step kenv" "\<lambda>p. parts_inv (world p)" for kenv
proof
  show "parts_inv (world p)" if "p = requests_initiate" for p
    using that rumor.init_inv[of "nd_gossip (world requests_initiate)"] kad.init_inv[of "nd_kad (world requests_initiate)"]
    by (simp add: parts_inv_def requests_initiate_def world_def gossip_init_def kad_init_def)
  show "parts_inv (world q)" if "parts_inv (world p)" "node_step kenv p q" for p q
    using that(2)
  proof cases
    case (node_bytes env loads d)
    then show ?thesis using node_datagram_inv that(1) by blast
  next
    case (node_gossips s)
    then show ?thesis using that(1) rumor.step_inv[OF _ node_gossips(2)] by (simp add: parts_inv_def)
  next
    case (node_searches env uid find_str started r s searches)
    then show ?thesis
      using that(1) search_for_inv[of "ne_gossip env" "(nd_gossip (world p), nd_searches (world p))" uid find_str started]
      by (simp add: parts_inv_def env_ok_def)
  qed (use that(1) in \<open>simp_all add: parts_inv_def discovery_initiate_def\<close>)
qed

text \<open>
  C5. A node keeps its invariants whatever it receives: in every state that is reached by datagrams of
  any bytes, by new and expiring messages and by searches, in any order, with any clocks and random
  numbers, no rumour has been sent to the same peer twice and the stored lists of peers are well formed.
  Of the package that decodes remote calls it is only asked that it does nothing but call the
  procedures of the protocol.
\<close>

theorem node_keeps_invariants:
  assumes "reachable (\<lambda>p. p = requests_initiate) (node_step kenv) p"
  shows "distinct (sent_to (nd_gossip (world p))) \<and> storage_wf (kd_lists (nd_kad (world p)))"
  using node.reachable_inv[OF assms] by (simp add: parts_inv_def gossip_inv_def kad_inv_def)

definition example_env :: node_env where
  "example_env = \<lparr>ne_gossip = \<lparr>ge_monotonic = 0, ge_time = 1, ge_random = 0, ge_randint = (\<lambda>i. 0),
       ge_peers = [(''p'', key_peer [1])], ge_dumps = (\<lambda>v. Inr [7])\<rparr>,
     ne_load_peer = Inr \<circ> PBytes, ne_me = key_peer [2], ne_me_bytes = [2], ne_this_ip = ''::1'',
     ne_receive = (\<lambda>v a kd. (Inr (), kd)), ne_bootstrap = Inr ()\<rparr>"

definition example_message :: wire_data where
  "example_message = WireData GOSSIP_MESSAGE (PInt 1) PNone (PFloat 1)
     [(''message'', PStr ''hi''), (''id'', PInt 1), (''ttl'', PInt 3), (''created'', PInt 0)]"

definition example_loads :: "bytes \<Rightarrow> pyval res" where
  "example_loads b = (if b = [7] then Inr (msgpack_norm (wire_attributes example_message)) else Inl UnpackException)"

theorem node_keeps_invariants_witness:
  "distinct (sent_to (nd_gossip (world (node_datagram example_loads example_env ([2, 0, 0, 0, 1, 7], (''::1'', 3)) requests_initiate))))"
proof -
  have "env_ok kenv example_env" for kenv
    by (simp add: env_ok_def receives_calls_def example_env_def dict_wf_def)
  then have "reachable (\<lambda>p. p = requests_initiate) (node_step undefined)
      (node_datagram example_loads example_env ([2, 0, 0, 0, 1, 7], (''::1'', 3)) requests_initiate)"
    by (intro reachable_one[where s = requests_initiate] node_bytes) simp
  from node_keeps_invariants[OF this] show ?thesis by blast
qed

section \<open>From one node to another\<close>

lemma forward_loop_frames:
  "\<forall>x \<in> set (gs_out (snd (forward_loop env message pids s))) - set (gs_out s).
     \<exists>pid raw dgram. x = (w_id message, pid, dgram) \<and> get_peer (ge_peers env) pid \<noteq> None \<and>
       WireData_bytes (ge_dumps env) message = Inr raw \<and> transport_sendto GossipTransport raw = Inr dgram"
proof (induction pids arbitrary: s)
  case (Cons pid pids)
  show ?case
  proof (cases "forward_payload env message pid")
    case (Inr v)
    show ?thesis
    proof (cases v)
      case (Some pd)
      obtain peer dgram where pd: "pd = (peer, dgram)" by (cases pd)
      have "get_peer (ge_peers env) pid \<noteq> None \<and> (\<exists>raw. WireData_bytes (ge_dumps env) message = Inr raw \<and>
          transport_sendto GossipTransport raw = Inr dgram)"
        using Inr Some pd by (auto simp: forward_payload_def split: option.splits)
      then show ?thesis
        using Cons.IH[of "s\<lparr>gs_out := gs_out s @ [(w_id message, pid, dgram)]\<rparr>"] Inr Some pd by auto
    qed (use Inr in simp)
  qed simp
qed simp

lemma new_message_frames:
  assumes "x \<in> set (gs_out (snd (gossip_new_message env message s)))" "x \<notin> set (gs_out s)"
  shows "gossip_repr message = Inr () \<and> hashable (w_id message) \<and>
    (\<exists>pid raw dgram. x = (w_id message, pid, dgram) \<and> get_peer (ge_peers env) pid \<noteq> None \<and>
       WireData_bytes (ge_dumps env) message = Inr raw \<and> transport_sendto GossipTransport raw = Inr dgram)"
proof -
  have repr: "gossip_repr message = Inr ()" using assms by (cases "gossip_repr message") (auto simp: gossip_new_message_def)
  then obtain ml where ml: "push (ge_monotonic env) message (gs_list s) = Inr ml"
    using assms by (cases "push (ge_monotonic env) message (gs_list s)") (auto simp: gossip_new_message_def)
  let ?s = "s\<lparr>gs_list := ml\<rparr>"
  have x: "x \<in> set (gs_out (snd (gossip_forward env message ?s)))" using assms(1) repr ml by (simp add: gossip_new_message_def)
  then obtain pids ml' where "sample_peers (ge_randint env) (dkeys (ge_peers env)) (w_id message) alpha ml = Inr (pids, ml')"
    using assms(2) by (cases "sample_peers (ge_randint env) (dkeys (ge_peers env)) (w_id message) alpha ml")
      (auto simp: gossip_forward_def)
  then have "x \<in> set (gs_out (snd (forward_loop env message pids (?s\<lparr>gs_list := ml'\<rparr>))))"
    using x by (simp add: gossip_forward_def)
  moreover have "hashable (w_id message)" using ml by (simp add: push_def split: if_splits)
  ultimately show ?thesis
    using repr assms(2) forward_loop_frames[of env message pids "?s\<lparr>gs_list := ml'\<rparr>"] by auto
qed

lemma gossip_repr_norm: "gossip_repr w = Inr () \<Longrightarrow> gossip_repr (norm_wire w) = Inr ()"
proof -
  assume w: "gossip_repr w = Inr ()"
  have "gossip_message (norm_wire w) = msgpack_norm (gossip_message w)"
  proof -
    have "map_of (map (\<lambda>p. (fst p, msgpack_norm (snd p))) b) k = map_option msgpack_norm (map_of b k)" for b :: "(string \<times> pyval) list" and k
      by (induction b) auto
    then show ?thesis by (simp add: gossip_message_def body_get_def norm_wire_def split: option.split)
  qed
  then show ?thesis using w by (cases "gossip_message w") (simp_all add: gossip_repr_def)
qed



end
