(* ===== verification/Py_Float.thy ===== *)
theory Py_Float
  imports Prelude "HOL-Library.Log_Nat"
begin

text \<open>
  Python's float arithmetic as the code uses it: the exact result of each operation rounded to the
  nearest number with 53 significant bits, ties to even (IEEE double precision; the values here
  are far from overflow and underflow). The locale \<open>float_rounding\<close> holds the laws the code relies
  on; \<open>fl\<close> is its instance.
\<close>

section \<open>The laws\<close>

locale float_rounding =
  fixes rnd :: "rat \<Rightarrow> rat"
  assumes rnd_mono: "0 \<le> x \<Longrightarrow> x \<le> y \<Longrightarrow> rnd x \<le> rnd y"
    and rnd_nat: "n < 2 ^ 53 \<Longrightarrow> rnd (of_nat n) = of_nat n"
begin

lemma rnd_lower: "n < 2 ^ 53 \<Longrightarrow> of_nat n \<le> x \<Longrightarrow> of_nat n \<le> rnd x"
  using rnd_mono[of "of_nat n" x] by (simp add: rnd_nat)

lemma rnd_upper: "n < 2 ^ 53 \<Longrightarrow> 0 \<le> x \<Longrightarrow> x \<le> of_nat n \<Longrightarrow> rnd x \<le> of_nat n"
  using rnd_mono[of x "of_nat n"] by (simp add: rnd_nat)

lemma rnd_nonneg: "0 \<le> x \<Longrightarrow> 0 \<le> rnd x"
  using rnd_lower[of 0 x] by simp

end

section \<open>Rounding to 53 bits\<close>

definition round_half_even :: "rat \<Rightarrow> int" where
  "round_half_even x =
     (let f = \<lfloor>x\<rfloor>; r = x - of_int f
      in if r < 1 / 2 then f else if r > 1 / 2 then f + 1 else if even f then f else f + 1)"

text \<open>The exponent \<open>e\<close> with \<open>2 powi e \<le> x < 2 powi (e + 1)\<close> of a positive number.\<close>

definition binexp :: "rat \<Rightarrow> int" where
  "binexp x = (let (n, d) = quotient_of x; e = bitlen n - bitlen d
     in if 2 powi e \<le> x then e else e - 1)"

definition fl :: "rat \<Rightarrow> rat" where
  "fl x = (if x \<le> 0 then x
     else let u = 2 powi (binexp x - 52) in of_int (round_half_even (x / u)) * u)"

lemma round_half_even_int [simp]: "round_half_even (of_int n) = n"
  by (simp add: round_half_even_def)

lemma round_half_even_floor: "\<lfloor>x\<rfloor> \<le> round_half_even x \<and> round_half_even x \<le> \<lfloor>x\<rfloor> + 1"
  by (simp add: round_half_even_def Let_def)

lemma round_half_even_mono: "x \<le> y \<Longrightarrow> round_half_even x \<le> round_half_even y"
proof -
  assume xy: "x \<le> y"
  then have "\<lfloor>x\<rfloor> \<le> \<lfloor>y\<rfloor>" by (rule floor_mono)
  then consider "\<lfloor>x\<rfloor> = \<lfloor>y\<rfloor>" | "\<lfloor>x\<rfloor> + 1 \<le> \<lfloor>y\<rfloor>" by linarith
  then show ?thesis
  proof cases
    case 1
    then show ?thesis using xy by (auto simp: round_half_even_def Let_def)
  next
    case 2
    then show ?thesis using round_half_even_floor[of x] round_half_even_floor[of y] by linarith
  qed
qed

lemma binexp_bounds:
  assumes "0 < x"
  shows "2 powi binexp x \<le> x \<and> x < 2 powi (binexp x + 1)"
proof -
  obtain n d where q: "quotient_of x = (n, d)" by (cases "quotient_of x")
  have d: "0 < d" and x: "x = of_int n / of_int d"
    using q by (auto simp: quotient_of_denom_pos quotient_of_div)
  then have n: "0 < n"
    using assms by (simp add: zero_less_divide_iff)
  have nb: "(2::rat) ^ nat (bitlen n - 1) \<le> of_int n" "of_int n < (2::rat) ^ nat (bitlen n)"
    using bitlen_bounds[OF n] by (metis of_int_le_iff of_int_less_iff of_int_numeral of_int_power)+
  have db: "(2::rat) ^ nat (bitlen d - 1) \<le> of_int d" "of_int d < (2::rat) ^ nat (bitlen d)"
    using bitlen_bounds[OF d] by (metis of_int_le_iff of_int_less_iff of_int_numeral of_int_power)+
  have bl: "1 \<le> bitlen n" "1 \<le> bitlen d"
    using n d by (simp_all add: bitlen_def floorlog_def)
  have pw: "(2::rat) powi k = 2 ^ nat k" if "0 \<le> k" for k
    using that by (simp add: power_int_def)
  define e where "e = bitlen n - bitlen d"
  have up: "x < 2 powi (e + 1)"
  proof -
    have "(2::rat) powi (e + 1) * 2 powi (bitlen d - 1) = 2 powi bitlen n"
      by (simp add: e_def power_int_add[symmetric])
    then have "of_int n < (2::rat) powi (e + 1) * 2 powi (bitlen d - 1)"
      using nb(2) bl by (simp add: pw)
    also have "\<dots> \<le> 2 powi (e + 1) * of_int d"
      using db(1) bl by (simp add: pw)
    finally show ?thesis using d by (simp add: x field_simps)
  qed
  have lo: "2 powi (e - 1) \<le> x"
  proof -
    have "(2::rat) powi (e - 1) * of_int d \<le> 2 powi (e - 1) * 2 powi bitlen d"
      using db(2) bl by (simp add: pw less_imp_le)
    also have "\<dots> = 2 powi (bitlen n - 1)"
      by (simp add: e_def power_int_add[symmetric])
    also have "\<dots> \<le> of_int n" using nb(1) bl by (simp add: pw)
    finally show ?thesis using d by (simp add: x field_simps)
  qed
  show ?thesis
    using up lo by (simp add: binexp_def q e_def[symmetric] Let_def not_le)
qed

lemma powi2_less_iff: "(2::rat) powi a < 2 powi b \<longleftrightarrow> a < b"
  by (metis linorder_not_less one_less_numeral_iff power_int_increasing power_int_strict_increasing semiring_norm(76) order_less_imp_le)

lemma binexp_mono: "0 < x \<Longrightarrow> x \<le> y \<Longrightarrow> binexp x \<le> binexp y"
proof -
  assume "0 < x" "x \<le> y"
  then have "(2::rat) powi binexp x < 2 powi (binexp y + 1)"
    using binexp_bounds[of x] binexp_bounds[of y] by linarith
  then show ?thesis by (simp add: powi2_less_iff)
qed

lemma binexp_eqI: "0 < x \<Longrightarrow> 2 powi e \<le> x \<Longrightarrow> x < 2 powi (e + 1) \<Longrightarrow> binexp x = e"
proof -
  assume "0 < x" "2 powi e \<le> x" "x < 2 powi (e + 1)"
  then have "(2::rat) powi e < 2 powi (binexp x + 1)" "(2::rat) powi binexp x < 2 powi (e + 1)"
    using binexp_bounds[of x] by linarith+
  then show ?thesis by (simp add: powi2_less_iff)
qed


lemma ulp_pos [simp]: "(0::rat) < 2 powi k"
  by (simp add: zero_less_power_int)

lemma powi_shift: "(2::rat) powi e = 2 ^ 52 * 2 powi (e - 52)" "(2::rat) powi (e + 1) = 2 ^ 53 * 2 powi (e - 52)"
proof -
  have "(2::rat) powi (52 + (e - 52)) = 2 powi 52 * 2 powi (e - 52)"
    "(2::rat) powi (53 + (e - 52)) = 2 powi 53 * 2 powi (e - 52)"
    by (simp_all only: power_int_add_numeral power_int_add[of "2::rat"] numeral_neq_zero simp_thms)
  then show "(2::rat) powi e = 2 ^ 52 * 2 powi (e - 52)" "(2::rat) powi (e + 1) = 2 ^ 53 * 2 powi (e - 52)"
    by (simp_all add: power_int_numeral add.commute)
qed

lemma scaled_bounds:
  assumes "0 < x"
  shows "2 ^ 52 \<le> x / 2 powi (binexp x - 52)" "x / 2 powi (binexp x - 52) < 2 ^ 53"
proof -
  show "2 ^ 52 \<le> x / 2 powi (binexp x - 52)" "x / 2 powi (binexp x - 52) < 2 ^ 53"
    using binexp_bounds[OF assms] powi_shift[of "binexp x"] by (simp_all add: pos_le_divide_eq pos_divide_less_eq)
qed

lemma fl_bounds:
  assumes "0 < x"
  shows "2 powi binexp x \<le> fl x" "fl x \<le> 2 powi (binexp x + 1)"
proof -
  let ?u = "(2::rat) powi (binexp x - 52)" and ?m = "round_half_even (x / 2 powi (binexp x - 52))"
  have lo: "2 ^ 52 \<le> ?m"
    using round_half_even_mono[OF scaled_bounds(1)[OF assms]] round_half_even_int[of "2 ^ 52"] by simp
  have up: "?m \<le> 2 ^ 53"
    using round_half_even_mono[OF less_imp_le[OF scaled_bounds(2)[OF assms]]]
      round_half_even_int[of "2 ^ 53"] by simp
  have eqs: "(2::rat) powi binexp x = of_int (2 ^ 52) * ?u" "(2::rat) powi (binexp x + 1) = of_int (2 ^ 53) * ?u"
    using powi_shift[of "binexp x"] by simp_all
  have "fl x = of_int ?m * ?u"
    using assms by (simp add: fl_def Let_def)
  then show "2 powi binexp x \<le> fl x" "fl x \<le> 2 powi (binexp x + 1)"
    unfolding eqs using lo up by (simp_all only: mult_le_cancel_right_pos ulp_pos of_int_le_iff)
qed

lemma fl_mono: "0 \<le> x \<Longrightarrow> x \<le> y \<Longrightarrow> fl x \<le> fl y"
proof (cases "x = 0")
  case True
  then show "x \<le> y \<Longrightarrow> fl x \<le> fl y"
    using order_trans[OF less_imp_le[OF ulp_pos] fl_bounds(1)[of y]] by (cases "y \<le> 0") (auto simp: fl_def)
next
  case False
  assume "0 \<le> x" and xy: "x \<le> y"
  with False have x: "0 < x" by simp
  then have y: "0 < y" using xy by simp
  show ?thesis
  proof (cases "binexp x = binexp y")
    case True
    have "x / 2 powi (binexp y - 52) \<le> y / 2 powi (binexp y - 52)"
      using xy by (simp add: divide_right_mono)
    then show ?thesis
      using x y True round_half_even_mono by (simp add: fl_def Let_def)
  next
    case False
    then have "binexp x + 1 \<le> binexp y"
      using binexp_mono[OF x xy] by simp
    then have "(2::rat) powi (binexp x + 1) \<le> 2 powi binexp y"
      by (simp add: power_int_increasing)
    then show ?thesis
      using fl_bounds(2)[OF x] fl_bounds(1)[OF y] by simp
  qed
qed

lemma fl_nat: "n < 2 ^ 53 \<Longrightarrow> fl (of_nat n) = of_nat n"
proof (cases "n = 0")
  case False
  assume n: "n < 2 ^ 53"
  have pos: "(0::rat) < of_nat n" using False by simp
  have "(of_nat n :: rat) < 2 ^ 53"
    using n by (metis of_nat_less_iff of_nat_numeral of_nat_power)
  moreover have "(2::rat) powi 53 = 2 ^ 53"
    by (rule power_int_numeral)
  ultimately have "(2::rat) powi binexp (of_nat n) < 2 powi 53"
    using binexp_bounds[OF pos] by linarith
  then have e: "binexp (of_nat n) < 53"
    by (simp only: powi2_less_iff)
  define k where "k = nat (52 - binexp (of_nat n))"
  have k: "binexp (of_nat n) - 52 = - int k"
    using e by (simp add: k_def)
  have u: "(2::rat) powi (binexp (of_nat n) - 52) = 1 / 2 ^ k"
    unfolding k by (simp add: power_int_minus divide_inverse)
  have "(of_nat n :: rat) / (1 / 2 ^ k) = of_int (int n * 2 ^ k)"
    by simp
  then have r: "round_half_even (of_nat n / (1 / 2 ^ k)) = int n * 2 ^ k"
    by (simp only: round_half_even_int)
  have "fl (of_nat n) = of_int (int n * 2 ^ k) * (1 / 2 ^ k)"
    using pos unfolding fl_def Let_def u r by (simp only: not_le[symmetric] if_False)
  then show ?thesis
    by simp
qed (simp add: fl_def)

interpretation double: float_rounding fl
  by unfold_locales (rule fl_mono, assumption+, rule fl_nat)

end
