(* ===== verification/Files.thy ===== *)
theory Files
  imports Useables Py_Float
begin

text \<open>
  \<open>src/transfers/files/_fileobject.py\<close>: the file item that travels with a file, the choice of a free
  name, the error extension and the chunk size, over the part of \<open>pathlib\<close> they use (POSIX paths)
  and a file system that maps paths to contents.
\<close>

section \<open>Paths\<close>

text \<open>A path: whether it is absolute, and its components.\<close>

type_synonym path = "bool \<times> string list"

fun split_on :: "char \<Rightarrow> string \<Rightarrow> string list" where
  "split_on c [] = [[]]"
| "split_on c (x # xs) =
     (if x = c then [] # split_on c xs
      else case split_on c xs of [] \<Rightarrow> [[x]] | p # ps \<Rightarrow> (x # p) # ps)"

definition path_parts :: "string \<Rightarrow> string list" where
  "path_parts s = filter (\<lambda>p. p \<noteq> [] \<and> p \<noteq> ''.'') (split_on CHR ''/'' s)"

definition path_of :: "string \<Rightarrow> path" where
  "path_of s = (s \<noteq> [] \<and> hd s = CHR ''/'', path_parts s)"

text \<open>\<open>Path(parent, name)\<close> and \<open>parent / name\<close>: an absolute name replaces the parent.\<close>

definition path_join :: "path \<Rightarrow> string \<Rightarrow> path" where
  "path_join parent s =
     (if fst (path_of s) then path_of s else (fst parent, snd parent @ path_parts s))"

definition path_name :: "path \<Rightarrow> string" where
  "path_name p = (if snd p = [] then [] else last (snd p))"

definition path_parent :: "path \<Rightarrow> path" where
  "path_parent p = (fst p, butlast (snd p))"

definition plain_name :: "string \<Rightarrow> bool" where
  "plain_name n \<longleftrightarrow> n \<noteq> [] \<and> n \<noteq> ''.'' \<and> CHR ''/'' \<notin> set n"

definition with_name :: "path \<Rightarrow> string \<Rightarrow> path res" where
  "with_name p n = (if path_name p = [] \<or> \<not> plain_name n then Inl ValueError
     else Inr (fst p, butlast (snd p) @ [n]))"

text \<open>The position of the last dot that starts a suffix: not the first and not the last character.\<close>

definition dot_pos :: "string \<Rightarrow> nat option" where
  "dot_pos n =
     (let rest = dropWhile (\<lambda>c. c \<noteq> CHR ''.'') (rev n); i = length rest - 1
      in if rest \<noteq> [] \<and> 0 < i \<and> i < length n - 1 then Some i else None)"

definition suffix_of :: "string \<Rightarrow> string" where
  "suffix_of n = (case dot_pos n of None \<Rightarrow> [] | Some i \<Rightarrow> drop i n)"

definition stem_of :: "string \<Rightarrow> string" where
  "stem_of n = (case dot_pos n of None \<Rightarrow> n | Some i \<Rightarrow> take i n)"

definition with_suffix :: "path \<Rightarrow> string \<Rightarrow> path res" where
  "with_suffix p suf =
     (if CHR ''/'' \<in> set suf \<or> (suf \<noteq> [] \<and> (hd suf \<noteq> CHR ''.'' \<or> suf = ''.'')) \<or> path_name p = []
      then Inl ValueError
      else Inr (fst p, butlast (snd p) @ [stem_of (path_name p) @ suf]))"

lemma stem_suffix: "stem_of n @ suffix_of n = n"
  by (simp add: stem_of_def suffix_of_def split: option.split)

lemma split_on_plain: "c \<notin> set n \<Longrightarrow> split_on c n = [n]"
  by (induction n) auto

lemma split_on_sep: "c \<notin> set p \<Longrightarrow> split_on c (p @ c # q) = p # split_on c q"
  by (induction p) auto

lemma path_parts_plain: "plain_name n \<Longrightarrow> path_parts n = [n]"
  by (simp add: plain_name_def path_parts_def split_on_plain)

lemma path_of_plain: "plain_name n \<Longrightarrow> path_of n = (False, [n])"
  by (cases n) (auto simp: path_of_def path_parts_plain plain_name_def)

lemma path_join_plain: "plain_name n \<Longrightarrow> path_join d n = (fst d, snd d @ [n])"
  by (simp add: path_join_def path_of_plain path_parts_plain)

lemma path_name_join [simp]: "plain_name n \<Longrightarrow> path_name (path_join d n) = n"
  by (simp add: path_join_plain path_name_def)

section \<open>The file system\<close>

type_synonym fs = "(path, bytes) pydict"

definition fs_exists :: "fs \<Rightarrow> path \<Rightarrow> bool" where
  "fs_exists f p \<longleftrightarrow> dmem p f"

text \<open>\<open>Path.rename\<close>: the target is replaced, as POSIX does.\<close>

definition fs_rename :: "path \<Rightarrow> path \<Rightarrow> fs \<Rightarrow> fs res" where
  "fs_rename p q f = (case dget f p of
     None \<Rightarrow> Inl FileNotFoundError
   | Some c \<Rightarrow> Inr (if p = q then f else dset q c (ddel p f)))"

section \<open>FileItem\<close>

record file_item =
  fi_name :: string
  fi_size :: "int option"
  fi_path :: path
  fi_seeked :: int
  fi_original_ext :: "string option"

text \<open>The attribute \<open>size\<close> is set only when the file exists; \<open>None\<close> is a missing attribute.\<close>

definition FileItem :: "fs \<Rightarrow> path \<Rightarrow> int \<Rightarrow> file_item" where
  "FileItem f p seeked =
     \<lparr>fi_name = path_name p, fi_size = map_option (\<lambda>c. int (length c)) (dget f p), fi_path = p,
      fi_seeked = seeked, fi_original_ext = None\<rparr>"

definition set_name :: "string \<Rightarrow> file_item \<Rightarrow> file_item res" where
  "set_name value it = (case with_name (fi_path it) value of
     Inl e \<Rightarrow> Inl e | Inr p \<Rightarrow> Inr (it\<lparr>fi_name := value, fi_path := p\<rparr>))"

text \<open>\<open>tuple(self)\<close>: \<open>AttributeError\<close> without a size.\<close>

definition item_tuple :: "file_item \<Rightarrow> pyval res" where
  "item_tuple it = (case fi_size it of
     None \<Rightarrow> Inl AttributeError
   | Some s \<Rightarrow> Inr (PTuple [PStr (fi_name it), PInt s, PInt (fi_seeked it)]))"

definition FileItem_bytes :: "(pyval \<Rightarrow> bytes res) \<Rightarrow> file_item \<Rightarrow> bytes res" where
  "FileItem_bytes dumps it = res_bind (item_tuple it) dumps"

definition replace_backslash :: "string \<Rightarrow> string" where
  "replace_backslash s = map (\<lambda>c. if c = CHR 0x5C then CHR ''_'' else c) s"

text \<open>
  \<open>FileItem.load_from\<close>: three values are expected; a name that is not a string has no path, and
  sizes that are not integers do not occur in packets of this program.
\<close>

definition FileItem_load_from ::
    "bool \<Rightarrow> (bytes \<Rightarrow> pyval res) \<Rightarrow> bytes \<Rightarrow> path \<Rightarrow> file_item res" where
  "FileItem_load_from is_windows loads data parent =
     (case loads data of
        Inl e \<Rightarrow> Inl e
      | Inr v \<Rightarrow>
          (case py_iter v of
             None \<Rightarrow> Inl TypeError
           | Some [PStr n, PInt sz, PInt seeked] \<Rightarrow>
               (let name = (if is_windows then replace_backslash n else n)
                in Inr \<lparr>fi_name = name, fi_size = Some sz, fi_path = path_join parent name,
                        fi_seeked = seeked, fi_original_ext = None\<rparr>)
           | Some [_, _, _] \<Rightarrow> Inl TypeError
           | Some _ \<Rightarrow> Inl ValueError))"

text \<open>The suffix is replaced, and neither \<open>path\<close> nor \<open>_name\<close> follows the renamed file.\<close>

definition item_add_error_ext :: "string \<Rightarrow> file_item \<times> fs \<Rightarrow> unit res \<times> file_item \<times> fs" where
  "item_add_error_ext error_ext st =
     (let it = (fst st)\<lparr>fi_original_ext := Some (suffix_of (path_name (fi_path (fst st))))\<rparr>
      in case with_suffix (fi_path it) error_ext of
           Inl e \<Rightarrow> (Inl e, it, snd st)
         | Inr new_path \<Rightarrow>
             (case fs_rename (fi_path it) new_path (snd st) of
                Inl e \<Rightarrow> (Inl e, it, snd st)
              | Inr f \<Rightarrow> (Inr (), it\<lparr>fi_name := path_name (fi_path it)\<rparr>, f)))"

definition item_remove_error_ext :: "file_item \<times> fs \<Rightarrow> unit res \<times> file_item \<times> fs" where
  "item_remove_error_ext st =
     (case fi_original_ext (fst st) of
        None \<Rightarrow> (Inl ValueError, st)
      | Some ext \<Rightarrow>
          (case with_suffix (fi_path (fst st)) ext of
             Inl e \<Rightarrow> (Inl e, st)
           | Inr original_path \<Rightarrow>
               if fs_exists (snd st) original_path then (Inl FileExistsError, st)
               else (case fs_rename (fi_path (fst st)) original_path (snd st) of
                       Inl e \<Rightarrow> (Inl e, st)
                     | Inr f \<Rightarrow> (Inr (), (fst st)\<lparr>fi_name := path_name original_path\<rparr>, f))))"


section \<open>validatename\<close>

definition numbered_name :: "string \<Rightarrow> string \<Rightarrow> nat \<Rightarrow> string" where
  "numbered_name base ext counter = base @ '' ('' @ str_of_nat counter @ '')'' @ ext"

lemma numbered_name_inj: "numbered_name b e m = numbered_name b e n \<Longrightarrow> m = n"
  by (simp add: numbered_name_def str_of_nat_inj)

text \<open>The names of the entries of a directory; \<open>(root_path / name).exists()\<close> asks for one of them.\<close>

definition dir_entries :: "fs \<Rightarrow> path \<Rightarrow> string list" where
  "dir_entries f d = map path_name (filter (\<lambda>p. path_name p \<noteq> [] \<and> path_parent p = d) (dkeys f))"

lemma dir_entries_exists:
  assumes "plain_name n"
  shows "n \<in> set (dir_entries f d) \<longleftrightarrow> fs_exists f (path_join d n)"
proof -
  have "p = path_join d (path_name p)" if "path_name p \<noteq> []" "path_parent p = d" "path_name p = n" for p
    using that assms
    by (cases p) (auto simp: path_join_plain path_name_def path_parent_def split: if_splits)
  moreover have "path_parent (path_join d n) = d" "path_name (path_join d n) = n" "n \<noteq> []"
    using assms by (auto simp: path_join_plain path_parent_def path_name_def plain_name_def)
  ultimately show ?thesis
    by (force simp: dir_entries_def fs_exists_def dmem_def)
qed

text \<open>The \<open>while\<close> loop once the plain name is taken; it ends because the directory is finite.\<close>

function free_counter :: "string list \<Rightarrow> string \<Rightarrow> string \<Rightarrow> nat \<Rightarrow> nat" where
  "free_counter names base ext counter =
     (if numbered_name base ext counter \<in> set names
      then free_counter names base ext (Suc counter) else counter)"
  by pat_completeness auto

termination free_counter
  by (relation "measure (\<lambda>(names, base, ext, c). card (taken_from (numbered_name base ext) names c))")
    (simp_all add: card_taken_Suc numbered_name_inj inj_def)

declare free_counter.simps [simp del]

interpretation file_names: counter_search "numbered_name base ext" names "free_counter names base ext"
  for base ext names
  by unfold_locales (auto simp: inj_def numbered_name_inj free_counter.simps[of names base ext])

definition validated_name :: "string list \<Rightarrow> string \<Rightarrow> string" where
  "validated_name names n =
     (if n \<in> set names then numbered_name (stem_of n) (suffix_of n)
        (free_counter names (stem_of n) (suffix_of n) 1) else n)"

definition validatename :: "fs \<Rightarrow> file_item \<Rightarrow> path \<Rightarrow> (string \<times> file_item) res" where
  "validatename f it root_path =
     (let new_file_name = validated_name (dir_entries f root_path) (path_name (fi_path it))
      in case set_name new_file_name it of Inl e \<Rightarrow> Inl e | Inr it' \<Rightarrow> Inr (new_file_name, it'))"

definition add_error_ext :: "string \<Rightarrow> path \<Rightarrow> file_item \<times> fs \<Rightarrow> unit res \<times> file_item \<times> fs" where
  "add_error_ext error_ext root_path st =
     (case item_add_error_ext error_ext st of
        (Inl FileExistsError, it, f) \<Rightarrow>
          (case validatename f it root_path of Inl e \<Rightarrow> (Inl e, it, f) | Inr (n, it') \<Rightarrow> (Inr (), it', f))
      | r \<Rightarrow> r)"

definition remove_error_ext :: "path \<Rightarrow> file_item \<times> fs \<Rightarrow> unit res \<times> file_item \<times> fs" where
  "remove_error_ext root_path st =
     (case item_remove_error_ext st of
        (Inl FileExistsError, it, f) \<Rightarrow>
          (case validatename f it root_path of Inl e \<Rightarrow> (Inl e, it, f) | Inr (n, it') \<Rightarrow> (Inr (), it', f))
      | r \<Rightarrow> r)"

lemmas free_counter_free = file_names.search_least

lemma validated_name_free: "validated_name names n \<notin> set names"
  using free_counter_free[of "stem_of n" "suffix_of n" names 1] by (simp add: validated_name_def)

lemma slash_free_parts:
  assumes "CHR ''/'' \<notin> set n"
  shows "CHR ''/'' \<notin> set (stem_of n)" "CHR ''/'' \<notin> set (suffix_of n)"
  using assms stem_suffix[of n] by (metis Un_iff set_append)+

lemma str_of_nat_no_slash: "CHR ''/'' \<notin> set (str_of_nat k)"
proof
  assume "CHR ''/'' \<in> set (str_of_nat k)"
  then have "is_digit CHR ''/''"
    using str_of_nat_digits[of k] by (simp add: list_all_iff)
  then show False by (simp add: is_digit_def)
qed

lemma validated_name_plain: "plain_name n \<Longrightarrow> plain_name (validated_name names n)"
proof -
  assume n: "plain_name n"
  have "CHR ''/'' \<notin> set (numbered_name (stem_of n) (suffix_of n) k)" for k
    using slash_free_parts[of n] n str_of_nat_no_slash[of k] by (auto simp: plain_name_def numbered_name_def)
  moreover have "numbered_name (stem_of n) (suffix_of n) k \<noteq> []"
      "numbered_name (stem_of n) (suffix_of n) k \<noteq> ''.''" for k
  proof -
    have "3 \<le> length (numbered_name (stem_of n) (suffix_of n) k)"
      by (simp add: numbered_name_def)
    then show "numbered_name (stem_of n) (suffix_of n) k \<noteq> []"
        "numbered_name (stem_of n) (suffix_of n) k \<noteq> ''.''"
      by auto
  qed
  ultimately show ?thesis
    using n unfolding validated_name_def by (auto simp: plain_name_def)
qed


lemma validatename_ok:
  assumes "plain_name (path_name (fi_path it))"
    and "n = validated_name (dir_entries f d) (path_name (fi_path it))"
  shows "validatename f it d =
    Inr (n, it\<lparr>fi_name := n, fi_path := (fst (fi_path it), butlast (snd (fi_path it)) @ [n])\<rparr>)"
proof -
  have "plain_name n" "path_name (fi_path it) \<noteq> []"
    using assms validated_name_plain by (auto simp: plain_name_def)
  then show ?thesis
    by (simp add: validatename_def set_name_def with_name_def assms(2)[symmetric])
qed

text \<open>
  C28. \<open>validatename\<close> always ends and gives a name that is not taken in the download directory: the
  original name when it is free, otherwise the original name with the smallest free number before
  its extension; for an item that lies in that directory the new path therefore does not exist.
\<close>

theorem validatename_free:
  assumes "plain_name n" and "fi_path it = path_join d n"
  shows "\<exists>m it'. validatename f it d = Inr (m, it') \<and> fi_name it' = m \<and> fi_path it' = path_join d m \<and>
    \<not> fs_exists f (fi_path it') \<and>
    (\<not> fs_exists f (fi_path it) \<longrightarrow> m = n) \<and>
    (fs_exists f (fi_path it) \<longrightarrow>
      (\<exists>k\<ge>1. m = stem_of n @ '' ('' @ str_of_nat k @ '')'' @ suffix_of n \<and>
        (\<forall>j. 1 \<le> j \<and> j < k \<longrightarrow>
          fs_exists f (path_join d (stem_of n @ '' ('' @ str_of_nat j @ '')'' @ suffix_of n)))))"
proof -
  let ?names = "dir_entries f d"
  define m where "m = validated_name ?names n"
  have name: "path_name (fi_path it) = n"
    using assms by simp
  have m: "plain_name m"
    using validated_name_plain[OF assms(1)] by (simp add: m_def)
  have path: "(fst (fi_path it), butlast (snd (fi_path it)) @ [m]) = path_join d m"
    using assms m by (simp add: path_join_plain)
  have "validatename f it d = Inr (m, it\<lparr>fi_name := m, fi_path := path_join d m\<rparr>)"
    unfolding path[symmetric] by (rule validatename_ok) (simp_all add: name assms(1) m_def)
  moreover have "\<not> fs_exists f (path_join d m)"
    using validated_name_free[of ?names n] dir_entries_exists[OF m, of f d] by (simp add: m_def)
  moreover have "m = n" if "\<not> fs_exists f (fi_path it)"
    using that dir_entries_exists[OF assms(1), of f d] assms(2) by (simp add: m_def validated_name_def)
  moreover have "\<exists>k\<ge>1. m = stem_of n @ '' ('' @ str_of_nat k @ '')'' @ suffix_of n \<and>
        (\<forall>j. 1 \<le> j \<and> j < k \<longrightarrow>
          fs_exists f (path_join d (stem_of n @ '' ('' @ str_of_nat j @ '')'' @ suffix_of n)))"
    if "fs_exists f (fi_path it)"
  proof (intro exI conjI allI impI)
    let ?k = "free_counter ?names (stem_of n) (suffix_of n) 1"
    note fc = free_counter_free[of "stem_of n" "suffix_of n" ?names 1]
    show "1 \<le> ?k" using fc by blast
    show "m = stem_of n @ '' ('' @ str_of_nat ?k @ '')'' @ suffix_of n"
      using that dir_entries_exists[OF assms(1), of f d] assms(2)
      by (simp add: m_def validated_name_def numbered_name_def)
    fix j assume j: "1 \<le> j \<and> j < ?k"
    have "plain_name (numbered_name (stem_of n) (suffix_of n) j)"
      using validated_name_plain[OF assms(1), of "n # map (numbered_name (stem_of n) (suffix_of n)) [1..<j]"]
        slash_free_parts[of n] assms(1) str_of_nat_no_slash[of j]
      by (auto simp: plain_name_def numbered_name_def)
    from dir_entries_exists[OF this, of f d] fc j
    have "fs_exists f (path_join d (numbered_name (stem_of n) (suffix_of n) j))" by blast
    then show "fs_exists f (path_join d (stem_of n @ '' ('' @ str_of_nat j @ '')'' @ suffix_of n))"
      by (simp only: numbered_name_def)
  qed
  ultimately show ?thesis by auto
qed

theorem validatename_free_witness:
  "\<exists>m it'. validatename [((True, [''d'', ''a.txt'']), [1])]
     \<lparr>fi_name = ''a.txt'', fi_size = Some 3, fi_path = (True, [''d'', ''a.txt'']), fi_seeked = 0,
      fi_original_ext = None\<rparr> (True, [''d'']) = Inr (m, it') \<and>
     \<not> fs_exists [((True, [''d'', ''a.txt'']), [1])] (fi_path it')"
  using validatename_free[of "''a.txt''" "\<lparr>fi_name = ''a.txt'', fi_size = Some 3,
      fi_path = (True, [''d'', ''a.txt'']), fi_seeked = 0, fi_original_ext = None\<rparr>" "(True, [''d''])"
      "[((True, [''d'', ''a.txt'']), [1])]"]
  by (auto simp: plain_name_def path_join_plain)


section \<open>Properties of file items\<close>

text \<open>
  A file item survives the wire: what \<open>load_from\<close> builds in the download directory has the
  sender's name, size and position, and its path is that directory with the name, for every plain
  file name (one without a directory separator).
\<close>

theorem file_item_roundtrip:
  assumes "fi_size it = Some s" and "packs dumps loads (PTuple [PStr (fi_name it), PInt s, PInt (fi_seeked it)])"
    and "plain_name (fi_name it)"
  shows "res_bind (FileItem_bytes dumps it) (\<lambda>b. FileItem_load_from False loads b d) =
    Inr \<lparr>fi_name = fi_name it, fi_size = Some s, fi_path = (fst d, snd d @ [fi_name it]),
         fi_seeked = fi_seeked it, fi_original_ext = None\<rparr>"
  using assms
  by (auto simp: packs_def FileItem_bytes_def item_tuple_def FileItem_load_from_def path_join_plain Let_def)

theorem file_item_roundtrip_witness:
  "FileItem_load_from False (\<lambda>b. Inr (PList [PStr ''a.txt'', PInt 3, PInt 0])) [5] (True, [''d'']) =
   Inr \<lparr>fi_name = ''a.txt'', fi_size = Some 3, fi_path = (True, [''d'', ''a.txt'']), fi_seeked = 0,
        fi_original_ext = None\<rparr>"
proof -
  have "res_bind (FileItem_bytes (\<lambda>v. Inr [5]) \<lparr>fi_name = ''a.txt'', fi_size = Some 3,
      fi_path = (True, [''s'', ''a.txt'']), fi_seeked = 0, fi_original_ext = None\<rparr>)
      (\<lambda>b. FileItem_load_from False (\<lambda>b. Inr (PList [PStr ''a.txt'', PInt 3, PInt 0])) b (True, [''d''])) =
    Inr \<lparr>fi_name = ''a.txt'', fi_size = Some 3, fi_path = (True, [''d'', ''a.txt'']), fi_seeked = 0,
         fi_original_ext = None\<rparr>"
    by (subst file_item_roundtrip[where s = 3]) (simp_all add: packs_def plain_name_def)
  then show ?thesis
    by (simp add: FileItem_bytes_def item_tuple_def)
qed

text \<open>
  The name in a received file item is not confined to the download directory: a name that
  climbs with \<open>..\<close> keeps its directories through \<open>load_from\<close> and \<open>validatename\<close>, which only checks
  and replaces the last component, so the file is created outside.
\<close>

theorem received_name_escapes:
  assumes "plain_name n" and "loads b = Inr (PList [PStr (''../'' @ n), PInt s, PInt 0])"
    and "\<not> fs_exists f (path_join d n)"
  shows "\<exists>it it'. FileItem_load_from False loads b d = Inr it \<and> validatename f it d = Inr (n, it') \<and>
    fi_path it' = (fst d, snd d @ [''..'', n])"
proof -
  have "n \<noteq> []" "CHR ''/'' \<notin> set n" "n \<noteq> ''.''"
    using assms(1) by (auto simp: plain_name_def)
  then have parts: "path_parts (''../'' @ n) = [''..'', n]"
    by (simp add: path_parts_def split_on_plain)
  define p where "p = path_join d (''../'' @ n)"
  have p: "p = (fst d, snd d @ [''..'', n])"
    using parts by (simp add: p_def path_join_def path_of_def)
  let ?it = "\<lparr>fi_name = ''../'' @ n, fi_size = Some s, fi_path = p, fi_seeked = 0,
    fi_original_ext = None\<rparr>"
  have load: "FileItem_load_from False loads b d = Inr ?it"
    using assms(2) by (simp add: FileItem_load_from_def Let_def p_def)
  have name: "path_name (fi_path ?it) = n"
    by (simp add: p path_name_def)
  have "n = validated_name (dir_entries f d) (path_name (fi_path ?it))"
    unfolding name using assms(3) dir_entries_exists[OF assms(1), of f d] by (simp add: validated_name_def)
  then have "validatename f ?it d =
      Inr (n, ?it\<lparr>fi_name := n, fi_path := (fst (fi_path ?it), butlast (snd (fi_path ?it)) @ [n])\<rparr>)"
    using assms(1) name by (intro validatename_ok) simp_all
  then show ?thesis
    using load by (auto simp: p butlast_append)
qed

theorem received_name_escapes_witness:
  "\<exists>it it'. FileItem_load_from False (\<lambda>b. Inr (PList [PStr ''../x'', PInt 1, PInt 0])) [] (True, [''home'', ''dl'']) = Inr it \<and>
     validatename [] it (True, [''home'', ''dl'']) = Inr (''x'', it') \<and> fi_path it' = (True, [''home'', ''dl'', ''..'', ''x''])"
  using received_name_escapes[of "''x''" "\<lambda>b. Inr (PList [PStr ''../x'', PInt 1, PInt 0])" "[]" 1 "[]" "(True, [''home'', ''dl''])"]
  by (simp add: plain_name_def fs_exists_def)

lemma dot_pos_Some: "dot_pos n = Some i \<Longrightarrow> 0 < i \<and> i < length n - 1 \<and> n ! i = CHR ''.''"
proof -
  assume d: "dot_pos n = Some i"
  let ?rest = "dropWhile (\<lambda>c. c \<noteq> CHR ''.'') (rev n)"
  have r: "?rest \<noteq> []" "i = length ?rest - 1" "0 < i" "i < length n - 1"
    using d by (auto simp: dot_pos_def Let_def split: if_splits)
  have "rev n = takeWhile (\<lambda>c. c \<noteq> CHR ''.'') (rev n) @ ?rest"
    by simp
  then have "n = rev ?rest @ rev (takeWhile (\<lambda>c. c \<noteq> CHR ''.'') (rev n))"
    by (metis rev_append rev_rev_ident)
  then have "n ! i = rev ?rest ! i"
    using r(1,2) by (metis One_nat_def diff_less length_greater_0_conv length_rev nth_append zero_less_one)
  also have "\<dots> = hd ?rest"
    using r(1,2) by (metis hd_rev last_conv_nth length_rev rev_is_Nil_conv rev_rev_ident)
  also have "\<dots> = CHR ''.''"
    using hd_dropWhile[OF r(1)] by simp
  finally show ?thesis using r by blast
qed

lemma suffix_of_shape: "suffix_of n = [] \<or> (hd (suffix_of n) = CHR ''.'' \<and> suffix_of n \<noteq> ''.'')"
proof (cases "dot_pos n")
  case (Some i)
  from dot_pos_Some[OF this] have "drop i n = CHR ''.'' # drop (Suc i) n" "drop (Suc i) n \<noteq> []"
    by (auto simp: Cons_nth_drop_Suc[symmetric])
  then show ?thesis
    using Some by (simp add: suffix_of_def)
qed (simp add: suffix_of_def)

text \<open>
  \<open>remove_error_ext\<close> does not undo \<open>add_error_ext\<close>: the item keeps pointing at the old path, so
  after a successful \<open>add_error_ext\<close> with an extension other than its own the removal fails with
  \<open>FileNotFoundError\<close>, and the file stays under the error name.
\<close>

theorem error_ext_not_undone:
  assumes "item_add_error_ext ext (it, f) = (Inr (), it', f')" and "plain_name (path_name (fi_path it))"
    and "ext \<noteq> suffix_of (path_name (fi_path it))"
  shows "fst (item_remove_error_ext (it', f')) = Inl FileNotFoundError \<and> \<not> fs_exists f' (fi_path it')"
proof -
  let ?n = "path_name (fi_path it)"
  from assms(1) obtain q where q: "with_suffix (fi_path it) ext = Inr q"
    by (auto simp: item_add_error_ext_def Let_def split: sum.splits)
  have ne: "?n \<noteq> []" and qv: "q = (fst (fi_path it), butlast (snd (fi_path it)) @ [stem_of ?n @ ext])"
    using q by (auto simp: with_suffix_def split: if_splits)
  then have last: "snd (fi_path it) = butlast (snd (fi_path it)) @ [?n]"
    by (auto simp: path_name_def split: if_splits)
  have "q \<noteq> fi_path it"
  proof
    assume "q = fi_path it"
    then have "stem_of ?n @ ext = ?n"
      using qv last by (metis append1_eq_conv snd_conv)
    then show False
      using stem_suffix[of ?n] assms(3) by (metis same_append_eq)
  qed
  then have f': "f' = dset q (the (dget f (fi_path it))) (ddel (fi_path it) f)"
      "it' = it\<lparr>fi_original_ext := Some (suffix_of ?n), fi_name := ?n\<rparr>"
    using assms(1) q by (auto simp: item_add_error_ext_def Let_def fs_rename_def split: option.splits)
  have gone: "\<not> fs_exists f' (fi_path it)"
    using \<open>q \<noteq> fi_path it\<close> by (simp add: f'(1) fs_exists_def)
  have sl: "CHR ''/'' \<notin> set (suffix_of ?n)"
    using assms(2) slash_free_parts[of ?n] by (simp add: plain_name_def)
  have "with_suffix (fi_path it) (suffix_of ?n) =
      Inr (fst (fi_path it), butlast (snd (fi_path it)) @ [?n])"
    using sl ne suffix_of_shape[of ?n] by (auto simp: with_suffix_def stem_suffix)
  then have "with_suffix (fi_path it) (suffix_of ?n) = Inr (fi_path it)"
    using last by (metis prod.collapse)
  then show ?thesis
    using gone by (simp add: item_remove_error_ext_def f'(2) fs_rename_def fs_exists_def dmem_iff)
qed

theorem error_ext_not_undone_witness:
  "\<exists>it' f'. item_add_error_ext ''.error'' (FileItem [((True, [''d'', ''a.txt'']), [1])] (True, [''d'', ''a.txt'']) 0,
      [((True, [''d'', ''a.txt'']), [1])]) = (Inr (), it', f') \<and>
    fst (item_remove_error_ext (it', f')) = Inl FileNotFoundError"
proof -
  let ?f = "[((True, [''d'', ''a.txt'']), [1])] :: fs" and ?p = "(True, [''d'', ''a.txt''])"
  let ?it = "FileItem ?f ?p 0"
  have suf: "suffix_of (path_name ?p) = ''.txt''"
    by (simp add: path_name_def suffix_of_def dot_pos_def)
  have "fst (item_add_error_ext ''.error'' (?it, ?f)) = Inr ()"
    by (simp add: item_add_error_ext_def FileItem_def with_suffix_def path_name_def fs_rename_def Let_def)
  then obtain it' f' where add: "item_add_error_ext ''.error'' (?it, ?f) = (Inr (), it', f')"
    by (metis prod.collapse)
  have "fst (item_remove_error_ext (it', f')) = Inl FileNotFoundError"
    by (rule error_ext_not_undone[OF add, THEN conjunct1])
      (simp_all add: FileItem_def suf, simp add: path_name_def plain_name_def)
  then show ?thesis using add by blast
qed

section \<open>Chunk sizes\<close>

definition MIN_CHUNK :: nat where "MIN_CHUNK = 64 * 1024"
definition MAX_CHUNK :: nat where "MAX_CHUNK = 2 ^ 20 * 2"

text \<open>\<open>x % m\<close> on positive floats, which is exact.\<close>

definition float_mod :: "rat \<Rightarrow> rat \<Rightarrow> rat" where
  "float_mod x m = x - m * of_int \<lfloor>x / m\<rfloor>"

definition calculate_chunk_size :: "int \<Rightarrow> nat" where
  "calculate_chunk_size file_size =
     (let min_file_size = 2 ^ 10; max_file_size = 2 ^ 30 * 10
      in if file_size \<le> min_file_size then MIN_CHUNK
         else if file_size \<ge> max_file_size then MAX_CHUNK
         else let ratio = fl (of_int ((int MAX_CHUNK - int MIN_CHUNK) * (file_size - min_file_size)) /
                              of_int (max_file_size - min_file_size));
                  buffer_size = fl (of_nat MIN_CHUNK + ratio)
              in nat \<lfloor>fl (buffer_size - float_mod buffer_size 1024)\<rfloor>)"


lemma chunk_exact:
  assumes "of_nat MIN_CHUNK \<le> b" "b \<le> of_nat MAX_CHUNK"
  shows "nat \<lfloor>fl (b - float_mod b 1024)\<rfloor> = 1024 * nat \<lfloor>b / 1024\<rfloor>"
proof -
  have "0 \<le> b / 1024" "b / 1024 \<le> 2048"
    using assms by (simp_all add: MIN_CHUNK_def MAX_CHUNK_def)
  then have k: "0 \<le> \<lfloor>b / 1024\<rfloor>" "\<lfloor>b / 1024\<rfloor> \<le> 2048"
    by (simp_all add: floor_le_iff)
  then have "b - float_mod b 1024 = of_nat (1024 * nat \<lfloor>b / 1024\<rfloor>)"
    by (simp add: float_mod_def)
  moreover have "nat \<lfloor>b / 1024\<rfloor> \<le> 2048"
    using k(2) by linarith
  then have "1024 * nat \<lfloor>b / 1024\<rfloor> < 2 ^ 53"
    by (rule le_less_trans[OF mult_le_mono2]) simp
  ultimately show ?thesis
    by (simp only: double.rnd_nat floor_of_nat nat_int)
qed

definition chunk_buffer :: "int \<Rightarrow> rat" where
  "chunk_buffer s = fl (of_nat MIN_CHUNK + fl (of_int ((int MAX_CHUNK - int MIN_CHUNK) * (s - 2 ^ 10)) /
     of_int (2 ^ 30 * 10 - 2 ^ 10)))"

lemma chunk_ratio_bounds:
  assumes "2 ^ 10 \<le> s" "s \<le> 2 ^ 30 * 10"
  shows "0 \<le> (of_int ((int MAX_CHUNK - int MIN_CHUNK) * (s - 2 ^ 10)) :: rat) / of_int (2 ^ 30 * 10 - 2 ^ 10)"
    "(of_int ((int MAX_CHUNK - int MIN_CHUNK) * (s - 2 ^ 10)) :: rat) / of_int (2 ^ 30 * 10 - 2 ^ 10)
      \<le> of_nat (MAX_CHUNK - MIN_CHUNK)"
proof -
  have "0 \<le> (int MAX_CHUNK - int MIN_CHUNK) * (s - 2 ^ 10)"
    using assms by (simp add: MAX_CHUNK_def MIN_CHUNK_def)
  then show "0 \<le> (of_int ((int MAX_CHUNK - int MIN_CHUNK) * (s - 2 ^ 10)) :: rat) / of_int (2 ^ 30 * 10 - 2 ^ 10)"
    by (intro divide_nonneg_nonneg) (simp_all only: of_int_0_le_iff, simp)
  have "(int MAX_CHUNK - int MIN_CHUNK) * (s - 2 ^ 10) \<le> (int MAX_CHUNK - int MIN_CHUNK) * (2 ^ 30 * 10 - 2 ^ 10)"
    using assms by (simp add: MAX_CHUNK_def MIN_CHUNK_def)
  then have "(of_int ((int MAX_CHUNK - int MIN_CHUNK) * (s - 2 ^ 10)) :: rat) \<le>
      of_int ((int MAX_CHUNK - int MIN_CHUNK) * (2 ^ 30 * 10 - 2 ^ 10))"
    by (simp only: of_int_le_iff)
  then show "(of_int ((int MAX_CHUNK - int MIN_CHUNK) * (s - 2 ^ 10)) :: rat) / of_int (2 ^ 30 * 10 - 2 ^ 10)
      \<le> of_nat (MAX_CHUNK - MIN_CHUNK)"
    by (subst pos_divide_le_eq) (simp_all add: MAX_CHUNK_def MIN_CHUNK_def)
qed

lemma chunk_buffer_bounds:
  assumes "2 ^ 10 \<le> s" "s \<le> 2 ^ 30 * 10"
  shows "of_nat MIN_CHUNK \<le> chunk_buffer s" "chunk_buffer s \<le> of_nat MAX_CHUNK"
proof -
  let ?q = "(of_int ((int MAX_CHUNK - int MIN_CHUNK) * (s - 2 ^ 10)) :: rat) / of_int (2 ^ 30 * 10 - 2 ^ 10)"
  have q: "0 \<le> fl ?q" "fl ?q \<le> of_nat (MAX_CHUNK - MIN_CHUNK)"
    using chunk_ratio_bounds[OF assms] double.rnd_nonneg
      double.rnd_upper[of "MAX_CHUNK - MIN_CHUNK" ?q] by (auto simp: MAX_CHUNK_def MIN_CHUNK_def)
  show "of_nat MIN_CHUNK \<le> chunk_buffer s"
    unfolding chunk_buffer_def by (rule double.rnd_lower) (use q in \<open>simp_all add: MIN_CHUNK_def\<close>)
  have "of_nat MIN_CHUNK + fl ?q \<le> of_nat MAX_CHUNK"
    using q(2) by (simp add: MAX_CHUNK_def MIN_CHUNK_def)
  then show "chunk_buffer s \<le> of_nat MAX_CHUNK"
    unfolding chunk_buffer_def by (intro double.rnd_upper) (use q in \<open>simp_all add: MAX_CHUNK_def\<close>)
qed

lemma chunk_buffer_mono:
  assumes "2 ^ 10 \<le> s" "s \<le> t"
  shows "chunk_buffer s \<le> chunk_buffer t"
proof -
  have "(int MAX_CHUNK - int MIN_CHUNK) * (s - 2 ^ 10) \<le> (int MAX_CHUNK - int MIN_CHUNK) * (t - 2 ^ 10)"
    using assms by (simp add: MAX_CHUNK_def MIN_CHUNK_def)
  then have le: "(of_int ((int MAX_CHUNK - int MIN_CHUNK) * (s - 2 ^ 10)) :: rat) / of_int (2 ^ 30 * 10 - 2 ^ 10)
      \<le> of_int ((int MAX_CHUNK - int MIN_CHUNK) * (t - 2 ^ 10)) / of_int (2 ^ 30 * 10 - 2 ^ 10)"
    by (intro divide_right_mono) (simp_all only: of_int_le_iff, simp)
  have nn: "0 \<le> (of_int ((int MAX_CHUNK - int MIN_CHUNK) * (s - 2 ^ 10)) :: rat) / of_int (2 ^ 30 * 10 - 2 ^ 10)"
    using assms(1) by (intro divide_nonneg_nonneg) (simp_all add: MAX_CHUNK_def MIN_CHUNK_def)
  show ?thesis
    unfolding chunk_buffer_def
    using double.rnd_mono[OF nn le] double.rnd_nonneg[OF nn]
    by (intro double.rnd_mono) (simp_all add: MIN_CHUNK_def)
qed

lemma calculate_chunk_size_cases:
  "calculate_chunk_size s =
     (if s \<le> 2 ^ 10 then MIN_CHUNK else if s \<ge> 2 ^ 30 * 10 then MAX_CHUNK
      else 1024 * nat \<lfloor>chunk_buffer s / 1024\<rfloor>)"
  using chunk_exact[OF chunk_buffer_bounds[of s]]
  by (auto simp: calculate_chunk_size_def Let_def chunk_buffer_def)


lemma chunk_step_mono: "x \<le> y \<Longrightarrow> 1024 * nat \<lfloor>x / 1024 :: rat\<rfloor> \<le> 1024 * nat \<lfloor>y / 1024\<rfloor>"
  by (intro mult_le_mono2 nat_mono floor_mono divide_right_mono) simp_all

lemma chunk_step_ends:
  "1024 * nat \<lfloor>of_nat MIN_CHUNK / 1024 :: rat\<rfloor> = MIN_CHUNK"
  "1024 * nat \<lfloor>of_nat MAX_CHUNK / 1024 :: rat\<rfloor> = MAX_CHUNK"
  by (simp_all add: MIN_CHUNK_def MAX_CHUNK_def)

lemma calculate_chunk_size_bounds:
  "MIN_CHUNK \<le> calculate_chunk_size s" "calculate_chunk_size s \<le> MAX_CHUNK"
proof -
  show "MIN_CHUNK \<le> calculate_chunk_size s"
    using chunk_step_mono[OF chunk_buffer_bounds(1)[of s]]
    by (simp only: calculate_chunk_size_cases chunk_step_ends)
      (simp add: MIN_CHUNK_def MAX_CHUNK_def)
  show "calculate_chunk_size s \<le> MAX_CHUNK"
    using chunk_step_mono[OF chunk_buffer_bounds(2)[of s]]
    by (simp only: calculate_chunk_size_cases chunk_step_ends)
      (simp add: MIN_CHUNK_def MAX_CHUNK_def)
qed

lemma calculate_chunk_size_pos [simp]: "0 < calculate_chunk_size s"
  using calculate_chunk_size_bounds(1)[of s] by (simp add: MIN_CHUNK_def)

text \<open>
  The chunk size computed in floating point is between 64 KiB and 2 MiB for every file size
  (negative ones included), a multiple of 1024, and grows with the file size.
\<close>

theorem calculate_chunk_size_spec:
  "64 * 1024 \<le> calculate_chunk_size s \<and> calculate_chunk_size s \<le> 2 * 2 ^ 20 \<and>
   1024 dvd calculate_chunk_size s \<and> calculate_chunk_size s \<le> calculate_chunk_size (s + int d)"
proof (intro conjI)
  show "64 * 1024 \<le> calculate_chunk_size s" "calculate_chunk_size s \<le> 2 * 2 ^ 20"
    using calculate_chunk_size_bounds[of s] by (simp_all add: MIN_CHUNK_def MAX_CHUNK_def)
  show "1024 dvd calculate_chunk_size s"
    by (simp only: calculate_chunk_size_cases dvd_triv_left if_distrib[of "(dvd) 1024"])
      (simp add: MIN_CHUNK_def MAX_CHUNK_def)
  show "calculate_chunk_size s \<le> calculate_chunk_size (s + int d)"
  proof (cases "s \<le> 2 ^ 10 \<or> s + int d \<ge> 2 ^ 30 * 10")
    case True
    then show ?thesis
      using calculate_chunk_size_bounds[of s] calculate_chunk_size_bounds[of "s + int d"]
      by (auto simp: calculate_chunk_size_cases[of s] calculate_chunk_size_cases[of "s + int d"]
          split: if_splits)
  next
    case False
    then show ?thesis
      using chunk_step_mono[OF chunk_buffer_mono[of s "s + int d"]]
      by (simp only: calculate_chunk_size_cases) auto
  qed
qed

section \<open>Sizes for display\<close>

text \<open>The loop of \<open>stringify_size\<close>: division by 1024 is exact on floats.\<close>

fun size_unit :: "rat \<Rightarrow> nat \<Rightarrow> nat \<Rightarrow> rat \<times> nat" where
  "size_unit sz index 0 = (sz, index)"
| "size_unit sz index (Suc n) = (if 1024 \<le> sz then size_unit (sz / 1024) (Suc index) n else (sz, index))"

definition stringify_size :: "rat \<Rightarrow> rat \<times> string" where
  "stringify_size sz = (case size_unit sz 0 4 of
     (v, i) \<Rightarrow> (v, [''B'', ''KB'', ''MB'', ''GB'', ''TB''] ! i))"

lemma size_unit_value: "size_unit sz i n = (v, j) \<Longrightarrow> i \<le> j \<and> j \<le> i + n \<and> v * 1024 ^ j = sz * 1024 ^ i"
proof (induction n arbitrary: sz i)
  case (Suc n)
  show ?case
  proof (cases "1024 \<le> sz")
    case True
    then have "size_unit (sz / 1024) (Suc i) n = (v, j)" using Suc.prems by simp
    from Suc.IH[OF this] show ?thesis by auto
  qed (use Suc.prems in auto)
qed auto

end
