(* ===== verification/File_Transfer.thy ===== *)
theory File_Transfer
  imports Files
begin

text \<open>
  One-to-one file transfer: \<open>src/transfers/files/sender.py\<close>, \<open>src/transfers/files/receiver.py\<close>, the
  shared exception handling of \<open>src/transfers/abc.py\<close> and the states of
  \<open>src/transfers/__init__.py\<close>.

  The sender appends to the bytes on the wire; \<open>sd_net\<close> schedules failures of its send calls. The
  receiver reads a stream (\<open>Net_Stream\<close>) through \<open>connect.Receiver\<close>, which makes one \<open>sock_recv\<close> per
  call. The progress bar has no effect on the transfer and is left out here. A run of
  \<open>send_files\<close> or \<open>recv_files\<close> is followed to its end; \<open>to_stop\<close> does not change during it.
\<close>

section \<open>States and exceptions\<close>

datatype transfer_state = PREPARING | CONNECTING | SENDING | RECEIVING | PAUSED | ABORTING | COMPLETED

text \<open>
  \<open>handle_exception\<close>; \<open>expected\<close> says that the very exception object is in \<open>_expected_errors\<close>. The
  result is the exception that leaves it and the state after it. The handler of a cancelled
  transfer returns, so its exception is raised by the last line.
\<close>

definition handle_exception :: "bool \<Rightarrow> py_exn \<Rightarrow> transfer_state \<Rightarrow> py_exn \<times> transfer_state" where
  "handle_exception expected e st =
     (if e = CancelTransfer then (e, if expected then ABORTING else st)
      else if e = TransferIncomplete then (e, if expected then st else PAUSED)
      else if is_OSError e then (TransferIncomplete, PAUSED)
      else (e, st))"

text \<open>\<open>_raise_transfer_incomplete_and_change_state\<close>.\<close>

definition raise_transfer_incomplete :: "transfer_state \<Rightarrow> py_exn \<times> transfer_state" where
  "raise_transfer_incomplete st = (TransferIncomplete, PAUSED)"

text \<open>
  \<open>__aexit__\<close> tests the class of the exception against a set of exception objects. No class is in
  that set, so it returns \<open>None\<close> at once and the exception goes on.
\<close>

datatype exc_value = ExcClass py_exn | ExcInstance py_exn nat

definition aexit :: "exc_value list \<Rightarrow> transfer_state \<Rightarrow> py_exn option \<Rightarrow> bool \<times> exc_value list" where
  "aexit expected_errors st exc =
     (case exc of
        None \<Rightarrow> (False, expected_errors)
      | Some e \<Rightarrow>
          if ExcClass e \<notin> set expected_errors then (False, expected_errors)
          else ((e = TransferIncomplete \<and> st \<noteq> PAUSED) \<or> (e = CancelTransfer \<and> st = ABORTING), []))"

lemma aexit_never_suppresses:
  assumes "list_all (\<lambda>x. \<exists>e n. x = ExcInstance e n) errs"
  shows "aexit errs st exc = (False, errs)"
  using assms by (auto simp: aexit_def list_all_iff split: option.split)

section \<open>Sender\<close>

record sender =
  sd_state :: transfer_state
  sd_files :: "file_item list"
  sd_index :: nat
  sd_to_stop :: bool
  sd_out :: bytes
  sd_net :: "py_exn option list"

definition Sender_init :: "fs \<Rightarrow> path list \<Rightarrow> sender" where
  "Sender_init f file_list =
     \<lparr>sd_state = PREPARING, sd_files = map (\<lambda>p. FileItem f p 0) file_list, sd_index = 0,
      sd_to_stop = False, sd_out = [], sd_net = []\<rparr>"

definition sd_send :: "bytes \<Rightarrow> sender \<Rightarrow> unit res \<times> sender" where
  "sd_send buf s = (case sd_net s of
     [] \<Rightarrow> (Inr (), s\<lparr>sd_out := sd_out s @ buf\<rparr>)
   | None # r \<Rightarrow> (Inr (), s\<lparr>sd_out := sd_out s @ buf, sd_net := r\<rparr>)
   | Some e # r \<Rightarrow> (Inl e, s\<lparr>sd_net := r\<rparr>))"

definition sd_handle :: "unit res \<times> sender \<Rightarrow> unit res \<times> sender" where
  "sd_handle rs = (case fst rs of
     Inr _ \<Rightarrow> rs
   | Inl e \<Rightarrow> (case handle_exception False e (sd_state (snd rs)) of
        (e', st) \<Rightarrow> (Inl e', (snd rs)\<lparr>sd_state := st\<rparr>)))"

definition set_seeked :: "int \<Rightarrow> sender \<Rightarrow> sender" where
  "set_seeked k s = s\<lparr>sd_files := (sd_files s)[sd_index s := (sd_files s ! sd_index s)\<lparr>fi_seeked := k\<rparr>]\<rparr>"

text \<open>\<open>range(a, b, step)\<close> for a positive step.\<close>

definition py_range :: "nat \<Rightarrow> nat \<Rightarrow> nat \<Rightarrow> nat list" where
  "py_range a b step = map (\<lambda>k. a + k * step) [0..<(b - a + (step - 1)) div step]"

fun send_offsets :: "nat \<Rightarrow> bytes \<Rightarrow> nat \<Rightarrow> nat list \<Rightarrow> sender \<Rightarrow> unit res \<times> sender" where
  "send_offsets chunk_size content seek [] s = (Inr (), s)"
| "send_offsets chunk_size content seek (offset # offsets) s =
     (let chunk = pyslice offset (offset + chunk_size) content
      in case sd_send chunk s of
           (Inl e, s') \<Rightarrow> (Inl e, s')
         | (Inr _, s') \<Rightarrow>
             (let seek' = seek + length chunk; s'' = set_seeked (int seek') s'
              in if sd_to_stop s'' then (Inr (), s'') else send_offsets chunk_size content seek' offsets s''))"

text \<open>An empty file cannot be mapped into memory: \<open>mmap\<close> raises \<open>ValueError\<close>.\<close>

definition send_actual_file :: "fs \<Rightarrow> sender \<Rightarrow> unit res \<times> sender" where
  "send_actual_file f s =
     (let it = sd_files s ! sd_index s
      in case fi_size it of
           None \<Rightarrow> (Inl AttributeError, s)
         | Some sz \<Rightarrow>
             (let chunk_size = calculate_chunk_size sz
              in case dget f (fi_path it) of
                   None \<Rightarrow> (Inl FileNotFoundError, s)
                 | Some [] \<Rightarrow> (Inl ValueError, s)
                 | Some content \<Rightarrow>
                     send_offsets chunk_size content (nat (fi_seeked it))
                       (py_range (nat (fi_seeked it)) (nat sz) chunk_size) s))"

definition send_one_file :: "fs \<Rightarrow> sender \<Rightarrow> unit res \<times> sender" where
  "send_one_file f s = sd_handle (send_actual_file f s)"

definition send_file_item :: "(pyval \<Rightarrow> bytes res) \<Rightarrow> sender \<Rightarrow> unit res \<times> sender" where
  "send_file_item dumps s = sd_handle
     (case sd_send [1] s of
        (Inl e, s1) \<Rightarrow> (Inl e, s1)
      | (Inr _, s1) \<Rightarrow>
          (case FileItem_bytes dumps (sd_files s ! sd_index s) of
             Inl e \<Rightarrow> (Inl e, s1)
           | Inr file_object \<Rightarrow>
               (case pack_I (length file_object) of
                  Inl e \<Rightarrow> (Inl e, s1)
                | Inr packed \<Rightarrow> sd_send (packed @ file_object) s1)))"

fun send_indices :: "(pyval \<Rightarrow> bytes res) \<Rightarrow> fs \<Rightarrow> nat list \<Rightarrow> sender \<Rightarrow> unit res \<times> sender" where
  "send_indices dumps f [] s = (Inr (), s)"
| "send_indices dumps f (index # is) s =
     (if sd_to_stop s then (Inr (), s)
      else case send_file_item dumps (s\<lparr>sd_index := index\<rparr>) of
        (Inl e, s1) \<Rightarrow> (Inl e, s1)
      | (Inr _, s1) \<Rightarrow>
          (case send_one_file f s1 of
             (Inl e, s2) \<Rightarrow> (Inl e, s2)
           | (Inr _, s2) \<Rightarrow> send_indices dumps f is s2))"

definition send_files :: "(pyval \<Rightarrow> bytes res) \<Rightarrow> fs \<Rightarrow> sender \<Rightarrow> unit res \<times> sender" where
  "send_files dumps f s =
     (case send_indices dumps f [sd_index s..<length (sd_files s)] (s\<lparr>sd_state := SENDING\<rparr>) of
        (Inl e, s1) \<Rightarrow> (Inl e, s1)
      | (Inr _, s1) \<Rightarrow>
          (case sd_handle (sd_send [0] s1) of
             (Inl e, s2) \<Rightarrow> (Inl e, s2)
           | (Inr _, s2) \<Rightarrow> (Inr (), s2\<lparr>sd_state := COMPLETED\<rparr>)))"

text \<open>\<open>seek_msg\<close> is what \<open>recv_int(self.recv_func, LONG_INT)\<close> gives.\<close>

definition Sender_continue_transfer ::
    "(pyval \<Rightarrow> bytes res) \<Rightarrow> fs \<Rightarrow> nat res \<Rightarrow> sender \<Rightarrow> unit res \<times> sender" where
  "Sender_continue_transfer dumps f seek_msg s =
     (if sd_state s \<noteq> PAUSED \<or> sd_to_stop s then (Inl InvalidStateError, s)
      else let s1 = s\<lparr>sd_state := SENDING\<rparr>
           in if length (sd_files s) \<le> sd_index s then (Inl IndexError, s1)
              else case seek_msg of
                Inl e \<Rightarrow>
                  if e = ValueError
                  then (case raise_transfer_incomplete SENDING of (e', st) \<Rightarrow> (Inl e', s1\<lparr>sd_state := st\<rparr>))
                  else (Inl e, s1)
              | Inr k \<Rightarrow> send_files dumps f (set_seeked (int k) s1))"

definition attach_files :: "fs \<Rightarrow> path list \<Rightarrow> sender \<Rightarrow> unit res \<times> sender" where
  "attach_files f paths s =
     (if sd_state s \<notin> {PAUSED, SENDING} then (Inl InvalidStateError, s)
      else (Inr (), s\<lparr>sd_files := sd_files s @ map (\<lambda>p. FileItem f p 0) paths\<rparr>))"

definition Sender_pause :: "sender \<Rightarrow> sender" where
  "Sender_pause s = s\<lparr>sd_state := PAUSED\<rparr>"

definition Sender_resume :: "sender \<Rightarrow> sender" where
  "Sender_resume s = (if sd_state s \<noteq> PAUSED then s else s\<lparr>sd_state := SENDING\<rparr>)"

text \<open>\<open>asyncio.Task\<close> objects refuse \<open>set_exception\<close> with \<open>RuntimeError\<close>.\<close>

definition Sender_cancel :: "sender \<Rightarrow> unit res \<times> sender" where
  "Sender_cancel s =
     (if sd_state s \<notin> {SENDING, PAUSED} then (Inl InvalidStateError, s)
      else (Inl RuntimeError, s\<lparr>sd_to_stop := True\<rparr>))"


section \<open>Receiver\<close>

record receiver =
  rv_state :: transfer_state
  rv_to_stop :: bool
  rv_items :: "file_item list"
  rv_stream :: stream
  rv_fs :: fs

definition rv_recv :: "nat \<Rightarrow> receiver \<Rightarrow> bytes res \<times> receiver" where
  "rv_recv n r = (case arecv n (rv_stream r) of (d, s) \<Rightarrow> (d, r\<lparr>rv_stream := s\<rparr>))"

definition rv_handle :: "'a res \<times> receiver \<Rightarrow> 'a res \<times> receiver" where
  "rv_handle x = (case fst x of
     Inr _ \<Rightarrow> x
   | Inl e \<Rightarrow> (case handle_exception False e (rv_state (snd x)) of
        (e', st) \<Rightarrow> (Inl e', (snd x)\<lparr>rv_state := st\<rparr>)))"

text \<open>\<open>_should_proceed\<close>: an empty result ends the loop, at the end signal and at the end of the stream alike.\<close>

definition should_proceed :: "receiver \<Rightarrow> bytes res \<times> receiver" where
  "should_proceed r =
     (if rv_to_stop r then (Inr [], r)
      else case rv_handle (rv_recv 1 r) of
        (Inl e, r') \<Rightarrow> (Inl e, r')
      | (Inr what, r') \<Rightarrow> (Inr (if what = [0] then [] else what), r'))"

definition recv_file_item ::
    "(bytes \<Rightarrow> pyval res) \<Rightarrow> path \<Rightarrow> receiver \<Rightarrow> file_item res \<times> receiver" where
  "recv_file_item loads d r =
     (case recv_int rv_recv SHORT_INT r of
        (Inl e, r1) \<Rightarrow> (Inl (if e = ValueError then TransferIncomplete else e), r1)
      | (Inr n, r1) \<Rightarrow>
          (case rv_recv n r1 of
             (Inl e, r2) \<Rightarrow> (Inl (if is_OSError e then TransferIncomplete else e), r2)
           | (Inr raw, r2) \<Rightarrow> (FileItem_load_from False loads raw d, r2)))"

text \<open>
  The loop of \<open>recv_file_contents\<close>: the outcome, the data written and the stream. It ends because
  every round but the last one receives something.
\<close>

function contents_loop :: "nat \<Rightarrow> nat \<Rightarrow> stream \<Rightarrow> bytes \<Rightarrow> unit res \<times> bytes \<times> stream" where
  "contents_loop chunk_size remaining s acc =
     (if remaining = 0 then (Inr (), acc, s)
      else case arecv (min chunk_size remaining) s of
        (Inl e, s') \<Rightarrow> (Inl e, acc, s')
      | (Inr data, s') \<Rightarrow>
          if data = [] then (Inr (), acc, s')
          else contents_loop chunk_size (remaining - length data) s' (acc @ data))"
  by pat_completeness auto

termination contents_loop
  by (relation "measure (\<lambda>(c, remaining, s, acc). remaining)") auto

declare contents_loop.simps [simp del]

text \<open>Writing \<open>data\<close> from position \<open>k\<close> on into an open file.\<close>

definition write_at :: "nat \<Rightarrow> bytes \<Rightarrow> bytes \<Rightarrow> bytes" where
  "write_at k data old =
     take k (old @ replicate (k - length old) 0) @ data @ drop (k + length data) old"

text \<open>
  \<open>recv_file_contents\<close> with \<open>_setup_transfer\<close>: a new file is created exclusively (\<open>xb\<close>), a resumed
  one must exist (\<open>rb+\<close>). The item's position advances with the data.
\<close>

definition recv_file_contents :: "file_item \<Rightarrow> receiver \<Rightarrow> unit res \<times> file_item \<times> receiver" where
  "recv_file_contents it r =
     (let size = (case fi_size it of None \<Rightarrow> 0 | Some z \<Rightarrow> z); seeked = fi_seeked it;
          old = dget (rv_fs r) (fi_path it)
      in if seeked > 0 \<and> old = None then (Inl FileNotFoundError, it, r)
         else if seeked = 0 \<and> old \<noteq> None then (Inl FileExistsError, it, r)
         else if seeked \<noteq> 0 \<and> old = None then (Inl FileNotFoundError, it, r)
         else if seeked < 0 then (Inl OSError, it, r)
         else (case contents_loop (calculate_chunk_size size) (nat (size - seeked)) (rv_stream r) [] of
                 (out, data, s) \<Rightarrow>
                   (out, it\<lparr>fi_seeked := seeked + int (length data)\<rparr>,
                    r\<lparr>rv_stream := s,
                      rv_fs := dset (fi_path it)
                        (write_at (nat seeked) data (case old of None \<Rightarrow> [] | Some c \<Rightarrow> c)) (rv_fs r)\<rparr>)))"

definition receive_single_file :: "path \<Rightarrow> file_item \<Rightarrow> receiver \<Rightarrow> unit res \<times> file_item \<times> receiver" where
  "receive_single_file d it r =
     (case validatename (rv_fs r) it d of
        Inl e \<Rightarrow> (Inl e, it, r)
      | Inr (n, it1) \<Rightarrow>
          (case recv_file_contents it1 r of
             (Inl e, it2, r2) \<Rightarrow> (case rv_handle (Inl e, r2) of (x, r3) \<Rightarrow> (x, it2, r3))
           | (Inr _, it2, r2) \<Rightarrow>
               if fi_seeked it2 < (case fi_size it2 of None \<Rightarrow> 0 | Some z \<Rightarrow> z) \<and> \<not> rv_to_stop r2
               then (Inl TransferIncomplete, it2, r2) else (Inr (), it2, r2)))"

definition recv_file_once ::
    "(bytes \<Rightarrow> pyval res) \<Rightarrow> path \<Rightarrow> receiver \<Rightarrow> unit res \<times> receiver" where
  "recv_file_once loads d r =
     (case rv_handle (recv_file_item loads d r) of
        (Inl e, r1) \<Rightarrow> (Inl e, r1)
      | (Inr it, r1) \<Rightarrow>
          (let r2 = r1\<lparr>rv_items := rv_items r1 @ [it]\<rparr>
           in if (case fi_size it of None \<Rightarrow> True | Some z \<Rightarrow> z \<le> 0)
              then (Inr (), r2\<lparr>rv_fs := (if fs_exists (rv_fs r2) (fi_path it) then rv_fs r2
                                          else dset (fi_path it) [] (rv_fs r2))\<rparr>)
              else case receive_single_file d it r2 of
                (out, it', r3) \<Rightarrow> (out, r3\<lparr>rv_items := rv_items r1 @ [it']\<rparr>)))"

lemma arecv_pending: "length (pending (snd (arecv n s))) \<le> length (pending s)"
  by (auto simp: arecv_def sock_recv_def Let_def split: list.split recv_event.split)

lemma arecv_data: "arecv n s = (Inr d, s') \<Longrightarrow> pending s = d @ pending s' \<and> length d \<le> n"
  using sock_recv_data(1,2)[of n "s\<lparr>sched := dropWhile (\<lambda>e. e = Block) (sched s)\<rparr>" d s']
  by (simp add: arecv_def)

lemma contents_loop_pending:
  "length (pending (snd (snd (contents_loop c n s acc)))) \<le> length (pending s)"
proof (induction c n s acc rule: contents_loop.induct)
  case (1 c n s acc)
  obtain x s' where x: "arecv (min c n) s = (x, s')" by fastforce
  have le: "length (pending s') \<le> length (pending s)"
    using arecv_pending[of "min c n" s] x by simp
  show ?case
  proof (cases "n \<noteq> 0 \<and> (\<exists>d. x = Inr d \<and> d \<noteq> [])")
    case True
    then obtain d where "x = Inr d" "d \<noteq> []" "n \<noteq> 0" by blast
    then show ?thesis
      using 1[of x s' d] x le by (subst contents_loop.simps) auto
  next
    case False
    then show ?thesis
      using x le by (subst contents_loop.simps) (auto split: sum.split)
  qed
qed

lemma rv_recv_pending: "length (pending (rv_stream (snd (rv_recv n r)))) \<le> length (pending (rv_stream r))"
  using arecv_pending[of n "rv_stream r"]
  by (cases "arecv n (rv_stream r)") (simp add: rv_recv_def)

lemma rv_handle_stream [simp]: "rv_stream (snd (rv_handle x)) = rv_stream (snd x)"
  by (simp add: rv_handle_def split: sum.split prod.split)

lemma recv_int_state: "snd (recv_int g n s) = snd (g n s)"
  by (simp add: recv_int_def split: prod.split sum.split)

lemma recv_file_item_pending:
  "length (pending (rv_stream (snd (recv_file_item loads d r)))) \<le> length (pending (rv_stream r))"
proof -
  obtain x r1 where x: "recv_int rv_recv SHORT_INT r = (x, r1)" by fastforce
  have "length (pending (rv_stream r1)) \<le> length (pending (rv_stream r))"
    using rv_recv_pending[of SHORT_INT r] recv_int_state[of rv_recv SHORT_INT r] x by simp
  moreover have "length (pending (rv_stream (snd (rv_recv n r1)))) \<le> length (pending (rv_stream r1))" for n
    by (rule rv_recv_pending)
  ultimately show ?thesis
    using x by (auto simp: recv_file_item_def split: sum.split prod.split) (metis le_trans snd_conv)+
qed

lemma recv_file_contents_pending:
  "length (pending (rv_stream (snd (snd (recv_file_contents it r))))) \<le> length (pending (rv_stream r))"
  using contents_loop_pending[of _ _ "rv_stream r"]
  by (auto simp: recv_file_contents_def Let_def split: prod.split) (metis snd_conv)+

lemma receive_single_file_pending:
  "length (pending (rv_stream (snd (snd (receive_single_file d it r))))) \<le> length (pending (rv_stream r))"
proof (cases "validatename (rv_fs r) it d")
  case (Inr x)
  obtain n it1 where x: "x = (n, it1)" by (cases x)
  obtain o1 it2 r2 where o: "recv_file_contents it1 r = (o1, it2, r2)" by (metis prod_cases3)
  have "length (pending (rv_stream r2)) \<le> length (pending (rv_stream r))"
    using recv_file_contents_pending[of it1 r] o by simp
  moreover have "rv_stream r3 = rv_stream r2" if "rv_handle (Inl e, r2) = (y, r3)" for e r3 and y :: "unit res"
    using that rv_handle_stream[of "(Inl e, r2) :: unit res \<times> receiver"] by simp
  ultimately show ?thesis
    using Inr x o by (auto simp: receive_single_file_def split: sum.split prod.split)
qed (simp add: receive_single_file_def)


lemma recv_file_once_pending:
  "length (pending (rv_stream (snd (recv_file_once loads d r)))) \<le> length (pending (rv_stream r))"
proof -
  obtain x r1 where x: "rv_handle (recv_file_item loads d r) = (x, r1)" by fastforce
  have r1: "length (pending (rv_stream r1)) \<le> length (pending (rv_stream r))"
    using recv_file_item_pending[of loads d r] rv_handle_stream[of "recv_file_item loads d r"] x by simp
  show ?thesis
  proof (cases x)
    case (Inl e)
    then show ?thesis using x r1 by (simp add: recv_file_once_def)
  next
    case (Inr it)
    let ?r2 = "r1\<lparr>rv_items := rv_items r1 @ [it]\<rparr>"
    obtain out it' r3 where o: "receive_single_file d it ?r2 = (out, it', r3)" by (metis prod_cases3)
    have "length (pending (rv_stream r3)) \<le> length (pending (rv_stream r1))"
      using receive_single_file_pending[of d it ?r2] o by simp
    then show ?thesis
      using x Inr r1 o by (auto simp: recv_file_once_def Let_def split: option.split)
  qed
qed

lemma should_proceed_consumes:
  assumes "should_proceed r = (Inr what, r')" "what \<noteq> []"
  shows "length (pending (rv_stream r')) < length (pending (rv_stream r))"
proof -
  have ns: "\<not> rv_to_stop r"
    using assms by (auto simp: should_proceed_def)
  obtain x r1 where x: "rv_recv 1 r = (x, r1)" by fastforce
  then have "x = Inr what \<and> r' = r1"
    using assms ns
    by (auto simp: should_proceed_def rv_handle_def split: sum.splits prod.splits if_splits)
  then have "arecv 1 (rv_stream r) = (Inr what, rv_stream r')"
    using x by (auto simp: rv_recv_def split: prod.splits)
  from arecv_data[OF this] assms(2) show ?thesis by simp
qed

lemma recv_round_consumes:
  assumes "should_proceed r = (Inr what, r1)" "what \<noteq> []" "recv_file_once loads d r1 = (out, r2)"
  shows "length (pending (rv_stream r2)) < length (pending (rv_stream r))"
  using should_proceed_consumes[OF assms(1,2)] recv_file_once_pending[of loads d r1] assms(3) by simp

text \<open>The loop of \<open>recv_files\<close>; every round takes at least the signal byte off the stream.\<close>

function recv_loop_files ::
    "(bytes \<Rightarrow> pyval res) \<Rightarrow> path \<Rightarrow> receiver \<Rightarrow> unit res \<times> receiver" where
  "recv_loop_files loads d r =
     (case should_proceed r of
        (Inl e, r1) \<Rightarrow> (Inl e, r1)
      | (Inr what, r1) \<Rightarrow>
          if what = [] then (Inr (), r1)
          else (case recv_file_once loads d r1 of
                  (Inl e, r2) \<Rightarrow> (Inl e, r2)
                | (Inr _, r2) \<Rightarrow> recv_loop_files loads d r2))"
  by pat_completeness auto

termination recv_loop_files
  by (relation "measure (\<lambda>(loads, d, r). length (pending (rv_stream r)))")
    (simp, simp only: in_measure case_prod_conv, metis recv_round_consumes)

declare recv_loop_files.simps [simp del]

text \<open>\<open>recv_files\<close>, from the moment the connection has arrived.\<close>

definition recv_files :: "(bytes \<Rightarrow> pyval res) \<Rightarrow> path \<Rightarrow> receiver \<Rightarrow> unit res \<times> receiver" where
  "recv_files loads d r =
     (case recv_loop_files loads d (r\<lparr>rv_state := RECEIVING\<rparr>) of
        (Inl e, r1) \<Rightarrow> (Inl e, r1)
      | (Inr _, r1) \<Rightarrow> (Inr (), r1\<lparr>rv_state := COMPLETED\<rparr>))"

text \<open>
  The assertion in \<open>connection_made\<close> compares with the class \<open>Receiver\<close> of its own module; the
  connection hands over a \<open>connect.Receiver\<close>.
\<close>

datatype conn_class = ConnectSender | ConnectReceiver | FilesReceiver

definition Receiver_connection_made :: "conn_class \<Rightarrow> conn_class \<Rightarrow> unit res" where
  "Receiver_connection_made snder recver =
     (if snder \<noteq> ConnectSender then Inl AssertionError
      else if recver \<noteq> FilesReceiver then Inl AssertionError else Inr ())"

text \<open>
  \<open>continue_transfer\<close>: the loop tests a coroutine object, which is true, so no signal byte is ever
  read and only an exception ends it. \<open>sync\<close> is the outcome of sending the position, \<open>n\<close> bounds
  the number of files followed.
\<close>

fun continue_files :: "(bytes \<Rightarrow> pyval res) \<Rightarrow> path \<Rightarrow> nat \<Rightarrow> receiver \<Rightarrow> unit res \<times> receiver" where
  "continue_files loads d 0 r = (Inr (), r)"
| "continue_files loads d (Suc n) r =
     (case recv_file_once loads d r of
        (Inl e, r1) \<Rightarrow> (Inl e, r1)
      | (Inr _, r1) \<Rightarrow> continue_files loads d n r1)"

definition Receiver_continue_transfer ::
    "unit res \<Rightarrow> (bytes \<Rightarrow> pyval res) \<Rightarrow> path \<Rightarrow> nat \<Rightarrow> receiver \<Rightarrow> unit res \<times> receiver" where
  "Receiver_continue_transfer sync loads d n r =
     (if rv_state r \<noteq> PAUSED \<or> rv_to_stop r then (Inl InvalidStateError, r)
      else case rv_handle (sync, r\<lparr>rv_state := RECEIVING\<rparr>) of
        (Inl e, r1) \<Rightarrow> (Inl e, r1)
      | (Inr _, r1) \<Rightarrow> continue_files loads d n r1)"

definition Receiver_cancel :: "receiver \<Rightarrow> unit res \<times> receiver" where
  "Receiver_cancel r =
     (if rv_state r \<notin> {RECEIVING, PAUSED} then (Inl InvalidStateError, r)
      else (Inl RuntimeError, r\<lparr>rv_to_stop := True\<rparr>))"

definition Receiver_pause :: "receiver \<Rightarrow> receiver" where
  "Receiver_pause r = r\<lparr>rv_state := PAUSED\<rparr>"

definition Receiver_resume :: "receiver \<Rightarrow> receiver" where
  "Receiver_resume r = (if rv_state r \<noteq> PAUSED then r else r\<lparr>rv_state := RECEIVING\<rparr>)"


section \<open>What the sender puts on the wire\<close>

lemma py_range_rec:
  assumes "0 < c"
  shows "py_range a b c = (if a < b then a # py_range (a + c) b c else [])"
proof (cases "a < b")
  case True
  have n: "(b - a + (c - 1)) div c = Suc ((b - (a + c) + (c - 1)) div c)"
  proof (cases "b \<le> a + c")
    case True
    have "(b - a + (c - 1)) div c = 1"
      using True \<open>a < b\<close> assms by (intro div_nat_eqI) auto
    moreover have "(b - (a + c) + (c - 1)) div c = 0"
      using True assms by simp
    ultimately show ?thesis by (simp only: One_nat_def)
  next
    case False
    then have "b - a + (c - 1) = (b - (a + c) + (c - 1)) + c" by simp
    then show ?thesis using assms by (simp only: div_add_self2 Suc_eq_plus1)
  qed
  show ?thesis
    unfolding py_range_def n using True
    by (simp add: upt_conv_Cons map_Suc_upt[symmetric] comp_def algebra_simps del: upt_Suc)
next
  case False
  then have "(b - a + (c - 1)) div c = 0" using assms by simp
  then show ?thesis using False by (simp add: py_range_def)
qed

lemma concat_chunks:
  assumes "0 < c"
  shows "concat (map (\<lambda>k. pyslice k (k + c) xs) (py_range a (length xs) c)) = drop a xs"
proof (induction "length xs - a" arbitrary: a rule: less_induct)
  case less
  show ?case
  proof (cases "a < length xs")
    case True
    have "concat (map (\<lambda>k. pyslice k (k + c) xs) (py_range (a + c) (length xs) c)) = drop (a + c) xs"
      using less[of "a + c"] True assms by simp
    then show ?thesis
      using py_range_rec[OF assms, of a "length xs"] True
      by (simp add: pyslice_def take_drop[symmetric]) (metis add.commute append_take_drop_id drop_drop take_drop)
  next
    case False
    then show ?thesis using py_range_rec[OF assms, of a "length xs"] by simp
  qed
qed

text \<open>A sender in the middle of an undisturbed transfer.\<close>

definition smooth :: "sender \<Rightarrow> bool" where
  "smooth s \<longleftrightarrow> sd_net s = [] \<and> \<not> sd_to_stop s"

lemma sd_send_smooth: "smooth s \<Longrightarrow> sd_send buf s = (Inr (), s\<lparr>sd_out := sd_out s @ buf\<rparr>)"
  by (simp add: smooth_def sd_send_def)

definition only_seeked :: "sender \<Rightarrow> sender \<Rightarrow> bool" where
  "only_seeked s s' \<longleftrightarrow> length (sd_files s') = length (sd_files s) \<and> sd_index s' = sd_index s \<and>
     sd_state s' = sd_state s \<and> (\<forall>j. j \<noteq> sd_index s \<longrightarrow> sd_files s' ! j = sd_files s ! j)"

lemma send_offsets_smooth:
  assumes "smooth s"
  shows "\<exists>s'. send_offsets c content seek offs s = (Inr (), s') \<and> smooth s' \<and> only_seeked s s' \<and>
    sd_out s' = sd_out s @ concat (map (\<lambda>k. pyslice k (k + c) content) offs)"
  using assms
proof (induction offs arbitrary: seek s)
  case Nil
  then show ?case by (simp add: only_seeked_def)
next
  case (Cons k offs)
  let ?chunk = "pyslice k (k + c) content"
  let ?s = "set_seeked (int (seek + length ?chunk)) (s\<lparr>sd_out := sd_out s @ ?chunk\<rparr>)"
  have "smooth ?s"
    using Cons.prems by (simp add: smooth_def set_seeked_def)
  from Cons.IH[OF this, of "seek + length ?chunk"] obtain s' where
    s': "send_offsets c content (seek + length ?chunk) offs ?s = (Inr (), s')" "smooth s'" "only_seeked ?s s'"
      "sd_out s' = sd_out ?s @ concat (map (\<lambda>k. pyslice k (k + c) content) offs)"
    by blast
  have "send_offsets c content seek (k # offs) s = (Inr (), s')"
    using s'(1) Cons.prems \<open>smooth ?s\<close> by (simp add: sd_send_smooth Let_def) (simp add: smooth_def)
  moreover have "only_seeked s s'"
    using s'(3) by (simp add: only_seeked_def set_seeked_def)
  ultimately show ?case
    using s'(2,4) by (simp add: set_seeked_def)
qed

text \<open>One file as the sender holds it: its item, the item's bytes and the contents.\<close>

definition good_file :: "(pyval \<Rightarrow> bytes res) \<Rightarrow> fs \<Rightarrow> file_item \<Rightarrow> bytes \<Rightarrow> bytes \<Rightarrow> bool" where
  "good_file dumps f it obj content \<longleftrightarrow>
     fi_size it = Some (int (length content)) \<and> fi_seeked it = 0 \<and> content \<noteq> [] \<and>
     dget f (fi_path it) = Some content \<and> FileItem_bytes dumps it = Inr obj \<and> frameable obj"

definition file_wire :: "bytes \<times> bytes \<Rightarrow> bytes" where
  "file_wire oc = [1] @ frame (fst oc) @ snd oc"

lemma send_file_item_smooth:
  assumes "smooth s" "FileItem_bytes dumps (sd_files s ! sd_index s) = Inr obj" "frameable obj"
  shows "send_file_item dumps s = (Inr (), s\<lparr>sd_out := sd_out s @ [1] @ frame obj\<rparr>)"
  using assms
  by (simp add: send_file_item_def sd_handle_def frameable_def frame_def struct_pack_def smooth_def sd_send_def)

lemma send_one_file_smooth:
  assumes "smooth s" "fi_size (sd_files s ! sd_index s) = Some (int (length content))"
    "fi_seeked (sd_files s ! sd_index s) = 0" "content \<noteq> []"
    "dget f (fi_path (sd_files s ! sd_index s)) = Some content"
  shows "\<exists>s'. send_one_file f s = (Inr (), s') \<and> smooth s' \<and> only_seeked s s' \<and> sd_out s' = sd_out s @ content"
proof -
  let ?c = "calculate_chunk_size (int (length content))"
  obtain s' where s': "send_offsets ?c content 0 (py_range 0 (length content) ?c) s = (Inr (), s')" "smooth s'"
      "only_seeked s s'" "sd_out s' = sd_out s @ concat (map (\<lambda>k. pyslice k (k + ?c) content) (py_range 0 (length content) ?c))"
    using send_offsets_smooth[of s ?c content 0 "py_range 0 (length content) ?c"] assms(1) by blast
  have "send_actual_file f s = (Inr (), s')"
    using s'(1) assms(2-) by (simp add: send_actual_file_def Let_def list.case_eq_if)
  then show ?thesis
    using s' by (simp add: send_one_file_def sd_handle_def concat_chunks)
qed

lemma send_one_smooth:
  assumes "smooth s" "good_file dumps f (sd_files s ! sd_index s) obj content"
  shows "\<exists>s'. send_file_item dumps s = (Inr (), s\<lparr>sd_out := sd_out s @ [1] @ frame obj\<rparr>) \<and>
    send_one_file f (s\<lparr>sd_out := sd_out s @ [1] @ frame obj\<rparr>) = (Inr (), s') \<and> smooth s' \<and>
    only_seeked s s' \<and> sd_out s' = sd_out s @ file_wire (obj, content)"
proof -
  let ?s = "s\<lparr>sd_out := sd_out s @ [1] @ frame obj\<rparr>"
  have "send_file_item dumps s = (Inr (), ?s)"
    using assms by (intro send_file_item_smooth) (simp_all add: good_file_def)
  moreover obtain s' where "send_one_file f ?s = (Inr (), s')" "smooth s'" "only_seeked ?s s'"
      "sd_out s' = sd_out ?s @ content"
    using send_one_file_smooth[of ?s content f] assms by (auto simp: good_file_def smooth_def)
  ultimately show ?thesis
    by (simp add: only_seeked_def file_wire_def)
qed

lemma send_indices_smooth:
  assumes "smooth s" "k + length ocs = length (sd_files s)"
    and "\<And>j. j < length ocs \<Longrightarrow> good_file dumps f (sd_files s ! (k + j)) (fst (ocs ! j)) (snd (ocs ! j))"
  shows "\<exists>s'. send_indices dumps f [k..<length (sd_files s)] s = (Inr (), s') \<and> smooth s' \<and>
    sd_state s' = sd_state s \<and> sd_out s' = sd_out s @ concat (map file_wire ocs)"
  using assms
proof (induction ocs arbitrary: k s)
  case Nil
  then show ?case by simp
next
  case (Cons oc ocs)
  let ?s = "s\<lparr>sd_index := k\<rparr>"
  have upt: "[k..<length (sd_files s)] = k # [Suc k..<length (sd_files s)]"
    using Cons.prems(2) by (simp add: upt_conv_Cons)
  have "smooth ?s" "good_file dumps f (sd_files ?s ! sd_index ?s) (fst oc) (snd oc)"
    using Cons.prems(1) Cons.prems(3)[of 0] by (auto simp: smooth_def)
  from send_one_smooth[OF this] obtain s1 where
    s1: "send_file_item dumps ?s = (Inr (), ?s\<lparr>sd_out := sd_out ?s @ [1] @ frame (fst oc)\<rparr>)"
      "send_one_file f (?s\<lparr>sd_out := sd_out ?s @ [1] @ frame (fst oc)\<rparr>) = (Inr (), s1)" "smooth s1"
      "only_seeked ?s s1" "sd_out s1 = sd_out ?s @ file_wire (fst oc, snd oc)"
    by metis
  have len: "length (sd_files s1) = length (sd_files s)"
    using s1(4) by (simp add: only_seeked_def)
  have good: "good_file dumps f (sd_files s1 ! (Suc k + j)) (fst (ocs ! j)) (snd (ocs ! j))" if "j < length ocs" for j
    using Cons.prems(3)[of "Suc j"] that s1(4) by (simp add: only_seeked_def)
  from Cons.IH[OF s1(3) _ good] Cons.prems(2) len obtain s' where
    "send_indices dumps f [Suc k..<length (sd_files s1)] s1 = (Inr (), s')" "smooth s'"
      "sd_state s' = sd_state s1" "sd_out s' = sd_out s1 @ concat (map file_wire ocs)"
    by auto
  then show ?case
    unfolding upt using s1 len Cons.prems(1) by (simp add: smooth_def only_seeked_def)
qed


section \<open>What the receiver makes of it\<close>

lemma arecv_ok:
  assumes "no_reset s"
  obtains d s' where "arecv n s = (Inr d, s')" "pending s = d @ pending s'" "length d \<le> n"
    "0 < n \<Longrightarrow> pending s \<noteq> [] \<Longrightarrow> d \<noteq> []" "suffix (sched s') (sched s)"
proof -
  define t where "t = s\<lparr>sched := dropWhile (\<lambda>e. e = Block) (sched s)\<rparr>"
  obtain x s' where x: "sock_recv n t = (x, s')" by fastforce
  have t: "no_reset t" "sched t \<noteq> [] \<Longrightarrow> hd (sched t) \<noteq> Block" "pending t = pending s"
    "suffix (sched t) (sched s)"
    using assms hd_dropWhile[of "\<lambda>e. e = Block" "sched s"]
    by (auto simp: t_def no_reset_def suffix_dropWhile dest: set_dropWhileD)
  have "\<exists>d. x = Inr d"
    using x t(1,2) by (auto simp: sock_recv_def no_reset_def Let_def split: list.splits recv_event.splits)
  then obtain d where d: "x = Inr d" by blast
  have "arecv n s = (Inr d, s')"
    using x d by (simp add: arecv_def t_def)
  then show thesis
    using that[of d s'] sock_recv_data[OF x[unfolded d]] sock_recv_progress[OF x[unfolded d]] t(3,4)
      suffix_order.trans by metis
qed

text \<open>
  However the network splits the contents, the loop writes the next \<open>n\<close> bytes of the stream, or
  what is left of it when it ends early.
\<close>

lemma contents_loop_ok:
  assumes "no_reset s" "0 < c"
  shows "\<exists>s'. contents_loop c n s acc = (Inr (), acc @ take n (pending s), s') \<and>
    pending s' = drop n (pending s) \<and> suffix (sched s') (sched s)"
  using assms
proof (induction n arbitrary: s acc rule: less_induct)
  case (less n)
  show ?case
  proof (cases "n = 0")
    case True
    then show ?thesis by (subst contents_loop.simps) simp
  next
    case False
    obtain d s1 where d: "arecv (min c n) s = (Inr d, s1)" "pending s = d @ pending s1" "length d \<le> min c n"
      "0 < min c n \<Longrightarrow> pending s \<noteq> [] \<Longrightarrow> d \<noteq> []" "suffix (sched s1) (sched s)"
      using arecv_ok[OF less.prems(1)] by metis
    show ?thesis
    proof (cases "d = []")
      case True
      then have "pending s = []" using d(4) False less.prems(2) by auto
      then show ?thesis
        using d(1,2,5) True False by (subst contents_loop.simps) simp
    next
      case nonempty: False
      have "no_reset s1" using less.prems(1) d(5) by (rule no_reset_suffix)
      from less.IH[OF _ this less.prems(2), of "n - length d" "acc @ d"] nonempty False obtain s' where
        "contents_loop c (n - length d) s1 (acc @ d) = (Inr (), (acc @ d) @ take (n - length d) (pending s1), s')"
        "pending s' = drop (n - length d) (pending s1)" "suffix (sched s') (sched s1)"
        by auto
      moreover from this have "contents_loop c n s acc = (Inr (), acc @ take n (pending s), s')"
        using d(1-3) nonempty False by (subst contents_loop.simps) simp
      moreover have "drop n (pending s) = drop (n - length d) (pending s1)"
        using d(2,3) by simp
      ultimately show ?thesis
        using d(5) suffix_order.trans by metis
    qed
  qed
qed

text \<open>
  The effect of a file on the receiver's disk: it is stored under its own name, or under the first
  free numbered one when that name is taken.
\<close>

definition deliver :: "path \<Rightarrow> string \<times> bytes \<Rightarrow> fs \<Rightarrow> fs" where
  "deliver d nc f = dset (path_join d (validated_name (dir_entries f d) (fst nc))) (snd nc) f"

definition sends_item :: "(bytes \<Rightarrow> pyval res) \<Rightarrow> bytes \<Rightarrow> string \<times> bytes \<Rightarrow> bool" where
  "sends_item loads obj nc \<longleftrightarrow> plain_name (fst nc) \<and> snd nc \<noteq> [] \<and> frameable obj \<and>
     loads obj = Inr (PList [PStr (fst nc), PInt (int (length (snd nc))), PInt 0])"

text \<open>A receiver that reads an unsplit stream and has not been told to stop.\<close>

definition calm :: "receiver \<Rightarrow> bool" where
  "calm r \<longleftrightarrow> unsplit (rv_stream r) \<and> \<not> rv_to_stop r"

lemma rv_recv_calm:
  "calm r \<Longrightarrow> rv_recv n r = (Inr (take n (pending (rv_stream r))),
     r\<lparr>rv_stream := (rv_stream r)\<lparr>pending := drop n (pending (rv_stream r))\<rparr>\<rparr>)"
  by (simp add: calm_def rv_recv_def)

lemma recv_file_item_calm:
  assumes "calm r" "sends_item loads obj nc" "pending (rv_stream r) = frame obj @ rest"
  shows "recv_file_item loads d r =
    (Inr \<lparr>fi_name = fst nc, fi_size = Some (int (length (snd nc))), fi_path = path_join d (fst nc),
          fi_seeked = 0, fi_original_ext = None\<rparr>, r\<lparr>rv_stream := (rv_stream r)\<lparr>pending := rest\<rparr>\<rparr>)"
proof -
  let ?r1 = "r\<lparr>rv_stream := (rv_stream r)\<lparr>pending := obj @ rest\<rparr>\<rparr>"
  have "rv_recv 4 r = (Inr (be_encode 4 (length obj)), ?r1)"
    using rv_recv_calm[OF assms(1), of 4] assms(3) by (simp del: drop_append)
  then have "recv_int rv_recv SHORT_INT r = (Inr (length obj), ?r1)"
    using assms(2) by (intro recv_int_short) (simp_all add: sends_item_def frameable_def)
  moreover have "calm ?r1" using assms(1) by (simp add: calm_def unsplit_def)
  ultimately show ?thesis
    using assms(2) rv_recv_calm[of ?r1 "length obj"]
    by (simp add: recv_file_item_def sends_item_def FileItem_load_from_def Let_def)
qed

lemma deliver_path:
  assumes "plain_name n" "m = validated_name (dir_entries f d) n"
  shows "plain_name m" "dget f (path_join d m) = None"
    "(fst d, butlast (snd (path_join d n)) @ [m]) = path_join d m"
  using validated_name_plain[OF assms(1)] validated_name_free[of "dir_entries f d" n]
    dir_entries_exists[of m f d] assms
  by (auto simp: fs_exists_def path_join_plain dmem_iff)

lemma recv_file_contents_calm:
  assumes "calm r" "fi_size it = Some (int (length c))" "fi_seeked it = 0"
    "dget (rv_fs r) (fi_path it) = None" "pending (rv_stream r) = c @ rest"
  shows "recv_file_contents it r =
    (Inr (), it\<lparr>fi_seeked := int (length c)\<rparr>,
     r\<lparr>rv_stream := (rv_stream r)\<lparr>pending := rest\<rparr>, rv_fs := dset (fi_path it) c (rv_fs r)\<rparr>)"
proof -
  have u: "sched (rv_stream r) = []" using assms(1) by (simp add: calm_def unsplit_def)
  then have "no_reset (rv_stream r)" by (simp add: no_reset_def)
  from contents_loop_ok[OF this, of "calculate_chunk_size (int (length c))" "length c" "[]"] obtain s' where
    s': "contents_loop (calculate_chunk_size (int (length c))) (length c) (rv_stream r) [] = (Inr (), c, s')"
      "pending s' = rest" "suffix (sched s') []"
    using assms(5) u by auto
  have "s' = (rv_stream r)\<lparr>pending := rest\<rparr>"
    using s'(2,3) u by simp
  then show ?thesis
    using s'(1) assms by (simp add: recv_file_contents_def Let_def write_at_def)
qed

lemma recv_file_once_calm:
  assumes "calm r" "sends_item loads obj nc" "pending (rv_stream r) = frame obj @ snd nc @ rest"
  shows "\<exists>its. recv_file_once loads d r =
    (Inr (), r\<lparr>rv_stream := (rv_stream r)\<lparr>pending := rest\<rparr>, rv_fs := deliver d nc (rv_fs r), rv_items := its\<rparr>)"
proof -
  let ?it = "\<lparr>fi_name = fst nc, fi_size = Some (int (length (snd nc))), fi_path = path_join d (fst nc),
    fi_seeked = 0, fi_original_ext = None\<rparr>"
  let ?r1 = "r\<lparr>rv_stream := (rv_stream r)\<lparr>pending := snd nc @ rest\<rparr>\<rparr>"
  let ?r2 = "?r1\<lparr>rv_items := rv_items r @ [?it]\<rparr>"
  define m where "m = validated_name (dir_entries (rv_fs r) d) (fst nc)"
  have plain: "plain_name (fst nc)" "snd nc \<noteq> []" using assms(2) by (auto simp: sends_item_def)
  note m = deliver_path[OF plain(1) m_def]
  let ?it1 = "?it\<lparr>fi_name := m, fi_path := path_join d m\<rparr>"
  have "validatename (rv_fs r) ?it d = Inr (m, ?it1)"
    using validatename_ok[of ?it m "rv_fs r" d] plain(1) m(3) m_def
    by (simp add: path_join_plain path_name_def)
  moreover have "recv_file_contents ?it1 ?r2 = (Inr (), ?it1\<lparr>fi_seeked := int (length (snd nc))\<rparr>,
     ?r2\<lparr>rv_stream := (rv_stream r)\<lparr>pending := rest\<rparr>, rv_fs := deliver d nc (rv_fs r)\<rparr>)"
    using recv_file_contents_calm[of ?r2 ?it1 "snd nc" rest] assms(1) m(2)
    by (simp add: calm_def unsplit_def deliver_def m_def)
  ultimately have single: "receive_single_file d ?it ?r2 = (Inr (), ?it1\<lparr>fi_seeked := int (length (snd nc))\<rparr>,
     ?r2\<lparr>rv_stream := (rv_stream r)\<lparr>pending := rest\<rparr>, rv_fs := deliver d nc (rv_fs r)\<rparr>)"
    by (simp add: receive_single_file_def)
  have "rv_handle (recv_file_item loads d r) = (Inr ?it, ?r1)"
    using recv_file_item_calm[OF assms(1,2,3)] by (simp add: rv_handle_def)
  then show ?thesis
    using single plain(2) by (auto simp: recv_file_once_def Let_def)
qed

text \<open>The bytes of a whole transfer: a signal byte, the framed item and the contents per file, then the end signal.\<close>

definition transfer_wire :: "(bytes \<times> bytes) list \<Rightarrow> bytes" where
  "transfer_wire ocs = concat (map file_wire ocs) @ [0]"

lemma recv_loop_files_calm:
  assumes "calm r" "list_all2 (\<lambda>oc n. sends_item loads (fst oc) (n, snd oc)) ocs ns"
    "pending (rv_stream r) = transfer_wire ocs @ rest"
  shows "\<exists>its. recv_loop_files loads d r =
    (Inr (), r\<lparr>rv_stream := (rv_stream r)\<lparr>pending := rest\<rparr>,
               rv_fs := fold (deliver d) (zip ns (map snd ocs)) (rv_fs r), rv_items := its\<rparr>)"
  using assms(2,1,3)
proof (induction ocs ns arbitrary: r rule: list_all2_induct)
  case Nil
  then show ?case
    by (subst recv_loop_files.simps)
      (simp add: should_proceed_def rv_recv_calm rv_handle_def transfer_wire_def calm_def,
       metis receiver.surjective receiver.update_convs(3))
next
  case (Cons oc ocs n ns)
  let ?more = "transfer_wire ocs @ rest"
  let ?r1 = "r\<lparr>rv_stream := (rv_stream r)\<lparr>pending := frame (fst oc) @ snd oc @ ?more\<rparr>\<rparr>"
  have sp: "should_proceed r = (Inr [1], ?r1)"
    using Cons.prems
    by (simp add: should_proceed_def rv_recv_calm rv_handle_def transfer_wire_def file_wire_def)
      (simp add: calm_def)
  have "calm ?r1" using Cons.prems(1) by (simp add: calm_def unsplit_def)
  from recv_file_once_calm[OF this Cons.hyps(1), of ?more d] obtain its where
    once: "recv_file_once loads d ?r1 = (Inr (), r\<lparr>rv_stream := (rv_stream r)\<lparr>pending := ?more\<rparr>,
      rv_fs := deliver d (n, snd oc) (rv_fs r), rv_items := its\<rparr>)" (is "_ = (_, ?r2)")
    by auto
  have "calm ?r2" using Cons.prems(1) by (simp add: calm_def unsplit_def)
  from Cons.IH[OF this] obtain its' where "recv_loop_files loads d ?r2 =
    (Inr (), ?r2\<lparr>rv_stream := (rv_stream ?r2)\<lparr>pending := rest\<rparr>,
       rv_fs := fold (deliver d) (zip ns (map snd ocs)) (rv_fs ?r2), rv_items := its'\<rparr>)"
    by auto
  then show ?case
    by (subst recv_loop_files.simps) (simp add: sp once, blast)
qed

section \<open>Properties of file transfers\<close>

lemma send_files_smooth:
  assumes "smooth s" "sd_index s = 0" "length ocs = length (sd_files s)"
    and "\<And>j. j < length ocs \<Longrightarrow> good_file dumps f (sd_files s ! j) (fst (ocs ! j)) (snd (ocs ! j))"
  shows "\<exists>s'. send_files dumps f s = (Inr (), s') \<and> sd_state s' = COMPLETED \<and>
    sd_out s' = sd_out s @ transfer_wire ocs"
proof -
  let ?s = "s\<lparr>sd_state := SENDING\<rparr>"
  have "smooth ?s" using assms(1) by (simp add: smooth_def)
  from send_indices_smooth[OF this, of 0 ocs dumps f] assms(3,4) obtain s1 where
    "send_indices dumps f [0..<length (sd_files s)] ?s = (Inr (), s1)" "smooth s1"
      "sd_out s1 = sd_out s @ concat (map file_wire ocs)"
    by auto
  then show ?thesis
    using assms(2) by (simp add: send_files_def sd_send_smooth sd_handle_def transfer_wire_def)
qed

lemma deliver_keeps:
  assumes "plain_name (fst nc)" "dget f q = Some c"
  shows "dget (deliver d nc f) q = Some c"
  using deliver_path(2)[OF assms(1) refl, of f d] assms(2) by (auto simp: deliver_def)

lemma deliver_all_keeps:
  "list_all (\<lambda>nc. plain_name (fst nc)) ncs \<Longrightarrow> dget f q = Some c \<Longrightarrow> dget (fold (deliver d) ncs f) q = Some c"
  by (induction ncs arbitrary: f) (auto simp: deliver_keeps)

lemma deliver_all_stores:
  "list_all (\<lambda>nc. plain_name (fst nc)) ncs \<Longrightarrow> nc \<in> set ncs \<Longrightarrow>
   \<exists>m. dget (fold (deliver d) ncs f) (path_join d m) = Some (snd nc)"
proof (induction ncs arbitrary: f)
  case (Cons a ncs)
  show ?case
  proof (cases "nc = a")
    case True
    have "dget (deliver d a f) (path_join d (validated_name (dir_entries f d) (fst a))) = Some (snd a)"
      by (simp add: deliver_def)
    moreover have "list_all (\<lambda>nc. plain_name (fst nc)) ncs" using Cons.prems(1) by simp
    ultimately have "dget (fold (deliver d) ncs (deliver d a f)) (path_join d (validated_name (dir_entries f d) (fst a))) =
        Some (snd a)"
      by (intro deliver_all_keeps)
    then show ?thesis using True by auto
  next
    case False
    then show ?thesis using Cons by auto
  qed
qed simp

text \<open>What the sender can offer: a file that exists, is not empty and whose item the codec carries.\<close>

definition offerable :: "(pyval \<Rightarrow> bytes res) \<Rightarrow> (bytes \<Rightarrow> pyval res) \<Rightarrow> fs \<Rightarrow> path \<Rightarrow> bool" where
  "offerable dumps loads f p \<longleftrightarrow> plain_name (path_name p) \<and>
     (\<exists>c obj. dget f p = Some c \<and> c \<noteq> [] \<and> frameable obj \<and>
        dumps (PTuple [PStr (path_name p), PInt (int (length c)), PInt 0]) = Inr obj \<and>
        loads obj = Inr (PList [PStr (path_name p), PInt (int (length c)), PInt 0]))"





text \<open>
  An empty file ends the transfer on the sender's side: \<open>mmap\<close> refuses it with \<open>ValueError\<close>, which
  no handler knows, after the announcement of the file has gone out; no end signal follows and the
  state stays \<open>SENDING\<close>.
\<close>

lemma empty_file_stops_sender:
  assumes "dget f p = Some []" "dumps (PTuple [PStr (path_name p), PInt 0, PInt 0]) = Inr obj" "frameable obj"
  shows "\<exists>s'. send_files dumps f (Sender_init f (p # ps)) = (Inl ValueError, s') \<and>
    sd_state s' = SENDING \<and> sd_out s' = [1] @ frame obj"
proof -
  let ?s = "(Sender_init f (p # ps))\<lparr>sd_state := SENDING, sd_index := 0\<rparr>"
  let ?s1 = "?s\<lparr>sd_out := [1] @ frame obj\<rparr>"
  have "FileItem_bytes dumps (sd_files ?s ! sd_index ?s) = Inr obj"
    using assms(1,2) by (simp add: Sender_init_def FileItem_def FileItem_bytes_def item_tuple_def)
  from send_file_item_smooth[OF _ this assms(3)] have "send_file_item dumps ?s = (Inr (), ?s1)"
    by (simp add: smooth_def Sender_init_def)
  moreover have "send_one_file f ?s1 = (Inl ValueError, ?s1)"
    using assms(1)
    by (simp add: send_one_file_def send_actual_file_def Sender_init_def FileItem_def sd_handle_def
        handle_exception_def is_OSError_def Let_def)
  moreover have "\<not> sd_to_stop (Sender_init f (p # ps))" "sd_index (Sender_init f (p # ps)) = 0"
    "length (sd_files (Sender_init f (p # ps))) = Suc (length ps)"
    by (simp_all add: Sender_init_def)
  ultimately show ?thesis
    by (simp add: send_files_def upt_conv_Cons del: upt_Suc)
qed

text \<open>
  A resumed receiver takes the signal byte for the first byte of the length: every file announced
  after a resume is read as an item of at least 16 MiB.
\<close>

lemma resume_misreads_length:
  assumes "calm r" "pending (rv_stream r) = [1] @ frame obj @ rest" "frameable obj"
  shows "\<exists>r'. recv_int rv_recv SHORT_INT r = (Inr (256 ^ 3 + length obj div 256), r')"
proof -
  define L where "L = length obj"
  have "L < 4294967296" using assms(3) by (simp add: L_def frameable_def)
  then have "L div 256 < 16777216" by (simp add: less_mult_imp_div_less)
  then have "L div 256 div 256 < 65536" by (simp add: less_mult_imp_div_less)
  then have L: "L div 256 div 256 div 256 < 256" by (simp add: less_mult_imp_div_less)
  have len: "(16777216 + L div 256) div 256 = 65536 + L div 256 div 256"
    "(65536 + L div 256 div 256) div 256 = 256 + L div 256 div 256 div 256"
    "(256 + L div 256 div 256 div 256) div 256 = Suc 0"
    subgoal using div_plus_div_distrib_dvd_left[of "256 :: nat" 16777216 "L div 256"] by simp
    subgoal using div_plus_div_distrib_dvd_left[of "256 :: nat" 65536 "L div 256 div 256"] by simp
    subgoal using div_plus_div_distrib_dvd_left[of "256 :: nat" 256 "L div 256 div 256 div 256"] div_less[OF L] by simp
    done
  have wrap: "(word_of_nat (16777216 + n) :: byte) = word_of_nat n" "(word_of_nat (65536 + n) :: byte) = word_of_nat n"
    "(word_of_nat (256 + n) :: byte) = word_of_nat n" for n
    by simp_all
  have "be_encode 4 (16777216 + L div 256) =
      [1, of_nat (L div 256 div 256 div 256), of_nat (L div 256 div 256), of_nat (L div 256)]"
    unfolding be_encode_eval len wrap by simp
  moreover have "take 4 (pending (rv_stream r)) =
      [1, of_nat (L div 256 div 256 div 256), of_nat (L div 256 div 256), of_nat (L div 256)]"
    using assms(2) by (simp add: frame_def be_encode_eval(1)[of L] flip: L_def)
  ultimately have t: "take 4 (pending (rv_stream r)) = be_encode 4 (16777216 + L div 256)"
    by (simp only:)
  have "16777216 + L div 256 < (256 :: nat) ^ 4"
    using \<open>L div 256 < 16777216\<close> by simp
  from recv_int_short[of rv_recv, OF rv_recv_calm[OF assms(1), of 4, unfolded t] this] show ?thesis
    by (auto simp: L_def)
qed

text \<open>
  Even a resumed item read correctly is not continued: \<open>validatename\<close> runs again, finds the partly
  received file, and chooses a new name under which there is nothing to resume.
\<close>

lemma resumed_item_renamed:
  assumes "plain_name n" "fi_path it = path_join d n" "fs_exists (rv_fs r) (path_join d n)" "0 < fi_seeked it"
  shows "\<exists>it'. receive_single_file d it r = (Inl TransferIncomplete, it', r\<lparr>rv_state := PAUSED\<rparr>) \<and>
    fi_path it' \<noteq> fi_path it"
proof -
  define m where "m = validated_name (dir_entries (rv_fs r) d) n"
  note m = deliver_path[OF assms(1) m_def]
  let ?it = "it\<lparr>fi_name := m, fi_path := path_join d m\<rparr>"
  have "validatename (rv_fs r) it d = Inr (m, ?it)"
    using validatename_ok[of it m "rv_fs r" d] assms(1,2) m(3) m_def by (simp add: path_join_plain path_name_def)
  moreover have "recv_file_contents ?it r = (Inl FileNotFoundError, ?it, r)"
    using m(2) assms(4) by (simp add: recv_file_contents_def Let_def)
  moreover have "path_join d m \<noteq> path_join d n"
    using m(2) assms(3) by (auto simp: fs_exists_def dmem_iff)
  ultimately show ?thesis
    using assms(2) by (simp add: receive_single_file_def rv_handle_def handle_exception_def is_OSError_def)
qed

end
