(* ===== verification/Directory.thy ===== *)
theory Directory
  imports File_Transfer
begin

text \<open>
  Directory transfer: \<open>src/transfers/files/directory.py\<close> and the part of
  \<open>src/managers/directorymanager.py\<close> that receives one.

  A directory tree has files (\<open>fs\<close>) and directories (a list of paths). The order in which
  \<open>rglob('*')\<close> lists the entries is an argument. The platform decides how the parent of an entry is
  packed: as text on Windows, as a \<open>Path\<close> object elsewhere.
\<close>

section \<open>Directories\<close>

definition is_dir :: "path list \<Rightarrow> path \<Rightarrow> bool" where
  "is_dir dirs p \<longleftrightarrow> snd p = [] \<or> p \<in> set dirs"

text \<open>\<open>p.exists()\<close>.\<close>

definition entry_exists :: "fs \<Rightarrow> path list \<Rightarrow> path \<Rightarrow> bool" where
  "entry_exists f dirs p \<longleftrightarrow> fs_exists f p \<or> is_dir dirs p"

text \<open>Files and directories together, for the search of free names in a directory.\<close>

definition with_dirs :: "fs \<Rightarrow> path list \<Rightarrow> fs" where
  "with_dirs f dirs = f @ map (\<lambda>p. (p, [])) dirs"

text \<open>The proper ancestors of a path, the outermost first.\<close>

definition ancestors :: "path \<Rightarrow> path list" where
  "ancestors p = map (\<lambda>k. (fst p, take k (snd p))) [1..<length (snd p)]"

text \<open>\<open>p.mkdir(parents=True, exist_ok=...)\<close>.\<close>

definition fs_mkdir :: "bool \<Rightarrow> fs \<Rightarrow> path \<Rightarrow> path list \<Rightarrow> path list res" where
  "fs_mkdir exist_ok f p dirs =
     (if is_dir dirs p then (if exist_ok then Inr dirs else Inl FileExistsError)
      else if fs_exists f p then Inl FileExistsError
      else if list_ex (fs_exists f) (ancestors p) then Inl NotADirectoryError
      else Inr (dirs @ filter (\<lambda>a. \<not> is_dir dirs a) (ancestors p) @ [p]))"

section \<open>rename_directory_with_increment\<close>

definition dir_name :: "string \<Rightarrow> nat \<Rightarrow> string" where
  "dir_name base counter = base @ ''('' @ str_of_nat counter @ '')''"

lemma dir_name_inj: "inj (dir_name base)"
  by (auto simp: inj_def dir_name_def dest: str_of_nat_inj)

function free_dir_counter :: "string list \<Rightarrow> string \<Rightarrow> nat \<Rightarrow> nat" where
  "free_dir_counter names base counter =
     (if dir_name base counter \<in> set names then free_dir_counter names base (Suc counter) else counter)"
  by pat_completeness auto

termination free_dir_counter
  by (relation "measure (\<lambda>(names, base, c). card (taken_from (dir_name base) names c))")
    (simp_all add: card_taken_Suc dir_name_inj)

declare free_dir_counter.simps [simp del]

interpretation dir_names: counter_search "dir_name base" names "free_dir_counter names base"
  for base names
  by unfold_locales (auto simp: dir_name_inj free_dir_counter.simps[of names base])

text \<open>
  \<open>relative_path\<close> is the name the other peer has sent. Without a download directory the function
  logs an error and returns \<open>None\<close>.
\<close>

definition rename_directory_with_increment ::
    "fs \<Rightarrow> path list \<Rightarrow> path \<Rightarrow> string \<Rightarrow> (path option \<times> path list) res" where
  "rename_directory_with_increment f dirs root_path relative_path =
     (let abs_path = path_join root_path relative_path in
      if \<not> is_dir dirs root_path then Inr (None, dirs)
      else let parent_dir = path_parent abs_path; base_name = path_name abs_path;
               names = dir_entries (with_dirs f dirs) parent_dir;
               new_name = (if entry_exists f dirs abs_path
                           then dir_name base_name (free_dir_counter names base_name 1) else base_name);
               new_path = path_join parent_dir new_name
           in map_sum id (\<lambda>ds. (Some new_path, ds)) (fs_mkdir True f new_path dirs))"

section \<open>DirSender\<close>

text \<open>
  \<open>ds_base\<close> holds what \<open>DirSender\<close> inherits from \<open>Sender\<close>; its file list is the current file.
  \<open>ds_acks\<close> is the stream the other end answers on.
\<close>

record dir_sender =
  ds_base :: sender
  ds_root :: path
  ds_acks :: stream

definition DirSender :: "path \<Rightarrow> stream \<Rightarrow> dir_sender" where
  "DirSender root_path acks =
     \<lparr>ds_base = \<lparr>sd_state = PREPARING, sd_files = [], sd_index = 0, sd_to_stop = False, sd_out = [], sd_net = []\<rparr>,
      ds_root = root_path, ds_acks = acks\<rparr>"

definition ds_lift :: "(sender \<Rightarrow> 'a \<times> sender) \<Rightarrow> dir_sender \<Rightarrow> 'a \<times> dir_sender" where
  "ds_lift g s = (case g (ds_base s) of (x, b) \<Rightarrow> (x, s\<lparr>ds_base := b\<rparr>))"

definition FILE_CODE :: bytes where "FILE_CODE = [1]"
definition PATH_CODE :: bytes where "PATH_CODE = [2]"

text \<open>\<open>PurePath.as_posix\<close> of a relative path.\<close>

fun join_slash :: "string list \<Rightarrow> string" where
  "join_slash [] = []"
| "join_slash [p] = p"
| "join_slash (p # ps) = p @ ''/'' @ join_slash ps"

definition as_posix :: "string list \<Rightarrow> string" where
  "as_posix ps = (if ps = [] then ''.'' else join_slash ps)"

text \<open>The pair that is packed: a parent that stays a \<open>Path\<close> is an object the serialiser does not know.\<close>

definition code_parts :: "bool \<Rightarrow> bool \<Rightarrow> string list \<Rightarrow> pyval" where
  "code_parts is_windows is_linux rel =
     PTuple [if is_windows then PStr (as_posix (butlast rel)) else PObj 0,
             PStr (if is_linux then replace_backslash (last rel) else last rel)]"

definition send_code_parts ::
    "bool \<Rightarrow> bool \<Rightarrow> (pyval \<Rightarrow> bytes res) \<Rightarrow> bytes \<Rightarrow> path \<Rightarrow> dir_sender \<Rightarrow> unit res \<times> dir_sender" where
  "send_code_parts is_windows is_linux dumps code p s =
     (let n = length (snd (ds_root s))
      in if fst p \<noteq> fst (ds_root s) \<or> take n (snd p) \<noteq> snd (ds_root s) then (Inl ValueError, s)
         else case dumps (code_parts is_windows is_linux (drop n (snd p))) of
           Inl e \<Rightarrow> (Inl e, s)
         | Inr dumped_code \<Rightarrow>
             ds_lift (\<lambda>b. sd_handle
               (case sd_send code b of
                  (Inl e, b1) \<Rightarrow> (Inl e, b1)
                | (Inr _, b1) \<Rightarrow>
                    (case pack_I (length dumped_code) of
                       Inl e \<Rightarrow> (Inl e, b1)
                     | Inr packed \<Rightarrow> sd_send (packed @ dumped_code) b1))) s)"

definition dir_send_file_item ::
    "bool \<Rightarrow> bool \<Rightarrow> (pyval \<Rightarrow> bytes res) \<Rightarrow> fs \<Rightarrow> path \<Rightarrow> dir_sender \<Rightarrow> file_item res \<times> dir_sender" where
  "dir_send_file_item is_windows is_linux dumps f p s =
     (case send_code_parts is_windows is_linux dumps FILE_CODE p s of
        (Inl e, s1) \<Rightarrow> (Inl e, s1)
      | (Inr _, s1) \<Rightarrow>
          (let it = FileItem f p 0
           in case fi_size it of
                None \<Rightarrow> (Inl AttributeError, s1)
              | Some sz \<Rightarrow>
                  (case pack_Q (nat sz) of
                     Inl e \<Rightarrow> (Inl e, s1)
                   | Inr packed \<Rightarrow>
                       (case ds_lift (sd_send packed) s1 of
                          (Inl e, s2) \<Rightarrow> (Inl e, s2)
                        | (Inr _, s2) \<Rightarrow> (Inr it, s2)))))"

definition recv_ack :: "dir_sender \<Rightarrow> unit res \<times> dir_sender" where
  "recv_ack s = (case arecv 1 (ds_acks s) of
     (Inl e, a) \<Rightarrow> (Inl e, s\<lparr>ds_acks := a\<rparr>)
   | (Inr b, a) \<Rightarrow> (if b = FILE_CODE then Inr () else Inl AssertionError, s\<lparr>ds_acks := a\<rparr>))"

text \<open>One file: announced, sent when it is not empty, and acknowledged by the other end.\<close>

definition send_dir_file ::
    "bool \<Rightarrow> bool \<Rightarrow> (pyval \<Rightarrow> bytes res) \<Rightarrow> fs \<Rightarrow> path \<Rightarrow> dir_sender \<Rightarrow> unit res \<times> dir_sender" where
  "send_dir_file is_windows is_linux dumps f p s =
     (case dir_send_file_item is_windows is_linux dumps f p s of
        (Inl e, s1) \<Rightarrow> (Inl e, s1)
      | (Inr it, s1) \<Rightarrow>
          (let s2 = s1\<lparr>ds_base := (ds_base s1)\<lparr>sd_files := [it], sd_index := 0\<rparr>\<rparr>
           in case (if the (fi_size it) > 0 then ds_lift (send_one_file f) s2 else (Inr (), s2)) of
                (Inl e, s3) \<Rightarrow> (Inl e, s3)
              | (Inr _, s3) \<Rightarrow> recv_ack s3))"

fun send_entries ::
    "bool \<Rightarrow> bool \<Rightarrow> (pyval \<Rightarrow> bytes res) \<Rightarrow> fs \<Rightarrow> path list \<Rightarrow> path list \<Rightarrow> dir_sender \<Rightarrow> unit res \<times> dir_sender" where
  "send_entries is_windows is_linux dumps f dirs [] s = (Inr (), s)"
| "send_entries is_windows is_linux dumps f dirs (item # items) s =
     (if sd_to_stop (ds_base s) then (Inr (), s)
      else case (if is_dir dirs item then send_code_parts is_windows is_linux dumps PATH_CODE item s
                 else if fs_exists f item then send_dir_file is_windows is_linux dumps f item s
                 else (Inr (), s)) of
        (Inl e, s1) \<Rightarrow> (Inl e, s1)
      | (Inr _, s1) \<Rightarrow> send_entries is_windows is_linux dumps f dirs items s1)"

definition dir_send_files ::
    "bool \<Rightarrow> bool \<Rightarrow> (pyval \<Rightarrow> bytes res) \<Rightarrow> fs \<Rightarrow> path list \<Rightarrow> path list \<Rightarrow> dir_sender \<Rightarrow> unit res \<times> dir_sender" where
  "dir_send_files is_windows is_linux dumps f dirs dir_iterator s =
     (case send_entries is_windows is_linux dumps f dirs dir_iterator s of
        (Inl e, s1) \<Rightarrow> (Inl e, s1)
      | (Inr _, s1) \<Rightarrow> ds_lift (sd_send [0]) s1)"

section \<open>DirReceiver\<close>

text \<open>\<open>dr_base\<close> is what \<open>DirReceiver\<close> inherits from \<open>Receiver\<close>, \<open>dr_out\<close> the bytes sent back.\<close>

record dir_receiver =
  dr_base :: receiver
  dr_dirs :: "path list"
  dr_out :: bytes

definition dr_lift :: "(receiver \<Rightarrow> 'a \<times> receiver) \<Rightarrow> dir_receiver \<Rightarrow> 'a \<times> dir_receiver" where
  "dr_lift g r = (case g (dr_base r) of (x, b) \<Rightarrow> (x, r\<lparr>dr_base := b\<rparr>))"

text \<open>
  \<open>_recv_parts\<close>: the \<open>ValueError\<close> of \<open>recv_int\<close> is not among the exceptions it converts. The parts
  are joined to a path by the callers, which takes strings only.
\<close>

definition parts_of :: "bool \<Rightarrow> pyval \<Rightarrow> (string \<times> string) res" where
  "parts_of is_windows v =
     (case py_iter v of
        None \<Rightarrow> Inl TypeError
      | Some [PStr parent, PStr n] \<Rightarrow> Inr (parent, if is_windows then replace_backslash n else n)
      | Some [_, n] \<Rightarrow>
          Inl (if is_windows then (case n of PStr _ \<Rightarrow> TypeError | PBytes _ \<Rightarrow> TypeError | _ \<Rightarrow> AttributeError)
               else TypeError)
      | Some _ \<Rightarrow> Inl ValueError)"

definition recv_parts ::
    "bool \<Rightarrow> (bytes \<Rightarrow> pyval res) \<Rightarrow> receiver \<Rightarrow> (string \<times> string) res \<times> receiver" where
  "recv_parts is_windows loads r =
     (case recv_int rv_recv SHORT_INT r of
        (Inl e, r1) \<Rightarrow> (Inl (if e = StructError then TransferIncomplete else e), r1)
      | (Inr code_len, r1) \<Rightarrow>
          (case rv_recv code_len r1 of
             (Inl e, r2) \<Rightarrow> (Inl e, r2)
           | (Inr raw, r2) \<Rightarrow>
               (case loads raw of
                  Inl e \<Rightarrow> (Inl (if e = UnpackException then TransferIncomplete else e), r2)
                | Inr v \<Rightarrow> (parts_of is_windows v, r2))))"

definition item_path :: "path \<Rightarrow> string \<times> string \<Rightarrow> path" where
  "item_path download_path pn = path_join (path_join download_path (fst pn)) (snd pn)"

definition dir_recv_file_item ::
    "bool \<Rightarrow> (bytes \<Rightarrow> pyval res) \<Rightarrow> path \<Rightarrow> receiver \<Rightarrow> file_item res \<times> receiver" where
  "dir_recv_file_item is_windows loads d r =
     (case recv_parts is_windows loads r of
        (Inl e, r1) \<Rightarrow> (Inl e, r1)
      | (Inr pn, r1) \<Rightarrow>
          (case recv_int rv_recv LONG_INT r1 of
             (Inl e, r2) \<Rightarrow> (Inl (if e = ValueError then TransferIncomplete else e), r2)
           | (Inr sz, r2) \<Rightarrow>
               (Inr \<lparr>fi_name = path_name (item_path d pn), fi_size = Some (int sz), fi_path = item_path d pn,
                     fi_seeked = 0, fi_original_ext = None\<rparr>, r2)))"

text \<open>What \<open>open(path, 'xb')\<close> and \<open>touch\<close> need of the directories.\<close>

definition open_check :: "path list \<Rightarrow> path \<Rightarrow> unit res" where
  "open_check dirs p =
     (if is_dir dirs p then Inl FileExistsError
      else if \<not> is_dir dirs (path_parent p) then Inl FileNotFoundError else Inr ())"

definition dir_receive_single_file ::
    "path \<Rightarrow> file_item \<Rightarrow> dir_receiver \<Rightarrow> unit res \<times> file_item \<times> dir_receiver" where
  "dir_receive_single_file d it r =
     (case validatename (with_dirs (rv_fs (dr_base r)) (dr_dirs r)) it d of
        Inl e \<Rightarrow> (Inl e, it, r)
      | Inr (n, it1) \<Rightarrow>
          (case (case open_check (dr_dirs r) (fi_path it1) of
                   Inl e \<Rightarrow> (Inl e, it1, dr_base r)
                 | Inr _ \<Rightarrow> recv_file_contents it1 (dr_base r)) of
             (Inl e, it2, b) \<Rightarrow> (case rv_handle (Inl e, b) of (x, b') \<Rightarrow> (x, it2, r\<lparr>dr_base := b'\<rparr>))
           | (Inr _, it2, b) \<Rightarrow>
               if fi_seeked it2 < the (fi_size it2) \<and> \<not> rv_to_stop b
               then (Inl TransferIncomplete, it2, r\<lparr>dr_base := b\<rparr>) else (Inr (), it2, r\<lparr>dr_base := b\<rparr>)))"

definition dir_recv_file_once ::
    "bool \<Rightarrow> (bytes \<Rightarrow> pyval res) \<Rightarrow> path \<Rightarrow> dir_receiver \<Rightarrow> unit res \<times> dir_receiver" where
  "dir_recv_file_once is_windows loads d r =
     (case dr_lift (\<lambda>b. rv_handle (dir_recv_file_item is_windows loads d b)) r of
        (Inl e, r1) \<Rightarrow> (Inl e, r1)
      | (Inr it, r1) \<Rightarrow>
          (let items = rv_items (dr_base r1);
               r2 = r1\<lparr>dr_base := (dr_base r1)\<lparr>rv_items := items @ [it]\<rparr>\<rparr>
           in if the (fi_size it) \<le> 0
              then (if entry_exists (rv_fs (dr_base r2)) (dr_dirs r2) (fi_path it) then (Inr (), r2)
                    else if \<not> is_dir (dr_dirs r2) (path_parent (fi_path it)) then (Inl FileNotFoundError, r2)
                    else (Inr (), r2\<lparr>dr_base := (dr_base r2)\<lparr>rv_fs := dset (fi_path it) [] (rv_fs (dr_base r2))\<rparr>\<rparr>))
              else case dir_receive_single_file d it r2 of
                (out, it', r3) \<Rightarrow> (out, r3\<lparr>dr_base := (dr_base r3)\<lparr>rv_items := items @ [it']\<rparr>\<rparr>)))"

text \<open>One round of the loop of \<open>recv_files\<close> after the code has been read; other codes are skipped.\<close>

definition dir_recv_entry ::
    "bool \<Rightarrow> (bytes \<Rightarrow> pyval res) \<Rightarrow> path \<Rightarrow> bytes \<Rightarrow> dir_receiver \<Rightarrow> unit res \<times> dir_receiver" where
  "dir_recv_entry is_windows loads d code r =
     (if code = FILE_CODE then
        (case dir_recv_file_once is_windows loads d r of
           (Inl e, r1) \<Rightarrow> (Inl e, r1)
         | (Inr _, r1) \<Rightarrow> (Inr (), r1\<lparr>dr_out := dr_out r1 @ code\<rparr>))
      else if code = PATH_CODE then
        (case dr_lift (recv_parts is_windows loads) r of
           (Inl e, r1) \<Rightarrow> (Inl e, r1)
         | (Inr pn, r1) \<Rightarrow>
             (case fs_mkdir False (rv_fs (dr_base r1)) (item_path d pn) (dr_dirs r1) of
                Inl e \<Rightarrow> (Inl e, r1)
              | Inr dirs \<Rightarrow> (Inr (), r1\<lparr>dr_dirs := dirs\<rparr>)))
      else (Inr (), r))"

abbreviation dr_pending :: "dir_receiver \<Rightarrow> nat" where
  "dr_pending r \<equiv> length (pending (rv_stream (dr_base r)))"

lemma recv_int_pending:
  "length (pending (rv_stream (snd (recv_int rv_recv n r)))) \<le> length (pending (rv_stream r))"
  using rv_recv_pending[of n r] by (simp add: recv_int_state)

lemma recv_parts_pending:
  "length (pending (rv_stream (snd (recv_parts w loads r)))) \<le> length (pending (rv_stream r))"
proof -
  obtain x r1 where x: "recv_int rv_recv SHORT_INT r = (x, r1)" by fastforce
  obtain y r2 where y: "rv_recv (projr x) r1 = (y, r2)" by fastforce
  have "length (pending (rv_stream r1)) \<le> length (pending (rv_stream r))"
    using recv_int_pending[of SHORT_INT r] x by simp
  moreover have "length (pending (rv_stream r2)) \<le> length (pending (rv_stream r1))"
    using rv_recv_pending[of "projr x" r1] y by simp
  ultimately show ?thesis
    using x y by (cases x; cases y) (auto simp: recv_parts_def split: sum.split)
qed

lemma dir_recv_file_item_pending:
  "length (pending (rv_stream (snd (dir_recv_file_item w loads d r)))) \<le> length (pending (rv_stream r))"
proof -
  obtain x r1 where x: "recv_parts w loads r = (x, r1)" by fastforce
  obtain y r2 where y: "recv_int rv_recv LONG_INT r1 = (y, r2)" by fastforce
  have "length (pending (rv_stream r1)) \<le> length (pending (rv_stream r))"
    using recv_parts_pending[of w loads r] x by simp
  moreover have "length (pending (rv_stream r2)) \<le> length (pending (rv_stream r1))"
    using recv_int_pending[of LONG_INT r1] y by simp
  ultimately show ?thesis
    using x y by (cases x; cases y) (auto simp: dir_recv_file_item_def)
qed

lemma dir_receive_single_file_pending: "dr_pending (snd (snd (dir_receive_single_file d it r))) \<le> dr_pending r"
proof (cases "validatename (with_dirs (rv_fs (dr_base r)) (dr_dirs r)) it d")
  case (Inr x)
  obtain n it1 where x: "x = (n, it1)" by (cases x)
  obtain o1 it2 b where o: "(case open_check (dr_dirs r) (fi_path it1) of Inl e \<Rightarrow> (Inl e, it1, dr_base r)
      | Inr _ \<Rightarrow> recv_file_contents it1 (dr_base r)) = (o1, it2, b)" by (metis prod_cases3)
  have "length (pending (rv_stream b)) \<le> dr_pending r"
    using recv_file_contents_pending[of it1 "dr_base r"] o by (auto split: sum.splits)
  moreover have "rv_stream b' = rv_stream b" if "rv_handle (Inl e, b) = (y, b')" for e b' and y :: "unit res"
    using that rv_handle_stream[of "(Inl e, b) :: unit res \<times> receiver"] by simp
  ultimately show ?thesis
    using Inr x o by (cases o1) (auto simp: dir_receive_single_file_def split: prod.split)
qed (simp add: dir_receive_single_file_def)

lemma dir_recv_file_once_pending: "dr_pending (snd (dir_recv_file_once w loads d r)) \<le> dr_pending r"
proof -
  obtain x b where x: "rv_handle (dir_recv_file_item w loads d (dr_base r)) = (x, b)" by fastforce
  have b: "length (pending (rv_stream b)) \<le> dr_pending r"
    using dir_recv_file_item_pending[of w loads d "dr_base r"]
      rv_handle_stream[of "dir_recv_file_item w loads d (dr_base r)"] x by simp
  show ?thesis
  proof (cases x)
    case (Inl e)
    then show ?thesis using x b by (simp add: dir_recv_file_once_def dr_lift_def)
  next
    case (Inr it)
    let ?r2 = "r\<lparr>dr_base := b\<lparr>rv_items := rv_items b @ [it]\<rparr>\<rparr>"
    obtain out it' r3 where o: "dir_receive_single_file d it ?r2 = (out, it', r3)" by (metis prod_cases3)
    have "dr_pending r3 \<le> length (pending (rv_stream b))"
      using dir_receive_single_file_pending[of d it ?r2] o by simp
    then show ?thesis
      using x Inr b o by (auto simp: dir_recv_file_once_def dr_lift_def Let_def)
  qed
qed

lemma dir_recv_entry_pending: "dr_pending (snd (dir_recv_entry w loads d code r)) \<le> dr_pending r"
proof -
  obtain x r1 where x: "dir_recv_file_once w loads d r = (x, r1)" by fastforce
  obtain y b where y: "recv_parts w loads (dr_base r) = (y, b)" by fastforce
  have "dr_pending r1 \<le> dr_pending r" "length (pending (rv_stream b)) \<le> dr_pending r"
    using dir_recv_file_once_pending[of w loads d r] recv_parts_pending[of w loads "dr_base r"] x y by simp_all
  then show ?thesis
    using x y by (cases x; cases y) (auto simp: dir_recv_entry_def dr_lift_def split: sum.split)
qed

text \<open>The loop of \<open>DirReceiver.recv_files\<close>; it ends because every round takes the code off the stream.\<close>

function dir_recv_loop ::
    "bool \<Rightarrow> (bytes \<Rightarrow> pyval res) \<Rightarrow> path \<Rightarrow> dir_receiver \<Rightarrow> unit res \<times> dir_receiver" where
  "dir_recv_loop is_windows loads d r =
     (case should_proceed (dr_base r) of
        (Inl e, b) \<Rightarrow> (Inl e, r\<lparr>dr_base := b\<rparr>)
      | (Inr code, b) \<Rightarrow>
          if code = [] then (Inr (), r\<lparr>dr_base := b\<rparr>)
          else (case dir_recv_entry is_windows loads d code (r\<lparr>dr_base := b\<rparr>) of
                  (Inl e, r2) \<Rightarrow> (Inl e, r2)
                | (Inr _, r2) \<Rightarrow> dir_recv_loop is_windows loads d r2))"
  by pat_completeness auto

lemma dir_round_consumes:
  assumes "should_proceed (dr_base r) = (Inr code, b)" "code \<noteq> []"
    "dir_recv_entry w loads d code (r\<lparr>dr_base := b\<rparr>) = (out, r2)"
  shows "dr_pending r2 < dr_pending r"
  using should_proceed_consumes[OF assms(1,2)] dir_recv_entry_pending[of w loads d code "r\<lparr>dr_base := b\<rparr>"] assms(3)
  by simp

termination dir_recv_loop
  by (relation "measure (\<lambda>(w, loads, d, r). dr_pending r)")
    (simp, simp only: in_measure case_prod_conv, metis dir_round_consumes)

declare dir_recv_loop.simps [simp del]

text \<open>\<open>recv_files\<close> sets the state \<open>RECEIVING\<close> and never leaves it by itself.\<close>

definition dir_recv_files ::
    "bool \<Rightarrow> (bytes \<Rightarrow> pyval res) \<Rightarrow> path \<Rightarrow> dir_receiver \<Rightarrow> unit res \<times> dir_receiver" where
  "dir_recv_files is_windows loads d r =
     dir_recv_loop is_windows loads d (r\<lparr>dr_base := (dr_base r)\<lparr>rv_state := RECEIVING\<rparr>\<rparr>)"

section \<open>What the sender puts on the wire\<close>

text \<open>
  A tree as a list of its entries below the root, in the order in which they are listed: a
  directory has no contents.
\<close>

type_synonym tree = "(string list \<times> bytes option) list"

definition below :: "path \<Rightarrow> string list \<Rightarrow> path" where
  "below root_path rel = (fst root_path, snd root_path @ rel)"

text \<open>The disk of the sender holds an entry, and the codec carries its announcement.\<close>

definition holds :: "path \<Rightarrow> fs \<Rightarrow> path list \<Rightarrow> string list \<times> bytes option \<Rightarrow> bool" where
  "holds root_path f dirs e \<longleftrightarrow>
     is_dir dirs (below root_path (fst e)) = (snd e = None) \<and>
     (\<forall>c. snd e = Some c \<longrightarrow> dget f (below root_path (fst e)) = Some c \<and> length c < 256 ^ 8)"

definition carries :: "(pyval \<Rightarrow> bytes res) \<Rightarrow> (bytes \<Rightarrow> pyval res) \<Rightarrow> string list \<Rightarrow> bool" where
  "carries dumps loads rel \<longleftrightarrow> packs dumps loads (code_parts True False rel) \<and>
     frameable (projr (dumps (code_parts True False rel)))"

definition entry_wire :: "(pyval \<Rightarrow> bytes res) \<Rightarrow> string list \<times> bytes option \<Rightarrow> bytes" where
  "entry_wire dumps e =
     (let announcement = frame (projr (dumps (code_parts True False (fst e))))
      in case snd e of
           None \<Rightarrow> PATH_CODE @ announcement
         | Some c \<Rightarrow> FILE_CODE @ announcement @ be_encode 8 (length c) @ c)"

lemma send_code_parts_smooth:
  assumes "smooth (ds_base s)" "ds_root s = root_path" "carries dumps loads rel"
  shows "send_code_parts True False dumps code (below root_path rel) s =
    (Inr (), s\<lparr>ds_base := (ds_base s)\<lparr>sd_out := sd_out (ds_base s) @ code @
       frame (projr (dumps (code_parts True False rel)))\<rparr>\<rparr>)"
  using assms
  by (auto simp: send_code_parts_def below_def carries_def packs_def ds_lift_def sd_handle_def smooth_def
      sd_send_def frame_def frameable_def struct_pack_def)

definition acks_ready :: "nat \<Rightarrow> dir_sender \<Rightarrow> bool" where
  "acks_ready n s \<longleftrightarrow> unsplit (ds_acks s) \<and> pending (ds_acks s) = replicate n 1"

lemma recv_ack_ready: "acks_ready (Suc n) s \<Longrightarrow> \<exists>a. recv_ack s = (Inr (), s\<lparr>ds_acks := a\<rparr>) \<and> acks_ready n (s\<lparr>ds_acks := a\<rparr>)"
  by (auto simp: acks_ready_def recv_ack_def unsplit_def arecv_def sock_recv_def FILE_CODE_def)

lemma send_dir_file_smooth:
  assumes "smooth (ds_base s)" "ds_root s = root_path" "carries dumps loads rel"
    "holds root_path f dirs (rel, Some c)" "acks_ready (Suc n) s"
  shows "\<exists>s'. send_dir_file True False dumps f (below root_path rel) s = (Inr (), s') \<and> smooth (ds_base s') \<and>
    ds_root s' = root_path \<and> sd_state (ds_base s') = sd_state (ds_base s) \<and> acks_ready n s' \<and>
    sd_out (ds_base s') = sd_out (ds_base s) @ entry_wire dumps (rel, Some c)"
proof -
  let ?it = "FileItem f (below root_path rel) 0"
  let ?ann = "FILE_CODE @ frame (projr (dumps (code_parts True False rel)))"
  let ?b = "(ds_base s)\<lparr>sd_out := sd_out (ds_base s) @ ?ann @ be_encode 8 (length c), sd_files := [?it], sd_index := 0\<rparr>"
  have c: "dget f (below root_path rel) = Some c" "length c < 256 ^ 8"
    using assms(4) by (auto simp: holds_def)
  have item: "dir_send_file_item True False dumps f (below root_path rel) s =
      (Inr ?it, s\<lparr>ds_base := (ds_base s)\<lparr>sd_out := sd_out (ds_base s) @ ?ann @ be_encode 8 (length c)\<rparr>\<rparr>)"
    using send_code_parts_smooth[OF assms(1-3), of FILE_CODE] c assms(1)
    by (simp add: dir_send_file_item_def FileItem_def struct_pack_def ds_lift_def sd_send_def smooth_def)
  have "\<exists>b. (if the (fi_size ?it) > 0 then ds_lift (send_one_file f) (s\<lparr>ds_base := ?b\<rparr>) else (Inr (), s\<lparr>ds_base := ?b\<rparr>)) =
      (Inr (), s\<lparr>ds_base := b\<rparr>) \<and> smooth b \<and> sd_state b = sd_state (ds_base s) \<and> sd_out b = sd_out ?b @ c"
  proof (cases "c = []")
    case True
    then show ?thesis
      using c(1) assms(1) by (intro exI[of _ ?b]) (simp add: FileItem_def smooth_def)
  next
    case False
    obtain b where "send_one_file f ?b = (Inr (), b)" "smooth b" "only_seeked ?b b" "sd_out b = sd_out ?b @ c"
      using send_one_file_smooth[of ?b c f] c(1) False assms(1) by (auto simp: FileItem_def smooth_def)
    then show ?thesis
      using c(1) False by (intro exI[of _ b]) (simp add: FileItem_def ds_lift_def only_seeked_def)
  qed
  then obtain b where b: "(if the (fi_size ?it) > 0 then ds_lift (send_one_file f) (s\<lparr>ds_base := ?b\<rparr>) else (Inr (), s\<lparr>ds_base := ?b\<rparr>)) =
      (Inr (), s\<lparr>ds_base := b\<rparr>)" "smooth b" "sd_state b = sd_state (ds_base s)" "sd_out b = sd_out ?b @ c"
    by blast
  have "acks_ready (Suc n) (s\<lparr>ds_base := b\<rparr>)" using assms(5) by (simp add: acks_ready_def)
  from recv_ack_ready[OF this] obtain a where a: "recv_ack (s\<lparr>ds_base := b\<rparr>) = (Inr (), s\<lparr>ds_base := b, ds_acks := a\<rparr>)"
      "acks_ready n (s\<lparr>ds_base := b, ds_acks := a\<rparr>)"
    by auto
  have "send_dir_file True False dumps f (below root_path rel) s = (Inr (), s\<lparr>ds_base := b, ds_acks := a\<rparr>)"
    using item b(1) a(1) by (simp add: send_dir_file_def Let_def split del: if_split cong: if_cong)
  then show ?thesis
    using b(2-4) a(2) assms(2) by (simp add: entry_wire_def)
qed

definition file_count :: "tree \<Rightarrow> nat" where
  "file_count tree = length (filter (\<lambda>e. snd e \<noteq> None) tree)"

lemma send_entries_smooth:
  assumes "smooth (ds_base s)" "ds_root s = root_path" "acks_ready (file_count tree) s"
    and "\<forall>e \<in> set tree. holds root_path f dirs e \<and> carries dumps loads (fst e)"
  shows "\<exists>s'. send_entries True False dumps f dirs (map (below root_path \<circ> fst) tree) s = (Inr (), s') \<and>
    smooth (ds_base s') \<and> sd_state (ds_base s') = sd_state (ds_base s) \<and>
    sd_out (ds_base s') = sd_out (ds_base s) @ concat (map (entry_wire dumps) tree)"
  using assms
proof (induction tree arbitrary: s)
  case (Cons e tree)
  obtain rel co where e: "e = (rel, co)" by (cases e)
  have h: "holds root_path f dirs (rel, co)" "carries dumps loads rel" using Cons.prems(4) e by auto
  have stop: "\<not> sd_to_stop (ds_base s)" using Cons.prems(1) by (simp add: smooth_def)
  have "\<exists>s1. (if is_dir dirs (below root_path rel) then send_code_parts True False dumps PATH_CODE (below root_path rel) s
       else if fs_exists f (below root_path rel) then send_dir_file True False dumps f (below root_path rel) s
       else (Inr (), s)) = (Inr (), s1) \<and> smooth (ds_base s1) \<and> ds_root s1 = root_path \<and>
      sd_state (ds_base s1) = sd_state (ds_base s) \<and> acks_ready (file_count tree) s1 \<and>
      sd_out (ds_base s1) = sd_out (ds_base s) @ entry_wire dumps e"
  proof (cases co)
    case None
    then show ?thesis
      using send_code_parts_smooth[OF Cons.prems(1,2) h(2), of PATH_CODE] h(1) Cons.prems(1-3) e
      by (simp add: holds_def smooth_def acks_ready_def file_count_def entry_wire_def)
  next
    case (Some c)
    have "acks_ready (Suc (file_count tree)) s" using Cons.prems(3) e Some by (simp add: file_count_def)
    from send_dir_file_smooth[OF Cons.prems(1,2) h(2) _ this] h(1) Some e show ?thesis
      by (simp add: holds_def fs_exists_def dmem_iff)
  qed
  then obtain s1 where s1: "(if is_dir dirs (below root_path rel) then send_code_parts True False dumps PATH_CODE (below root_path rel) s
       else if fs_exists f (below root_path rel) then send_dir_file True False dumps f (below root_path rel) s
       else (Inr (), s)) = (Inr (), s1)" "smooth (ds_base s1)" "ds_root s1 = root_path"
      "sd_state (ds_base s1) = sd_state (ds_base s)" "acks_ready (file_count tree) s1"
      "sd_out (ds_base s1) = sd_out (ds_base s) @ entry_wire dumps e"
    by blast
  from Cons.IH[OF s1(2,3,5)] Cons.prems(4) show ?case
    using s1(1,4,6) stop e by (simp add: comp_def)
qed simp

section \<open>What the receiver makes of it\<close>

lemma split_on_join: "ps \<noteq> [] \<Longrightarrow> list_all plain_name ps \<Longrightarrow> split_on CHR ''/'' (join_slash ps) = ps"
  by (induction ps rule: join_slash.induct) (auto simp: split_on_plain split_on_sep plain_name_def)

lemma join_slash_relative: "ps \<noteq> [] \<Longrightarrow> list_all plain_name ps \<Longrightarrow> join_slash ps \<noteq> [] \<and> hd (join_slash ps) \<noteq> CHR ''/''"
  by (induction ps rule: join_slash.induct) (auto simp: plain_name_def hd_append dest: hd_in_set)

lemma path_join_posix: "list_all plain_name ps \<Longrightarrow> path_join d (as_posix ps) = below d ps"
proof (cases "ps = []")
  case True
  then show ?thesis
    by (simp add: as_posix_def path_join_def path_of_def path_parts_def below_def)
next
  case False
  moreover assume ps: "list_all plain_name ps"
  ultimately have "path_parts (join_slash ps) = ps"
    using split_on_join[of ps] by (simp add: path_parts_def filter_id_conv list_all_iff plain_name_def)
  then show ?thesis
    using False ps join_slash_relative[of ps] by (simp add: as_posix_def path_join_def path_of_def below_def)
qed

lemma item_path_below:
  assumes "rel \<noteq> []" "list_all plain_name rel"
  shows "item_path d (as_posix (butlast rel), last rel) = below d rel"
proof -
  have "list_all plain_name (butlast rel)" "plain_name (last rel)"
    using assms by (auto simp: list_all_iff dest: in_set_butlastD)
  then show ?thesis
    using assms(1) by (simp add: item_path_def path_join_posix path_join_plain below_def)
qed

text \<open>
  An entry that can be transferred under its own name: its name and the names above it are plain,
  the directories above it have been listed before, and a file's name is not also the name of an
  entry listed before at the top of the tree.
\<close>

definition listable :: "tree \<Rightarrow> string list \<times> bytes option \<Rightarrow> bool" where
  "listable es e \<longleftrightarrow> fst e \<noteq> [] \<and> list_all plain_name (fst e) \<and> replace_backslash (last (fst e)) = last (fst e) \<and>
     fst e \<notin> fst ` set es \<and> list_all (\<lambda>j. (take j (fst e), None) \<in> set es) [1..<length (fst e)] \<and>
     (case snd e of None \<Rightarrow> True | Some c \<Rightarrow> c = [] \<or> [last (fst e)] \<notin> fst ` set es)"

fun well_listed :: "tree \<Rightarrow> tree \<Rightarrow> bool" where
  "well_listed es [] \<longleftrightarrow> True"
| "well_listed es (e # tree) \<longleftrightarrow> listable es e \<and> well_listed (es @ [e]) tree"

text \<open>A download directory that exists and is empty.\<close>

definition fresh_dir :: "fs \<Rightarrow> path list \<Rightarrow> path \<Rightarrow> bool" where
  "fresh_dir f dirs d \<longleftrightarrow>
     (\<forall>k \<le> length (snd d). is_dir dirs (fst d, take k (snd d)) \<and> \<not> fs_exists f (fst d, take k (snd d))) \<and>
     (\<forall>rel. rel \<noteq> [] \<longrightarrow> \<not> entry_exists f dirs (below d rel))"

text \<open>The tree \<open>es\<close> planted below \<open>d\<close>.\<close>

definition tree_dirs :: "path \<Rightarrow> tree \<Rightarrow> path list" where
  "tree_dirs d es = map (below d \<circ> fst) (filter (\<lambda>e. snd e = None) es)"

definition tree_files :: "path \<Rightarrow> tree \<Rightarrow> fs" where
  "tree_files d es = map (\<lambda>e. (below d (fst e), the (snd e))) (filter (\<lambda>e. snd e \<noteq> None) es)"

lemma below_inj [simp]: "below d a = below d b \<longleftrightarrow> a = b"
  by (simp add: below_def)

lemma dmem_append [simp]: "dmem k (a @ b) \<longleftrightarrow> dmem k a \<or> dmem k b"
  by (auto simp: dmem_def dkeys_def)

lemma dmem_tree_files: "dmem (below d rel) (tree_files d es) \<longleftrightarrow> (\<exists>c. (rel, Some c) \<in> set es)"
  by (force simp: dmem_def dkeys_def tree_files_def)

lemma in_tree_dirs: "below d rel \<in> set (tree_dirs d es) \<longleftrightarrow> (rel, None) \<in> set es"
  by (force simp: tree_dirs_def)

lemma fs_exists_with_dirs: "fs_exists (with_dirs f dirs) p \<longleftrightarrow> fs_exists f p \<or> p \<in> set dirs"
  by (force simp: fs_exists_def with_dirs_def dmem_def dkeys_def)

definition good_tree :: "tree \<Rightarrow> bool" where
  "good_tree es \<longleftrightarrow> distinct (map fst es) \<and> [] \<notin> fst ` set es"

lemma good_tree_snoc: "good_tree es \<Longrightarrow> listable es e \<Longrightarrow> good_tree (es @ [e])"
  by (auto simp: good_tree_def listable_def)

lemma planted_absent:
  assumes "fresh_dir f dirs d" "rel \<noteq> []" "rel \<notin> fst ` set es"
  shows "\<not> entry_exists (f @ tree_files d es) (dirs @ tree_dirs d es) (below d rel)"
proof -
  have "\<not> entry_exists f dirs (below d rel)"
    using assms(1,2) by (simp add: fresh_dir_def)
  moreover have "(rel, x) \<notin> set es" for x
    using assms(3) by (metis fst_conv image_eqI)
  ultimately show ?thesis
    by (simp add: entry_exists_def fs_exists_def is_dir_def dmem_tree_files in_tree_dirs)
qed

lemma planted_above:
  assumes "fresh_dir f dirs d" "good_tree es"
    "list_all (\<lambda>j. (take j rel, None) \<in> set es) [1..<length rel]" "k < length (snd d) + length rel"
  shows "is_dir (dirs @ tree_dirs d es) (fst d, take k (snd d @ rel)) \<and>
    \<not> fs_exists (f @ tree_files d es) (fst d, take k (snd d @ rel))"
proof (cases "k \<le> length (snd d)")
  case True
  have "\<not> dmem (fst d, take k (snd d)) (tree_files d es)"
  proof
    assume "dmem (fst d, take k (snd d)) (tree_files d es)"
    then obtain e where "e \<in> set es" "take k (snd d) = snd d @ fst e"
      by (auto simp: dmem_def dkeys_def tree_files_def below_def)
    then have "fst e = []"
      by (metis True append_self_conv append_take_drop_id le_antisym length_append length_take min.absorb2 min_def le_add1 take_all)
    with \<open>e \<in> set es\<close> assms(2) show False by (force simp: good_tree_def)
  qed
  then show ?thesis
    using True assms(1) by (auto simp: fresh_dir_def is_dir_def fs_exists_def)
next
  case False
  define j where "j = k - length (snd d)"
  have eq: "(fst d, take k (snd d @ rel)) = below d (take j rel)"
    using False by (simp add: below_def j_def)
  have j: "j \<in> set [1..<length rel]" using False assms(4) by (auto simp: j_def)
  then have m: "(take j rel, None) \<in> set es" using assms(3) by (simp add: list_all_iff)
  then have "\<not> (\<exists>c. (take j rel, Some c) \<in> set es)"
    using assms(2) by (auto simp: good_tree_def) (metis eq_key_imp_eq_value option.distinct(1))
  moreover have "take j rel \<noteq> []" using j by auto
  moreover have "\<not> entry_exists f dirs (below d (take j rel))"
    using assms(1) \<open>take j rel \<noteq> []\<close> by (simp add: fresh_dir_def)
  ultimately show ?thesis
    unfolding eq using m by (simp add: is_dir_def fs_exists_def entry_exists_def dmem_tree_files in_tree_dirs)
qed

lemma recv_parts_calm:
  assumes "calm r" "carries dumps loads rel" "rel \<noteq> []" "replace_backslash (last rel) = last rel"
    "pending (rv_stream r) = frame (projr (dumps (code_parts True False rel))) @ rest"
  shows "recv_parts True loads r =
    (Inr (as_posix (butlast rel), last rel), r\<lparr>rv_stream := (rv_stream r)\<lparr>pending := rest\<rparr>\<rparr>)"
proof -
  define obj where "obj = projr (dumps (code_parts True False rel))"
  let ?r1 = "r\<lparr>rv_stream := (rv_stream r)\<lparr>pending := obj @ rest\<rparr>\<rparr>"
  have "rv_recv 4 r = (Inr (be_encode 4 (length obj)), ?r1)"
    using rv_recv_calm[OF assms(1), of 4] assms(5) by (simp add: obj_def del: drop_append)
  then have "recv_int rv_recv SHORT_INT r = (Inr (length obj), ?r1)"
    using assms(2) by (intro recv_int_short) (simp_all add: carries_def frameable_def obj_def)
  moreover have "calm ?r1" using assms(1) by (simp add: calm_def unsplit_def)
  moreover have "loads obj = Inr (msgpack_norm (code_parts True False rel))"
    using assms(2) by (auto simp: carries_def packs_def obj_def)
  ultimately show ?thesis
    using assms(4) rv_recv_calm[of ?r1 "length obj"]
    by (simp add: recv_parts_def parts_of_def code_parts_def)
qed

text \<open>A receiver that has planted \<open>es\<close> so far.\<close>

definition planted :: "fs \<Rightarrow> path list \<Rightarrow> path \<Rightarrow> tree \<Rightarrow> dir_receiver \<Rightarrow> bool" where
  "planted f dirs d es r \<longleftrightarrow> calm (dr_base r) \<and> good_tree es \<and>
     rv_fs (dr_base r) = f @ tree_files d es \<and> dr_dirs r = dirs @ tree_dirs d es"

lemma planted_parent:
  assumes "fresh_dir f dirs d" "planted f dirs d es r" "listable es e"
  shows "is_dir (dr_dirs r) (path_parent (below d (fst e)))"
proof -
  define k where "k = length (snd d) + length (fst e) - 1"
  have k: "k < length (snd d) + length (fst e)" and up: "list_all (\<lambda>j. (take j (fst e), None) \<in> set es) [1..<length (fst e)]"
    using assms(3) by (simp_all add: listable_def k_def)
  have "path_parent (below d (fst e)) = (fst d, take k (snd d @ fst e))"
    by (simp add: path_parent_def below_def butlast_conv_take k_def)
  moreover have "good_tree es" "dr_dirs r = dirs @ tree_dirs d es"
    using assms(2) by (simp_all add: planted_def)
  ultimately show ?thesis
    using planted_above[OF assms(1) _ up k] by (simp only:)
qed

lemma dir_recv_path_calm:
  assumes "fresh_dir f dirs d" "planted f dirs d es r" "listable es (rel, None)" "carries dumps loads rel"
    "pending (rv_stream (dr_base r)) = frame (projr (dumps (code_parts True False rel))) @ rest"
  shows "\<exists>r'. dir_recv_entry True loads d PATH_CODE r = (Inr (), r') \<and> planted f dirs d (es @ [(rel, None)]) r' \<and>
    pending (rv_stream (dr_base r')) = rest \<and> dr_out r' = dr_out r \<and> rv_state (dr_base r') = rv_state (dr_base r)"
proof -
  have l: "rel \<noteq> []" "list_all plain_name rel" "replace_backslash (last rel) = last rel" "rel \<notin> fst ` set es"
      "list_all (\<lambda>j. (take j rel, None) \<in> set es) [1..<length rel]"
    using assms(3) by (simp_all add: listable_def)
  have pl: "calm (dr_base r)" "good_tree es" "rv_fs (dr_base r) = f @ tree_files d es" "dr_dirs r = dirs @ tree_dirs d es"
    using assms(2) by (simp_all add: planted_def)
  let ?b = "(dr_base r)\<lparr>rv_stream := (rv_stream (dr_base r))\<lparr>pending := rest\<rparr>\<rparr>"
  have "is_dir (dr_dirs r) a \<and> \<not> fs_exists (rv_fs (dr_base r)) a" if "a \<in> set (ancestors (below d rel))" for a
    using planted_above[OF assms(1) pl(2) l(5)] that pl(3,4) by (auto simp: ancestors_def below_def)
  then have "fs_mkdir False (rv_fs (dr_base r)) (below d rel) (dr_dirs r) = Inr (dr_dirs r @ [below d rel])"
    using planted_absent[OF assms(1) l(1,4)] pl(3,4)
    by (simp add: fs_mkdir_def entry_exists_def list_ex_iff filter_empty_conv)
  then have "dir_recv_entry True loads d PATH_CODE r = (Inr (), r\<lparr>dr_base := ?b, dr_dirs := dr_dirs r @ [below d rel]\<rparr>)"
    using recv_parts_calm[OF pl(1) assms(4) l(1,3) assms(5)] item_path_below[OF l(1,2), of d]
    by (simp add: dir_recv_entry_def dr_lift_def PATH_CODE_def FILE_CODE_def)
  then show ?thesis
    using pl good_tree_snoc[OF pl(2) assms(3)]
    by (simp add: planted_def calm_def unsplit_def tree_files_def tree_dirs_def)
qed

lemma dir_recv_item_calm:
  assumes "calm r" "carries dumps loads rel" "rel \<noteq> []" "list_all plain_name rel"
    "replace_backslash (last rel) = last rel" "n < 256 ^ 8"
    "pending (rv_stream r) = frame (projr (dumps (code_parts True False rel))) @ be_encode 8 n @ rest"
  shows "dir_recv_file_item True loads d r =
    (Inr \<lparr>fi_name = last rel, fi_size = Some (int n), fi_path = below d rel, fi_seeked = 0, fi_original_ext = None\<rparr>,
     r\<lparr>rv_stream := (rv_stream r)\<lparr>pending := rest\<rparr>\<rparr>)"
proof -
  let ?r1 = "r\<lparr>rv_stream := (rv_stream r)\<lparr>pending := be_encode 8 n @ rest\<rparr>\<rparr>"
  have "calm ?r1" using assms(1) by (simp add: calm_def unsplit_def)
  from rv_recv_calm[OF this, of 8] have "rv_recv 8 ?r1 = (Inr (be_encode 8 n), r\<lparr>rv_stream := (rv_stream r)\<lparr>pending := rest\<rparr>\<rparr>)"
    by simp
  from recv_int_long[of rv_recv, OF this assms(6)] show ?thesis
    using recv_parts_calm[OF assms(1,2,3,5,7)] assms(3) item_path_below[OF assms(3,4), of d]
    by (simp add: dir_recv_file_item_def path_name_def below_def)
qed

lemma dir_recv_file_calm:
  assumes "fresh_dir f dirs d" "planted f dirs d es r" "listable es (rel, Some c)" "carries dumps loads rel"
    "length c < 256 ^ 8"
    "pending (rv_stream (dr_base r)) = frame (projr (dumps (code_parts True False rel))) @ be_encode 8 (length c) @ c @ rest"
  shows "\<exists>r'. dir_recv_entry True loads d FILE_CODE r = (Inr (), r') \<and> planted f dirs d (es @ [(rel, Some c)]) r' \<and>
    pending (rv_stream (dr_base r')) = rest \<and> dr_out r' = dr_out r @ [1] \<and> rv_state (dr_base r') = rv_state (dr_base r)"
proof -
  have l: "rel \<noteq> []" "list_all plain_name rel" "replace_backslash (last rel) = last rel" "rel \<notin> fst ` set es"
      "c \<noteq> [] \<Longrightarrow> [last rel] \<notin> fst ` set es"
    using assms(3) by (simp_all add: listable_def)
  have pl: "calm (dr_base r)" "good_tree es" "rv_fs (dr_base r) = f @ tree_files d es" "dr_dirs r = dirs @ tree_dirs d es"
    using assms(2) by (simp_all add: planted_def)
  have absent: "\<not> entry_exists (rv_fs (dr_base r)) (dr_dirs r) (below d rel)"
    using planted_absent[OF assms(1) l(1,4)] pl(3,4) by simp
  have parent: "is_dir (dr_dirs r) (path_parent (below d rel))"
    using planted_parent[OF assms(1-3)] by simp
  let ?it = "\<lparr>fi_name = last rel, fi_size = Some (int (length c)), fi_path = below d rel, fi_seeked = 0,
    fi_original_ext = None\<rparr>"
  let ?b1 = "(dr_base r)\<lparr>rv_stream := (rv_stream (dr_base r))\<lparr>pending := c @ rest\<rparr>\<rparr>"
  let ?new = "dset (below d rel) c (rv_fs (dr_base r))"
  have item: "dr_lift (\<lambda>b. rv_handle (dir_recv_file_item True loads d b)) r = (Inr ?it, r\<lparr>dr_base := ?b1\<rparr>)"
    using dir_recv_item_calm[OF pl(1) assms(4) l(1,2,3) assms(5,6), of d] by (simp add: dr_lift_def rv_handle_def)
  let ?b2 = "?b1\<lparr>rv_items := rv_items (dr_base r) @ [?it]\<rparr>"
  have "\<exists>b. dir_recv_file_once True loads d r = (Inr (), r\<lparr>dr_base := b\<rparr>) \<and>
      rv_stream b = (rv_stream (dr_base r))\<lparr>pending := rest\<rparr> \<and> rv_fs b = ?new \<and>
      rv_to_stop b = rv_to_stop (dr_base r) \<and> rv_state b = rv_state (dr_base r)"
  proof (cases "c = []")
    case True
    then show ?thesis
      using item absent parent
      by (simp add: dir_recv_file_once_def Let_def) (rule exI, rule conjI, rule refl, simp)
  next
    case False
    have plain: "plain_name (last rel)" using l(1,2) by (auto simp: list_all_iff)
    have "\<not> entry_exists (rv_fs (dr_base r)) (dr_dirs r) (below d [last rel])"
      using planted_absent[OF assms(1) _ l(5)[OF False]] pl(3,4) by simp
    then have "last rel \<notin> set (dir_entries (with_dirs (rv_fs (dr_base r)) (dr_dirs r)) d)"
      using dir_entries_exists[OF plain] plain
      by (simp add: fs_exists_with_dirs entry_exists_def is_dir_def below_def path_join_plain)
    then have "validatename (with_dirs (rv_fs (dr_base r)) (dr_dirs r)) ?it d = Inr (last rel, ?it)"
      using validatename_ok[of ?it "last rel" "with_dirs (rv_fs (dr_base r)) (dr_dirs r)" d] plain l(1)
      by (simp add: path_name_def below_def validated_name_def butlast_append)
    moreover have "open_check (dr_dirs r) (below d rel) = Inr ()"
      using absent parent by (simp add: open_check_def entry_exists_def)
    moreover have "recv_file_contents ?it ?b2 = (Inr (), ?it\<lparr>fi_seeked := int (length c)\<rparr>,
        ?b2\<lparr>rv_stream := (rv_stream (dr_base r))\<lparr>pending := rest\<rparr>, rv_fs := ?new\<rparr>)"
      using recv_file_contents_calm[of ?b2 ?it c rest] pl(1) absent
      by (simp add: calm_def unsplit_def entry_exists_def fs_exists_def dmem_iff)
    ultimately have "dir_receive_single_file d ?it (r\<lparr>dr_base := ?b2\<rparr>) = (Inr (), ?it\<lparr>fi_seeked := int (length c)\<rparr>,
        r\<lparr>dr_base := ?b2\<lparr>rv_stream := (rv_stream (dr_base r))\<lparr>pending := rest\<rparr>, rv_fs := ?new\<rparr>\<rparr>)"
      by (simp add: dir_receive_single_file_def)
    then show ?thesis
      using item False
      by (simp add: dir_recv_file_once_def Let_def) (rule exI, rule conjI, rule refl, simp)
  qed
  moreover have "?new = f @ tree_files d (es @ [(rel, Some c)])"
    using absent pl(3) by (simp add: dset_new entry_exists_def fs_exists_def tree_files_def)
  ultimately show ?thesis
    using pl good_tree_snoc[OF pl(2) assms(3)]
    by (auto simp: dir_recv_entry_def FILE_CODE_def planted_def calm_def unsplit_def tree_dirs_def)
qed

lemma should_proceed_calm:
  assumes "calm r" "pending (rv_stream r) = b # rest" "b \<noteq> 0"
  shows "should_proceed r = (Inr [b], r\<lparr>rv_stream := (rv_stream r)\<lparr>pending := rest\<rparr>\<rparr>)"
  using assms rv_recv_calm[OF assms(1), of 1] by (simp add: should_proceed_def rv_handle_def calm_def)

lemma should_proceed_end:
  assumes "calm r" "pending (rv_stream r) = 0 # rest"
  shows "should_proceed r = (Inr [], r\<lparr>rv_stream := (rv_stream r)\<lparr>pending := rest\<rparr>\<rparr>)"
  using assms rv_recv_calm[OF assms(1), of 1] by (simp add: should_proceed_def rv_handle_def calm_def)

lemma dir_recv_loop_calm:
  assumes "fresh_dir f dirs d" "planted f dirs d es r" "well_listed es tree"
    "\<forall>e \<in> set tree. carries dumps loads (fst e) \<and> (\<forall>c. snd e = Some c \<longrightarrow> length c < 256 ^ 8)"
    "pending (rv_stream (dr_base r)) = concat (map (entry_wire dumps) tree) @ [0] @ rest"
  shows "\<exists>r'. dir_recv_loop True loads d r = (Inr (), r') \<and> planted f dirs d (es @ tree) r' \<and>
    pending (rv_stream (dr_base r')) = rest \<and> dr_out r' = dr_out r @ replicate (file_count tree) 1 \<and>
    rv_state (dr_base r') = rv_state (dr_base r)"
  using assms(2-)
proof (induction tree arbitrary: es r)
  case Nil
  have "calm (dr_base r)" using Nil.prems(1) by (simp add: planted_def)
  from should_proceed_end[OF this, of rest] Nil.prems(1,4) show ?case
    by (subst dir_recv_loop.simps) (simp add: planted_def calm_def unsplit_def file_count_def)
next
  case (Cons e tree)
  obtain rel co where e: "e = (rel, co)" by (cases e)
  define more where "more = concat (map (entry_wire dumps) tree) @ [0] @ rest"
  define ann where "ann = frame (projr (dumps (code_parts True False rel)))"
  have h: "listable es (rel, co)" "well_listed (es @ [e]) tree" "carries dumps loads rel"
      "co = Some c \<Longrightarrow> length c < 256 ^ 8" for c
    using Cons.prems(2,3) e by auto
  have calm: "calm (dr_base r)" using Cons.prems(1) by (simp add: planted_def)
  have pre: "planted f dirs d es (r\<lparr>dr_base := (dr_base r)\<lparr>rv_stream := (rv_stream (dr_base r))\<lparr>pending := q\<rparr>\<rparr>\<rparr>)" for q
    using Cons.prems(1) by (simp add: planted_def calm_def unsplit_def)
  have "\<exists>code b r1. should_proceed (dr_base r) = (Inr [code], b) \<and>
      dir_recv_entry True loads d [code] (r\<lparr>dr_base := b\<rparr>) = (Inr (), r1) \<and> planted f dirs d (es @ [e]) r1 \<and>
      pending (rv_stream (dr_base r1)) = more \<and> dr_out r1 = dr_out r @ replicate (file_count [e]) 1 \<and>
      rv_state (dr_base r1) = rv_state (dr_base r)"
  proof (cases co)
    case None
    have "pending (rv_stream (dr_base r)) = 2 # ann @ more"
      using Cons.prems(4) e None by (simp add: entry_wire_def[of dumps "(rel, None)"] PATH_CODE_def more_def ann_def)
    from should_proceed_calm[OF calm this] dir_recv_path_calm[OF assms(1) pre h(1)[unfolded None] h(3), of "ann @ more" more]
    show ?thesis
      unfolding e None ann_def PATH_CODE_def by (auto simp: file_count_def)
  next
    case (Some c)
    have "pending (rv_stream (dr_base r)) = 1 # ann @ be_encode 8 (length c) @ c @ more"
      using Cons.prems(4) e Some by (simp add: entry_wire_def[of dumps "(rel, Some c)"] FILE_CODE_def more_def ann_def)
    from should_proceed_calm[OF calm this]
      dir_recv_file_calm[OF assms(1) pre h(1)[unfolded Some] h(3) h(4)[OF Some], of "ann @ be_encode 8 (length c) @ c @ more" more]
    show ?thesis
      unfolding e Some ann_def FILE_CODE_def by (auto simp: file_count_def)
  qed
  then obtain code b r1 where r1: "should_proceed (dr_base r) = (Inr [code], b)"
      "dir_recv_entry True loads d [code] (r\<lparr>dr_base := b\<rparr>) = (Inr (), r1)" "planted f dirs d (es @ [e]) r1"
      "pending (rv_stream (dr_base r1)) = more" "dr_out r1 = dr_out r @ replicate (file_count [e]) 1"
      "rv_state (dr_base r1) = rv_state (dr_base r)"
    by blast
  have "replicate (file_count [e]) (1 :: byte) @ replicate (file_count tree) 1 = replicate (file_count (e # tree)) 1"
    by (simp add: file_count_def replicate_add[symmetric])
  then show ?case
    using Cons.IH[OF r1(3) h(2)] Cons.prems(3) r1 by (subst dir_recv_loop.simps) (auto simp: more_def)
qed

section \<open>Properties of directory transfers\<close>



text \<open>
  Directory transfer does not work on the other platforms: the parent of an entry stays a
  \<open>Path\<close> object, which the serialiser refuses, so the transfer of every directory that is not empty
  ends with its exception before a single byte has been sent.
\<close>

theorem directory_send_fails_on_posix:
  assumes "\<And>v. dumps (PTuple [PObj 0, v]) = Inl PackException"
    and "items \<noteq> []" "\<forall>p \<in> set items. \<exists>rel. p = below root_path rel"
    and "\<forall>p \<in> set items. entry_exists f dirs p"
  shows "dir_send_files False is_linux dumps f dirs items (DirSender root_path acks) =
    (Inl PackException, DirSender root_path acks)"
proof -
  let ?s = "DirSender root_path acks"
  obtain p ps where items: "items = p # ps" using assms(2) by (cases items) auto
  obtain rel where p: "p = below root_path rel" using assms(3) items by auto
  have send: "send_code_parts False is_linux dumps code p ?s = (Inl PackException, ?s)" for code
    by (simp add: send_code_parts_def p below_def DirSender_def code_parts_def assms(1))
  have "is_dir dirs p \<or> fs_exists f p"
    using assms(4) items by (auto simp: entry_exists_def)
  then show ?thesis
    using send by (auto simp: dir_send_files_def items send_dir_file_def dir_send_file_item_def) (simp_all add: DirSender_def)
qed

theorem directory_send_fails_on_posix_witness:
  "dir_send_files False True (\<lambda>v. Inl PackException) [] [(True, [''s'']), (True, [''s'', ''a''])]
     [(True, [''s'', ''a''])] (DirSender (True, [''s'']) \<lparr>pending = [], sched = []\<rparr>) =
   (Inl PackException, DirSender (True, [''s'']) \<lparr>pending = [], sched = []\<rparr>)"
  by (rule directory_send_fails_on_posix) (auto simp: below_def entry_exists_def is_dir_def)

text \<open>
  The free name is looked for at the top of the download directory and not where the file goes: a
  nested file named like an entry at the top is stored under another name, although its own is
  free. A package whose directories hold files of one name arrives with all but one of them renamed.
\<close>

lemma nested_file_renamed:
  assumes "plain_name n" "n \<in> set (dir_entries (with_dirs f dirs) d)" "fi_path it = below d (ps @ [n])"
  shows "\<exists>m. m \<noteq> n \<and> validatename (with_dirs f dirs) it d = Inr (m, it\<lparr>fi_name := m, fi_path := below d (ps @ [m])\<rparr>)"
proof -
  let ?m = "validated_name (dir_entries (with_dirs f dirs) d) n"
  have "?m \<noteq> n" using validated_name_free[of "dir_entries (with_dirs f dirs) d" n] assms(2) by metis
  moreover have "path_name (fi_path it) = n" using assms(3) by (simp add: path_name_def below_def)
  ultimately show ?thesis
    using validatename_ok[of it ?m "with_dirs f dirs" d] assms(1,3) by (simp add: below_def butlast_append)
qed

text \<open>A disk on which everything that exists lies in directories.\<close>

definition fs_closed :: "fs \<Rightarrow> path list \<Rightarrow> bool" where
  "fs_closed f dirs \<longleftrightarrow> (\<forall>p. entry_exists f dirs p \<longrightarrow>
     (\<forall>k < length (snd p). is_dir dirs (fst p, take k (snd p)) \<and> \<not> fs_exists f (fst p, take k (snd p)))) \<and>
     (\<forall>p. is_dir dirs p \<longrightarrow> \<not> fs_exists f p)"

lemma plain_dir_name: "plain_name n \<Longrightarrow> plain_name (dir_name n k)"
  using str_of_nat_no_slash[of k] by (auto simp: plain_name_def dir_name_def)

lemma mkdir_fresh:
  assumes "fs_closed f dirs" "is_dir dirs root_path" "plain_name n" "\<not> entry_exists f dirs (path_join root_path n)"
  shows "fs_mkdir True f (path_join root_path n) dirs = Inr (dirs @ [path_join root_path n]) \<and>
    fresh_dir f (dirs @ [path_join root_path n]) (path_join root_path n)"
proof -
  let ?p = "path_join root_path n"
  have p: "?p = (fst root_path, snd root_path @ [n])" using assms(3) by (rule path_join_plain)
  have up: "is_dir dirs (fst root_path, take k (snd root_path)) \<and> \<not> fs_exists f (fst root_path, take k (snd root_path))"
    if "k \<le> length (snd root_path)" for k
  proof (cases "k = length (snd root_path)")
    case True
    have "\<not> fs_exists f root_path" using assms(1,2) unfolding fs_closed_def by blast
    then show ?thesis using assms(2) True by simp
  next
    case False
    have "entry_exists f dirs root_path" using assms(2) by (simp add: entry_exists_def)
    then have "\<forall>k < length (snd root_path). is_dir dirs (fst root_path, take k (snd root_path)) \<and>
        \<not> fs_exists f (fst root_path, take k (snd root_path))"
      using assms(1) unfolding fs_closed_def by blast
    then show ?thesis using False that by simp
  qed
  have anc: "is_dir dirs a \<and> \<not> fs_exists f a" if "a \<in> set (ancestors ?p)" for a
  proof -
    from that obtain k where "k < length (snd ?p)" "a = (fst ?p, take k (snd ?p))"
      unfolding ancestors_def by auto
    then show ?thesis using up[of k] p by simp
  qed
  have "\<not> is_dir dirs ?p" "\<not> fs_exists f ?p" using assms(4) by (simp_all add: entry_exists_def)
  then have mk: "fs_mkdir True f ?p dirs = Inr (dirs @ [?p])"
    using anc by (simp add: fs_mkdir_def list_ex_iff filter_empty_conv)
  have "\<not> entry_exists f (dirs @ [?p]) (below ?p rel)" if "rel \<noteq> []" for rel
  proof
    assume "entry_exists f (dirs @ [?p]) (below ?p rel)"
    then have "entry_exists f dirs (below ?p rel)"
      using that by (auto simp: entry_exists_def is_dir_def below_def p)
    moreover have "length (snd ?p) < length (snd (below ?p rel))" using that by (simp add: below_def)
    ultimately have "is_dir dirs (fst ?p, take (length (snd ?p)) (snd (below ?p rel)))"
      using assms(1) unfolding fs_closed_def by (metis below_def fst_conv)
    then show False using assms(4) by (simp add: below_def entry_exists_def)
  qed
  moreover have "is_dir (dirs @ [?p]) (fst ?p, take k (snd ?p)) \<and> \<not> fs_exists f (fst ?p, take k (snd ?p))"
    if "k \<le> length (snd ?p)" for k
  proof (cases "k \<le> length (snd root_path)")
    case True
    then show ?thesis using up[of k] by (auto simp: p is_dir_def)
  next
    case False
    then have "k = length (snd ?p)" using that by (simp add: p)
    then show ?thesis using assms(4) by (simp add: is_dir_def entry_exists_def)
  qed
  ultimately show ?thesis using mk by (simp add: fresh_dir_def)
qed

text \<open>
  C29. A received directory never mixes with one that is there: for a plain name
  \<open>rename_directory_with_increment\<close> ends and creates exactly one directory, below the download
  directory, under that name or the first free numbered one; the new directory is empty, as the
  directory receiver needs it, and nothing else changes.
\<close>

theorem rename_directory_fresh:
  assumes "fs_closed f dirs" "is_dir dirs root_path" "plain_name n"
  shows "\<exists>m. (m = n \<or> (\<exists>k \<ge> 1. m = dir_name n k \<and> entry_exists f dirs (path_join root_path n) \<and>
        (\<forall>j. 1 \<le> j \<and> j < k \<longrightarrow> entry_exists f dirs (path_join root_path (dir_name n j))))) \<and>
    \<not> entry_exists f dirs (path_join root_path m) \<and>
    rename_directory_with_increment f dirs root_path n =
      Inr (Some (path_join root_path m), dirs @ [path_join root_path m]) \<and>
    fresh_dir f (dirs @ [path_join root_path m]) (path_join root_path m)"
proof -
  have name: "path_parent (path_join root_path n) = root_path" "path_name (path_join root_path n) = n"
    using assms(3) by (simp_all add: path_join_plain path_parent_def path_name_def)
  have ex: "a \<in> set (dir_entries (with_dirs f dirs) root_path) \<longleftrightarrow> entry_exists f dirs (path_join root_path a)"
    if "plain_name a" for a
    using dir_entries_exists[OF that] that
    by (simp add: fs_exists_with_dirs entry_exists_def is_dir_def path_join_plain)
  show ?thesis
  proof (cases "entry_exists f dirs (path_join root_path n)")
    case False
    then show ?thesis
      using mkdir_fresh[OF assms False] assms(2) name
      by (intro exI[of _ n]) (simp add: rename_directory_with_increment_def Let_def)
  next
    case True
    define k where "k = free_dir_counter (dir_entries (with_dirs f dirs) root_path) n 1"
    have k: "dir_name n k \<notin> set (dir_entries (with_dirs f dirs) root_path)" "1 \<le> k"
        "\<forall>j. 1 \<le> j \<and> j < k \<longrightarrow> dir_name n j \<in> set (dir_entries (with_dirs f dirs) root_path)"
      using dir_names.search_least[of n "dir_entries (with_dirs f dirs) root_path" 1] by (auto simp: k_def)
    note plain = plain_dir_name[OF assms(3)]
    have free: "\<not> entry_exists f dirs (path_join root_path (dir_name n k))"
      using k(1) ex[OF plain] by simp
    have "rename_directory_with_increment f dirs root_path n =
        Inr (Some (path_join root_path (dir_name n k)), dirs @ [path_join root_path (dir_name n k)])"
      using mkdir_fresh[OF assms(1,2) plain free] assms(2) name True
      by (simp add: rename_directory_with_increment_def Let_def k_def)
    then show ?thesis
      using mkdir_fresh[OF assms(1,2) plain free] free True k(2,3) ex[OF plain]
      by (intro exI[of _ "dir_name n k"]) blast
  qed
qed

theorem rename_directory_fresh_witness:
  "\<exists>m. rename_directory_with_increment [] [(True, [''d'']), (True, [''d'', ''a''])] (True, [''d'']) ''a'' =
     Inr (Some (path_join (True, [''d'']) m),
       [(True, [''d'']), (True, [''d'', ''a''])] @ [path_join (True, [''d'']) m]) \<and>
     \<not> entry_exists [] [(True, [''d'']), (True, [''d'', ''a''])] (path_join (True, [''d'']) m)"
proof -
  have "fs_closed [] [(True, [''d'']), (True, [''d'', ''a''])]"
    by (auto simp: fs_closed_def entry_exists_def fs_exists_def is_dir_def less_Suc_eq)
  from rename_directory_fresh[OF this, of "(True, [''d''])" "''a''"] show ?thesis
    by (auto simp: is_dir_def plain_name_def)
qed

end
