(* ===== verification/Transfer_Managers.thy ===== *)
theory Transfer_Managers
  imports Directory Containers
begin

text \<open>
  \<open>src/managers/filemanager.py\<close> and \<open>src/managers/directorymanager.py\<close>: the life of a transfer from the
  request of the user or the arrival of a connection to its place in the book of transfers.

  What the network does is an argument: the outcome of connecting, the answer of the other end, the
  outcome of a send. The messages to the page have no influence on the transfer and are left out.
\<close>

section \<open>State\<close>

text \<open>
  The book, the counter of ids, the number of handles created so far (which serves as the identity
  of the next one) and the senders by identity. Peers are keys of the book as values, because a
  receiver is entered under whatever id its handshake carries.
\<close>

record manager =
  mg_book :: "pyval book"
  mg_ids :: nat
  mg_next :: nat
  mg_senders :: "(nat, sender) pydict"

definition manager_init :: manager where
  "manager_init = \<lparr>mg_book = TransfersBookKeeper, mg_ids = 0, mg_next = 0, mg_senders = []\<rparr>"

definition sender_of :: "handle \<Rightarrow> manager \<Rightarrow> sender" where
  "sender_of h m = the (dget (mg_senders m) (hd_ref h))"

definition put_sender :: "handle \<Rightarrow> sender \<Rightarrow> manager \<Rightarrow> manager" where
  "put_sender h s m = m\<lparr>mg_senders := dset (hd_ref h) s (mg_senders m)\<rparr>"

section \<open>Sending files\<close>

record send_env =
  se_connect :: "unit res"
  se_accepted :: "bytes res"
  se_dumps :: "pyval \<Rightarrow> bytes res"
  se_fs :: fs

definition send_setup :: "fs \<Rightarrow> pyval \<Rightarrow> path list \<Rightarrow> manager \<Rightarrow> handle \<times> manager" where
  "send_setup f pid selected_files m =
     (case get_new_id (mg_ids m) of
        (i, ids) \<Rightarrow>
          (let h = \<lparr>hd_ref = mg_next m, hd_id = PStr i\<rparr>
           in (h, m\<lparr>mg_ids := ids, mg_next := Suc (mg_next m),
                    mg_senders := dset (hd_ref h) (Sender_init f selected_files) (mg_senders m),
                    mg_book := add_to_current pid h (mg_book m)\<rparr>)))"

text \<open>\<open>prepare_connection\<close>, entering it and leaving it by an exception.\<close>

definition revert_state :: "py_exn \<Rightarrow> sender \<Rightarrow> sender" where
  "revert_state e s = (if is_OSError e \<and> sd_state s \<noteq> PAUSED then s\<lparr>sd_state := PREPARING\<rparr> else s)"

definition prepare_connection :: "unit res \<Rightarrow> sender \<Rightarrow> unit res \<times> sender" where
  "prepare_connection conn s =
     (let s1 = s\<lparr>sd_state := CONNECTING\<rparr>
      in case conn of
           Inl e \<Rightarrow> (Inl e, revert_state e s1)
         | Inr _ \<Rightarrow> (Inr (), s1))"

text \<open>\<open>_handle_sending\<close> up to its \<open>yield\<close>; an empty answer, the end of the stream, counts as accepted.\<close>

definition handle_sending :: "unit res \<Rightarrow> bytes res \<Rightarrow> sender \<Rightarrow> unit res \<times> sender" where
  "handle_sending conn accepted s =
     (case prepare_connection conn s of
        (Inl e, s1) \<Rightarrow> (Inl (if is_OSError e then TransferIncomplete else e), s1)
      | (Inr _, s1) \<Rightarrow>
          (case accepted of
             Inl e \<Rightarrow> (Inl (if is_OSError e then TransferIncomplete else e), s1)
           | Inr a \<Rightarrow> (if a = [0] then (Inl TransferRejected, s1) else (Inr (), s1))))"

definition send_finalize :: "pyval \<Rightarrow> handle \<Rightarrow> transfer_state \<Rightarrow> pyval book \<Rightarrow> pyval book" where
  "send_finalize pid h st b =
     (if st = COMPLETED \<or> st = ABORTING then add_to_completed pid h b
      else if st = PAUSED \<or> st = CONNECTING then add_to_continued pid h b
      else b)"

text \<open>
  \<open>send_files_to_peer\<close>, entered, run and left. When a transfer is running, the generator returns
  before it yields, which the context manager reports with \<open>RuntimeError\<close>.
\<close>

definition send_files_to_peer :: "send_env \<Rightarrow> pyval \<Rightarrow> path list \<Rightarrow> manager \<Rightarrow> unit res \<times> manager" where
  "send_files_to_peer env pid selected_files m =
     (case check_running pid (mg_book m) of
        (Some h, b) \<Rightarrow>
          (case attach_files (se_fs env) selected_files (sender_of h m) of
             (Inl e, s) \<Rightarrow> (Inl e, put_sender h s (m\<lparr>mg_book := b\<rparr>))
           | (Inr _, s) \<Rightarrow> (Inl RuntimeError, put_sender h s (m\<lparr>mg_book := b\<rparr>)))
      | (None, b) \<Rightarrow>
          (case send_setup (se_fs env) pid selected_files (m\<lparr>mg_book := b\<rparr>) of
             (h, m1) \<Rightarrow>
               (case (case handle_sending (se_connect env) (se_accepted env) (sender_of h m1) of
                        (Inl e, s1) \<Rightarrow> (Inl e, s1)
                      | (Inr _, s1) \<Rightarrow>
                          (case send_files (se_dumps env) (se_fs env) s1 of
                             (Inl e, s2) \<Rightarrow> (Inl e, revert_state e s2)
                           | (Inr _, s2) \<Rightarrow> (Inr (), s2))) of
                  (out, s3) \<Rightarrow>
                    (out, (put_sender h s3 m1)\<lparr>mg_book := send_finalize pid h (sd_state s3) (mg_book m1)\<rparr>))))"

section \<open>Receiving files\<close>

definition receive_finalize :: "pyval \<Rightarrow> handle \<Rightarrow> transfer_state \<Rightarrow> pyval book \<Rightarrow> pyval book" where
  "receive_finalize key h st b =
     (let b1 = (if st = COMPLETED then add_to_completed key h b else b)
      in if st = PAUSED then add_to_continued key h b1 else b1)"

text \<open>
  \<open>file_receiver\<close> around \<open>recv_files\<close>: \<open>looked_up\<close> is the outcome of the search for the peer, \<open>snder\<close> and
  \<open>recver\<close> are the classes of the two ends of the connection.
\<close>

definition file_receiver ::
    "(bytes \<Rightarrow> pyval res) \<Rightarrow> path \<Rightarrow> conn_class \<Rightarrow> conn_class \<Rightarrow> unit res \<Rightarrow> wire_data \<Rightarrow>
     receiver \<Rightarrow> manager \<Rightarrow> unit res \<times> receiver \<times> manager" where
  "file_receiver loads d snder recver looked_up file_req r m =
     (case looked_up of
        Inl e \<Rightarrow> (Inl e, r, m)
      | Inr _ \<Rightarrow>
          (case WireData_getitem file_req ''file_id'' of
             Inl e \<Rightarrow> (Inl e, r, m)
           | Inr file_id \<Rightarrow>
               (let h = \<lparr>hd_ref = mg_next m, hd_id = file_id\<rparr>; m1 = m\<lparr>mg_next := Suc (mg_next m)\<rparr>
                in case Receiver_connection_made snder recver of
                     Inl e \<Rightarrow> (Inl e, r, m1)
                   | Inr _ \<Rightarrow>
                       (case recv_files loads d r of
                          (out, r1) \<Rightarrow> (out, r1, m1\<lparr>mg_book := receive_finalize (w_id file_req) h (rv_state r1)
                             (add_to_current (w_id file_req) h (mg_book m1))\<rparr>)))))"

text \<open>The handler; \<open>sent\<close> is the outcome of sending the byte that accepts the transfer.\<close>

definition FileConnectionHandler ::
    "(bytes \<Rightarrow> pyval res) \<Rightarrow> path \<Rightarrow> conn_class \<Rightarrow> conn_class \<Rightarrow> unit res \<Rightarrow> unit res \<Rightarrow> wire_data \<Rightarrow>
     receiver \<Rightarrow> manager \<Rightarrow> unit res \<times> receiver \<times> manager" where
  "FileConnectionHandler loads d snder recver sent looked_up file_req r m =
     (case WireData_getitem file_req ''file_id'' of
        Inl e \<Rightarrow> (Inl e, r, m)
      | Inr _ \<Rightarrow>
          (case sent of
             Inl e \<Rightarrow> (Inl e, r, m)
           | Inr _ \<Rightarrow>
               (case file_receiver loads d snder recver looked_up file_req r m of
                  (Inl e, r1, m1) \<Rightarrow> (if e = TransferIncomplete then Inr () else Inl e, r1, m1)
                | (Inr _, r1, m1) \<Rightarrow> (Inr (), r1, m1))))"

section \<open>One-to-many requests\<close>

text \<open>
  \<open>new_otm_request_arrived\<close>: the session is built from the request, keyword by keyword, and entered
  in the book under its id.
\<close>

definition otm_request_keys :: "string list" where
  "otm_request_keys = [''session_id'', ''key'', ''fanout'', ''link_wait_timeout'', ''adjacent_peers'', ''file_count'', ''chunk_size'']"

definition new_otm_request_arrived ::
    "(pyval \<Rightarrow> bytes res) \<Rightarrow> string \<Rightarrow> pyval list \<Rightarrow> pyval list \<Rightarrow> wire_data \<Rightarrow> manager \<Rightarrow> bytes res \<times> manager" where
  "new_otm_request_arrived dumps this_peer_id passive_endpoint_address this_uri req_data m =
     (case filter (\<lambda>k. \<not> dmem k (w_body req_data)) otm_request_keys of
        k # _ \<Rightarrow> (Inl KeyError, m)
      | [] \<Rightarrow>
          (let session_id = the (dget (w_body req_data) ''session_id'');
               h = \<lparr>hd_ref = mg_next m, hd_id = session_id\<rparr>;
               m1 = m\<lparr>mg_next := Suc (mg_next m), mg_book := add_to_scheduled session_id h (mg_book m)\<rparr>
           in (InformResponse_bytes dumps
                 \<lparr>ir_peer_id = PStr this_peer_id, ir_passive_addr = passive_endpoint_address,
                  ir_active_addr = this_uri, ir_session_key = the (dget (w_body req_data) ''key'')\<rparr>, m1)))"

text \<open>
  \<open>OTMConnectionHandler\<close> calls \<open>otm_add_stream_link\<close> on what it finds in the book, a \<open>FilesReceiver\<close> or
  a \<open>FilesSender\<close>; neither class has that method.
\<close>

definition OTMConnectionHandler :: "wire_data \<Rightarrow> manager \<Rightarrow> unit res" where
  "OTMConnectionHandler link_data m =
     (case WireData_getitem link_data ''session_id'' of
        Inl e \<Rightarrow> Inl e
      | Inr session_id \<Rightarrow>
          (case get_scheduled session_id (mg_book m) of
             None \<Rightarrow> Inr ()
           | Some h \<Rightarrow> Inl AttributeError))"

section \<open>Directories\<close>

definition get_confirmation :: "bytes res \<Rightarrow> unit res" where
  "get_confirmation answer = (case answer of
     Inl e \<Rightarrow> Inl e
   | Inr confirmation \<Rightarrow> if confirmation = [0] then Inl TransferRejected else Inr ())"

text \<open>\<open>send_directory\<close>; \<open>conn\<close> covers connecting and sending the request.\<close>

definition send_directory ::
    "bool \<Rightarrow> bool \<Rightarrow> (pyval \<Rightarrow> bytes res) \<Rightarrow> fs \<Rightarrow> path list \<Rightarrow> path list \<Rightarrow> unit res \<Rightarrow> bytes res \<Rightarrow> stream \<Rightarrow>
     path \<Rightarrow> manager \<Rightarrow> (unit res \<times> dir_sender option) \<times> manager" where
  "send_directory is_windows is_linux dumps f dirs dir_iterator conn answer acks dir_path m =
     (case get_new_id (mg_ids m) of
        (i, ids) \<Rightarrow>
          (case res_bind conn (\<lambda>_. get_confirmation answer) of
             Inl e \<Rightarrow> ((Inl e, None), m\<lparr>mg_ids := ids\<rparr>)
           | Inr _ \<Rightarrow>
               (case dir_send_files is_windows is_linux dumps f dirs dir_iterator (DirSender dir_path acks) of
                  (out, s) \<Rightarrow> ((out, Some s), m\<lparr>mg_ids := ids\<rparr>))))"

text \<open>\<open>pause_transfer\<close>: a list of handles has no \<open>pause\<close>.\<close>

definition pause_transfer :: "pyval \<Rightarrow> pyval \<Rightarrow> manager \<Rightarrow> unit res \<times> manager" where
  "pause_transfer pid transfer_id m =
     (case get_transfer pid transfer_id (mg_book m) of
        (Nothing, b) \<Rightarrow> (Inl ValueError, m\<lparr>mg_book := b\<rparr>)
      | (Many hs, b) \<Rightarrow> (Inl (if hs = [] then ValueError else AttributeError), m\<lparr>mg_book := b\<rparr>)
      | (One h, b) \<Rightarrow>
          (let m1 = m\<lparr>mg_book := add_to_continued pid h b\<rparr>
           in (Inr (), if dmem (hd_ref h) (mg_senders m) then put_sender h (Sender_pause (sender_of h m)) m1 else m1)))"

text \<open>
  \<open>DirConnectionHandler\<close>: \<open>found\<close> is the id of the peer the handshake names, if it is known. Everything
  from the acceptance on is inside of the \<open>try\<close>, whose handler swallows the exception.
\<close>

definition DirConnectionHandler ::
    "bool \<Rightarrow> (bytes \<Rightarrow> pyval res) \<Rightarrow> path \<Rightarrow> conn_class \<Rightarrow> conn_class \<Rightarrow> unit res \<Rightarrow> string option \<Rightarrow> wire_data \<Rightarrow>
     dir_receiver \<Rightarrow> manager \<Rightarrow> unit res \<times> dir_receiver \<times> manager" where
  "DirConnectionHandler is_windows loads PATH_DOWNLOAD snder recver sent found handshake r m =
     (case (WireData_getitem handshake ''transfer_id'', found, WireData_getitem handshake ''dir_name'') of
        (Inl e, _, _) \<Rightarrow> (Inl e, r, m)
      | (Inr t, None, _) \<Rightarrow> (Inl AttributeError, r, m)
      | (Inr (PStr t), Some pid, Inl e) \<Rightarrow> (Inl e, r, m)
      | (Inr (PStr t), Some pid, Inr (PStr dn)) \<Rightarrow>
          (case rename_directory_with_increment (rv_fs (dr_base r)) (dr_dirs r) PATH_DOWNLOAD dn of
             Inl e \<Rightarrow> (Inl e, r, m)
           | Inr (dir_path, dirs) \<Rightarrow>
               (let h = \<lparr>hd_ref = mg_next m, hd_id = PStr (pid @ '' '' @ pid @ t)\<rparr>; key = PStr (pid @ t);
                    r1 = r\<lparr>dr_dirs := dirs\<rparr>; m1 = m\<lparr>mg_next := Suc (mg_next m)\<rparr>
                in case Receiver_connection_made snder recver of
                     Inl e \<Rightarrow> (Inl e, r1, m1)
                   | Inr _ \<Rightarrow>
                       (case sent of
                          Inl e \<Rightarrow> (Inr (), r1, m1)
                        | Inr _ \<Rightarrow>
                            (let m2 = m1\<lparr>mg_book := add_to_current key h (mg_book m1)\<rparr>
                             in case dir_path of
                                  None \<Rightarrow> (Inr (), r1, m2)
                                | Some d \<Rightarrow>
                                    (case dir_recv_files is_windows loads d r1 of
                                       (Inl e, r2) \<Rightarrow> (Inr (), r2, m2)
                                     | (Inr _, r2) \<Rightarrow> (Inr (), r2, m2\<lparr>mg_book := add_to_completed key h (mg_book m2)\<rparr>))))))
      | _ \<Rightarrow> (Inl TypeError, r, m))"

section \<open>Properties of the transfer managers\<close>

lemma book_wf_finalize [inv_intros]:
  "book_wf b \<Longrightarrow> book_wf (send_finalize pid h st b)" "book_wf b \<Longrightarrow> book_wf (receive_finalize pid h st b)"
  by (auto simp: send_finalize_def receive_finalize_def Let_def intro: inv_intros)

lemma book_wf_check [simp]: "check_running pid b = (x, b') \<Longrightarrow> book_wf b \<Longrightarrow> book_wf b'"
  using book_wf_check_running[of b pid] by simp

definition idle :: "pyval \<Rightarrow> manager \<Rightarrow> bool" where
  "idle pid m \<longleftrightarrow> dd_get pid (bk_current (mg_book m)) = []"

lemma check_running_idle:
  "idle pid m \<Longrightarrow> check_running pid (mg_book m) =
     (None, (mg_book m)\<lparr>bk_current := dd_touch pid (bk_current (mg_book m))\<rparr>)"
  by (simp add: check_running_def idle_def)

lemma handle_sending_state:
  "handle_sending conn accepted s = (out, s') \<Longrightarrow>
   (sd_state s' = CONNECTING \<or> sd_state s' = PREPARING \<and> (\<exists>e. conn = Inl e \<and> is_OSError e \<and> out = Inl TransferIncomplete))"
  by (auto simp: handle_sending_def prepare_connection_def revert_state_def Let_def split: sum.splits if_splits)

lemma send_files_to_peer_idle:
  assumes "idle pid m"
  shows "\<exists>h s out m1. h = \<lparr>hd_ref = mg_next m, hd_id = PStr (str_of_nat (mg_ids m))\<rparr> \<and>
    m1 = snd (send_setup (se_fs env) pid selected_files (m\<lparr>mg_book := (mg_book m)\<lparr>bk_current := dd_touch pid (bk_current (mg_book m))\<rparr>\<rparr>)) \<and>
    (case handle_sending (se_connect env) (se_accepted env) (Sender_init (se_fs env) selected_files) of
       (Inl e, s1) \<Rightarrow> (Inl e, s1)
     | (Inr _, s1) \<Rightarrow>
         (case send_files (se_dumps env) (se_fs env) s1 of
            (Inl e, s2) \<Rightarrow> (Inl e, revert_state e s2) | (Inr _, s2) \<Rightarrow> (Inr (), s2))) = (out, s) \<and>
    send_files_to_peer env pid selected_files m =
      (out, (put_sender h s m1)\<lparr>mg_book := send_finalize pid h (sd_state s) (mg_book m1)\<rparr>)"
proof -
  let ?h = "\<lparr>hd_ref = mg_next m, hd_id = PStr (str_of_nat (mg_ids m))\<rparr>"
  let ?b = "(mg_book m)\<lparr>bk_current := dd_touch pid (bk_current (mg_book m))\<rparr>"
  obtain h m1 where su: "send_setup (se_fs env) pid selected_files (m\<lparr>mg_book := ?b\<rparr>) = (h, m1)" by fastforce
  then have h: "h = ?h" "sender_of h m1 = Sender_init (se_fs env) selected_files"
    by (auto simp: send_setup_def get_new_id_def Let_def sender_of_def)
  obtain out s where run: "(case handle_sending (se_connect env) (se_accepted env) (sender_of h m1) of
       (Inl e, s1) \<Rightarrow> (Inl e, s1)
     | (Inr _, s1) \<Rightarrow>
         (case send_files (se_dumps env) (se_fs env) s1 of
            (Inl e, s2) \<Rightarrow> (Inl e, revert_state e s2) | (Inr _, s2) \<Rightarrow> (Inr (), s2))) = (out, s)" by fastforce
  have "send_files_to_peer env pid selected_files m =
      (out, (put_sender h s m1)\<lparr>mg_book := send_finalize pid h (sd_state s) (mg_book m1)\<rparr>)"
    by (simp only: send_files_to_peer_def check_running_idle[OF assms] prod.case option.case su run)
  then show ?thesis using su h run by auto
qed

text \<open>A handle whose identity has not been given out is nowhere in the book.\<close>

definition fresh_refs :: "manager \<Rightarrow> bool" where
  "fresh_refs m \<longleftrightarrow> (\<forall>p h. h \<in> set (dd_get p (bk_current (mg_book m))) \<union> set (dd_get p (bk_continued (mg_book m))) \<union>
     set (dd_get p (bk_completed (mg_book m))) \<longrightarrow> hd_ref h < mg_next m)"

definition manager_wf :: "manager \<Rightarrow> bool" where
  "manager_wf m \<longleftrightarrow> book_wf (mg_book m) \<and> fresh_refs m"

text \<open>The place of a handle among the transfers of a peer.\<close>

definition booked :: "pyval \<Rightarrow> handle \<Rightarrow> manager \<Rightarrow> bool \<times> bool \<times> bool" where
  "booked pid h m = (h \<in> set (dd_get pid (bk_current (mg_book m))),
     h \<in> set (dd_get pid (bk_continued (mg_book m))), h \<in> set (dd_get pid (bk_completed (mg_book m))))"

lemma revert_state_states: "sd_state (revert_state e s) \<in> {sd_state s, PREPARING}"
  by (simp add: revert_state_def)


lemma manager_init_free [simp]: "idle pid manager_init" "fresh_refs manager_init"
  by (simp_all add: idle_def fresh_refs_def manager_init_def TransfersBookKeeper_def dd_get_def)

definition refusing_peer :: send_env where
  "refusing_peer = \<lparr>se_connect = Inr (), se_accepted = Inr [0], se_dumps = (\<lambda>v. Inr []), se_fs = []\<rparr>"

definition absent_peer :: send_env where
  "absent_peer = \<lparr>se_connect = Inl ConnectionRefusedError, se_accepted = Inr [1], se_dumps = (\<lambda>v. Inr []), se_fs = []\<rparr>"


text \<open>Further requests to send files to the same peer.\<close>

fun send_again :: "(send_env \<times> path list) list \<Rightarrow> pyval \<Rightarrow> manager \<Rightarrow> unit res list \<times> manager" where
  "send_again [] pid m = ([], m)"
| "send_again ((env, fs) # rest) pid m =
     (case send_files_to_peer env pid fs m of
        (out, m1) \<Rightarrow> (case send_again rest pid m1 of (outs, m2) \<Rightarrow> (out # outs, m2)))"

definition stuck :: "pyval \<Rightarrow> manager \<Rightarrow> bool" where
  "stuck pid m \<longleftrightarrow> (\<exists>h hs. dd_get pid (bk_current (mg_book m)) = h # hs \<and> sd_state (sender_of h m) = PREPARING)"

lemma stuck_again: "stuck pid m \<Longrightarrow> fst (send_files_to_peer env pid files m) = Inl InvalidStateError \<and>
  stuck pid (snd (send_files_to_peer env pid files m))"
  by (auto simp: stuck_def send_files_to_peer_def check_running_def attach_files_def put_sender_def sender_of_def)

lemma stuck_for_ever: "stuck pid m \<Longrightarrow> set (fst (send_again reqs pid m)) \<subseteq> {Inl InvalidStateError}"
proof (induction reqs arbitrary: m)
  case (Cons r reqs)
  obtain env fs where r: "r = (env, fs)" by (cases r)
  obtain out m1 where o: "send_files_to_peer env pid fs m = (out, m1)" by fastforce
  have "out = Inl InvalidStateError" "stuck pid m1"
    using stuck_again[OF Cons.prems, of env fs] o by auto
  then show ?case
    using Cons.IH[of m1] r o by (auto split: prod.split)
qed simp

text \<open>
  C32. One failed connection blocks a peer: when it cannot be reached, the transfer ends with
  \<open>TransferIncomplete\<close>, its state goes back to \<open>PREPARING\<close> and it stays booked as running. Every later
  request to send files to that peer then finds it, tries to attach the files to it and fails with
  \<open>InvalidStateError\<close>, whatever files are chosen and whether or not the peer can be reached by then.
\<close>

theorem failed_connection_blocks_peer:
  assumes "idle pid m" "se_connect env = Inl e" "is_OSError e"
  shows "\<exists>m'. send_files_to_peer env pid selected_files m = (Inl TransferIncomplete, m') \<and>
    set (fst (send_again reqs pid m')) \<subseteq> {Inl InvalidStateError}"
proof -
  let ?b = "(mg_book m)\<lparr>bk_current := dd_touch pid (bk_current (mg_book m))\<rparr>"
  obtain h s out m1 where h: "h = \<lparr>hd_ref = mg_next m, hd_id = PStr (str_of_nat (mg_ids m))\<rparr>"
      and m1: "m1 = snd (send_setup (se_fs env) pid selected_files (m\<lparr>mg_book := ?b\<rparr>))"
      and run: "(case handle_sending (se_connect env) (se_accepted env) (Sender_init (se_fs env) selected_files) of
         (Inl e, s1) \<Rightarrow> (Inl e, s1)
       | (Inr _, s1) \<Rightarrow>
           (case send_files (se_dumps env) (se_fs env) s1 of
              (Inl e, s2) \<Rightarrow> (Inl e, revert_state e s2) | (Inr _, s2) \<Rightarrow> (Inr (), s2))) = (out, s)"
      and send: "send_files_to_peer env pid selected_files m =
         (out, (put_sender h s m1)\<lparr>mg_book := send_finalize pid h (sd_state s) (mg_book m1)\<rparr>)"
    using send_files_to_peer_idle[OF assms(1), of env selected_files] by blast
  have out: "out = Inl TransferIncomplete" "sd_state s = PREPARING"
    using run assms(2,3) by (auto simp: handle_sending_def prepare_connection_def revert_state_def)
  have "dd_get pid (bk_current (mg_book m1)) = [h]"
    using assms(1) by (simp add: m1 h send_setup_def get_new_id_def Let_def add_to_current_def idle_def)
  then have "stuck pid ((put_sender h s m1)\<lparr>mg_book := send_finalize pid h (sd_state s) (mg_book m1)\<rparr>)"
    using out(2) by (simp add: stuck_def send_finalize_def put_sender_def sender_of_def)
  from stuck_for_ever[OF this, of reqs] send out(1) show ?thesis by blast
qed

theorem failed_connection_blocks_peer_witness:
  "\<exists>m'. send_files_to_peer absent_peer (PStr ''p'') [] manager_init = (Inl TransferIncomplete, m') \<and>
     set (fst (send_again [(refusing_peer, []), (absent_peer, [])] (PStr ''p'') m')) \<subseteq> {Inl InvalidStateError}"
  by (rule failed_connection_blocks_peer[of _ _ _ ConnectionRefusedError]) (simp_all add: absent_peer_def is_OSError_def)

text \<open>
  As it is wired, nothing is ever received: both handlers hand the connection over with
  \<open>connection_made\<close>, whose assertion compares the reading end with the transfer receiver's own class.
  A peer's file request is accepted and then fails with \<open>AssertionError\<close> before a byte of the transfer
  is read, and nothing is booked; a directory request leaves a new empty directory behind.
\<close>

theorem incoming_transfers_fail:
  assumes "dget (w_body file_req) ''file_id'' = Some file_id"
    and "dget (w_body dir_req) ''transfer_id'' = Some (PStr t)" "dget (w_body dir_req) ''dir_name'' = Some (PStr n)"
    and "rename_directory_with_increment (rv_fs (dr_base dr)) (dr_dirs dr) d n = Inr (Some p, dirs)"
  shows "FileConnectionHandler loads d ConnectSender ConnectReceiver (Inr ()) (Inr ()) file_req r m =
      (Inl AssertionError, r, m\<lparr>mg_next := Suc (mg_next m)\<rparr>) \<and>
    DirConnectionHandler w loads d ConnectSender ConnectReceiver (Inr ()) (Some q) dir_req dr m =
      (Inl AssertionError, dr\<lparr>dr_dirs := dirs\<rparr>, m\<lparr>mg_next := Suc (mg_next m)\<rparr>)"
proof -
  have items: "WireData_getitem file_req ''file_id'' = Inr file_id" "WireData_getitem dir_req ''transfer_id'' = Inr (PStr t)"
      "WireData_getitem dir_req ''dir_name'' = Inr (PStr n)"
    using assms(1-3) by (simp_all add: WireData_getitem_def)
  show ?thesis
    by (simp add: FileConnectionHandler_def file_receiver_def DirConnectionHandler_def items assms(4)
        Receiver_connection_made_def)
qed

theorem incoming_transfers_fail_witness:
  "fst (FileConnectionHandler (\<lambda>b. Inr PNone) (True, []) ConnectSender ConnectReceiver (Inr ()) (Inr ())
     (WireData PNone PNone PNone PNone [(''file_id'', PStr ''0'')])
     \<lparr>rv_state = PREPARING, rv_to_stop = False, rv_items = [], rv_stream = \<lparr>pending = [0], sched = []\<rparr>, rv_fs = []\<rparr>
     manager_init) = Inl AssertionError"
proof -
  let ?dr = "\<lparr>dr_base = \<lparr>rv_state = PREPARING, rv_to_stop = False, rv_items = [],
      rv_stream = \<lparr>pending = [], sched = []\<rparr>, rv_fs = []\<rparr>, dr_dirs = [], dr_out = []\<rparr>"
  have rename: "rename_directory_with_increment (rv_fs (dr_base ?dr)) (dr_dirs ?dr) (True, []) ''n'' =
      Inr (Some (True, [''n'']), [(True, [''n''])])"
    by (simp add: rename_directory_with_increment_def is_dir_def entry_exists_def fs_exists_def fs_mkdir_def
        path_join_plain plain_name_def path_parent_def path_name_def ancestors_def Let_def)
  have b: "dget (w_body (WireData PNone PNone PNone PNone [(''file_id'', PStr ''0'')])) ''file_id'' = Some (PStr ''0'')"
    "dget (w_body (WireData PNone PNone PNone PNone [(''transfer_id'', PStr ''1''), (''dir_name'', PStr ''n'')])) ''transfer_id'' = Some (PStr ''1'')"
    "dget (w_body (WireData PNone PNone PNone PNone [(''transfer_id'', PStr ''1''), (''dir_name'', PStr ''n'')])) ''dir_name'' = Some (PStr ''n'')"
    by (simp_all add: WireData_def)
  from incoming_transfers_fail[OF b rename] show ?thesis by (metis fst_conv)
qed

end
