(* ===== verification/Hypercube.thy ===== *)
theory Hypercube
  imports Remote_Peer "HOL-Library.Log_Nat"
begin

text \<open>
  The topology of a one-to-many session, class \<open>PalmTreeProtocol\<close> of
  \<open>src/transfers/otm/palm_tree.py\<close>: the hypercube over the session's peers, the removal of peers
  that do not answer the invitation, and the address mappings every peer is sent.

  Peers are numbered in list order, the centre first; the adjacency list is a \<open>defaultdict(list)\<close>
  keyed by peer identifiers. The key type is a parameter of the graph operations; the protocol
  itself uses Python values, because it mixes two kinds of identifier.
\<close>

section \<open>create_hypercube\<close>

type_synonym 'k adjacency = "('k, 'k list) pydict"

definition neighbours :: "'k adjacency \<Rightarrow> 'k \<Rightarrow> 'k list" where
  "neighbours adj k = (case dget adj k of None \<Rightarrow> [] | Some xs \<Rightarrow> xs)"

definition adj_append :: "'k \<Rightarrow> 'k \<Rightarrow> 'k adjacency \<Rightarrow> 'k adjacency" where
  "adj_append k v adj = dset k (neighbours adj k @ [v]) adj"

text \<open>\<open>int.bit_length\<close>, and \<open>math.ceil(math.log2(n))\<close>, exact for the number of peers of a session.\<close>

fun bit_length :: "nat \<Rightarrow> nat" where
  "bit_length n = (if n = 0 then 0 else Suc (bit_length (n div 2)))"

declare bit_length.simps [simp del]

fun log2_up :: "nat \<Rightarrow> nat" where
  "log2_up n = (if n \<le> 1 then 0 else Suc (log2_up ((n + 1) div 2)))"

declare log2_up.simps [simp del]

definition dimensions :: "nat \<Rightarrow> nat" where
  "dimensions n = bit_length (2 ^ log2_up n) - 1"

definition cube_edge :: "'k list \<Rightarrow> nat \<Rightarrow> nat \<Rightarrow> 'k adjacency \<Rightarrow> 'k adjacency" where
  "cube_edge ps i j adj =
     (let neighbor = i XOR push_bit j 1
      in if neighbor < length ps then adj_append (ps ! i) (ps ! neighbor) adj else adj)"

definition create_hypercube :: "'k \<Rightarrow> 'k list \<Rightarrow> 'k adjacency" where
  "create_hypercube center peer_list =
     (let ps = center # peer_list
      in fold (\<lambda>i. fold (cube_edge ps i) [0..<dimensions (length ps)]) [0..<length ps] [])"

subsection \<open>The graph it builds\<close>

lemma bit_length_power [simp]: "bit_length (2 ^ k) = Suc k"
  by (induction k) (simp_all add: bit_length.simps)

lemma log2_up_ceil: "log2_up n = ceillog2 n"
proof (induction n rule: log2_up.induct)
  case (1 n)
  then show ?case
    using ceillog2_rec[of n] by (subst log2_up.simps) simp
qed

lemma dimensions_eq: "dimensions n = ceillog2 n"
  by (simp add: dimensions_def log2_up_ceil)

lemma dimensions_cover: "n \<le> 2 ^ dimensions n"
  by (simp add: dimensions_eq le_two_power_ceillog2)

lemma neighbours_append [simp]:
  "neighbours (adj_append k v adj) j = (if j = k then neighbours adj k @ [v] else neighbours adj j)"
  by (simp add: neighbours_def adj_append_def)

definition cube_neighbours :: "nat \<Rightarrow> nat \<Rightarrow> nat list" where
  "cube_neighbours n i = filter (\<lambda>m. m < n) (map (\<lambda>j. i XOR push_bit j 1) [0..<dimensions n])"

lemma fold_cube_edges:
  "neighbours (fold (cube_edge ps i) js adj) k =
     (if k = ps ! i
      then neighbours adj k @ map (\<lambda>m. ps ! m) (filter (\<lambda>m. m < length ps) (map (\<lambda>j. i XOR push_bit j 1) js))
      else neighbours adj k)"
  by (induction js arbitrary: adj) (auto simp: cube_edge_def Let_def)

lemma fold_cube_rows:
  assumes "distinct ps" "i < length ps" "n \<le> length ps"
  shows "neighbours (fold (\<lambda>i. fold (cube_edge ps i) [0..<dimensions (length ps)]) [0..<n] []) (ps ! i) =
    (if i < n then map (\<lambda>m. ps ! m) (cube_neighbours (length ps) i) else [])"
  using assms(3)
proof (induction n)
  case 0
  then show ?case by (simp add: neighbours_def)
next
  case (Suc n)
  then show ?case
    using assms(1,2) by (auto simp: fold_cube_edges cube_neighbours_def nth_eq_iff_index_eq)
qed

lemma create_hypercube_neighbours:
  assumes "distinct (c # ps)" "i < length (c # ps)"
  shows "neighbours (create_hypercube c ps) ((c # ps) ! i) =
    map (\<lambda>m. (c # ps) ! m) (cube_neighbours (length (c # ps)) i)"
  using fold_cube_rows[OF assms, of "length (c # ps)"] assms(2)
  unfolding create_hypercube_def Let_def by simp

lemma cube_edge_keys: "dmem k (cube_edge ps i j adj) \<Longrightarrow> dmem k adj \<or> k = ps ! i"
  by (auto simp: cube_edge_def adj_append_def Let_def split: if_splits)

lemma fold_keys:
  assumes "\<And>x s. dmem k (f x s) \<Longrightarrow> dmem k s \<or> k \<in> K x"
  shows "dmem k (fold f xs s) \<Longrightarrow> dmem k s \<or> (\<exists>x \<in> set xs. k \<in> K x)"
  by (induction xs arbitrary: s) (use assms in fastforce)+

lemma create_hypercube_keys:
  assumes "dmem k (create_hypercube c ps)"
  shows "k \<in> set (c # ps)"
proof -
  let ?ps = "c # ps"
  have "dmem k (fold (cube_edge ?ps i) js adj) \<Longrightarrow> dmem k adj \<or> k \<in> {?ps ! i}" for i js adj
    using fold_keys[of k "cube_edge ?ps i" "\<lambda>_. {?ps ! i}" js adj] cube_edge_keys[of k ?ps i] by auto
  then have "\<exists>i \<in> set [0..<length ?ps]. k \<in> {?ps ! i}"
    using fold_keys[of k "\<lambda>i. fold (cube_edge ?ps i) [0..<dimensions (length ?ps)]" "\<lambda>i. {?ps ! i}" "[0..<length ?ps]" "[]"]
      assms unfolding create_hypercube_def Let_def by auto
  then obtain i where "i < length ?ps" "k = ?ps ! i"
    by (metis atLeastLessThan_iff set_upt singletonD)
  then show ?thesis by (metis nth_mem)
qed

lemma bit_flip: "bit (i XOR push_bit j 1 :: nat) k \<longleftrightarrow> bit i k \<noteq> (k = j)"
  by (auto simp: bit_xor_iff bit_push_bit_iff bit_1_iff bit_exp_iff)

lemma flip_involution [simp]: "(i XOR push_bit j 1) XOR push_bit j (1 :: nat) = i"
  by (rule bit_eqI) (simp only: bit_flip, auto)

lemma flip_neq: "i XOR push_bit j 1 \<noteq> (i :: nat)"
  using bit_flip[of i j j] by metis

lemma flip_inj: "i XOR push_bit j 1 = i XOR push_bit k (1 :: nat) \<Longrightarrow> j = k"
  using bit_flip[of i j j] bit_flip[of i k j] by metis

lemma cube_neighbours_iff: "m \<in> set (cube_neighbours n i) \<longleftrightarrow> m < n \<and> (\<exists>j < dimensions n. m = i XOR push_bit j 1)"
  by (auto simp: cube_neighbours_def)

lemma cube_neighbours_sym:
  "i < n \<Longrightarrow> m \<in> set (cube_neighbours n i) \<Longrightarrow> i \<in> set (cube_neighbours n m)"
  unfolding cube_neighbours_iff by (metis flip_involution)

lemma cube_neighbours_distinct: "distinct (cube_neighbours n i) \<and> i \<notin> set (cube_neighbours n i) \<and> length (cube_neighbours n i) \<le> dimensions n"
proof -
  have "inj_on (\<lambda>j. i XOR push_bit j (1 :: nat)) A" for A
    by (intro inj_onI) (rule flip_inj)
  then have "distinct (cube_neighbours n i)"
    by (simp add: cube_neighbours_def distinct_map)
  moreover have "i \<notin> set (cube_neighbours n i)"
    unfolding cube_neighbours_iff by (metis flip_neq)
  ultimately show ?thesis
    by (simp add: cube_neighbours_def) (metis length_filter_le length_map length_upt minus_nat.diff_0)
qed

text \<open>Adding one bit of a number at a time leads from the centre to every index.\<close>

lemma cube_paths:
  assumes "i < n" "m \<le> dimensions n"
  shows "\<exists>k \<le> m. (0, take_bit m i) \<in> {(a, b). a < n \<and> b \<in> set (cube_neighbours n a)} ^^ k"
  using assms(2)
proof (induction m)
  case (Suc m)
  let ?E = "{(a, b). a < n \<and> b \<in> set (cube_neighbours n a)}"
  from Suc obtain k where k: "k \<le> m" "(0, take_bit m i) \<in> ?E ^^ k" by auto
  have le: "take_bit l i < n" for l
    using assms(1) take_bit_nat_less_eq_self le_less_trans by blast
  show ?case
  proof (cases "bit i m")
    case True
    have "take_bit (Suc m) i = take_bit m i XOR push_bit m 1"
      by (rule bit_eqI) (use True in \<open>auto simp only: bit_flip bit_take_bit_iff less_Suc_eq\<close>)
    then have "take_bit (Suc m) i \<in> set (cube_neighbours n (take_bit m i))"
      using le[of "Suc m"] Suc.prems unfolding cube_neighbours_iff by (metis Suc_le_eq)
    then have "(0, take_bit (Suc m) i) \<in> ?E ^^ Suc k"
      using k(2) le[of m] by (auto intro: relpow_Suc_I)
    then show ?thesis using k(1) by (meson Suc_le_mono)
  next
    case False
    then have "take_bit (Suc m) i = take_bit m i"
      by (intro bit_eqI) (auto simp only: bit_take_bit_iff less_Suc_eq)
    then show ?thesis using k by (auto intro: le_SucI)
  qed
qed auto

definition edges :: "'k adjacency \<Rightarrow> ('k \<times> 'k) set" where
  "edges adj = {(a, b). b \<in> set (neighbours adj a)}"

lemma edges_dmem: "(a, b) \<in> edges adj \<Longrightarrow> dmem a adj"
  by (cases "dget adj a") (simp_all add: edges_def neighbours_def dmem_iff)

lemma edges_hypercube:
  assumes "distinct (c # ps)"
  shows "edges (create_hypercube c ps) =
    {((c # ps) ! i, (c # ps) ! m) | i m. i < length (c # ps) \<and> m \<in> set (cube_neighbours (length (c # ps)) i)}"
proof -
  let ?adj = "create_hypercube c ps" and ?ps = "c # ps"
  have key: "a \<in> set ?ps" if "b \<in> set (neighbours ?adj a)" for a b
    using that create_hypercube_keys edges_dmem by (metis edges_def mem_Collect_eq case_prodI)
  show ?thesis
  proof (intro set_eqI iffI)
    fix x assume x: "x \<in> edges ?adj"
    obtain a b where ab: "x = (a, b)" "b \<in> set (neighbours ?adj a)" using x by (auto simp: edges_def)
    from key[OF ab(2)] obtain i where i: "i < length ?ps" "a = ?ps ! i" by (metis in_set_conv_nth)
    then show "x \<in> {(?ps ! i, ?ps ! m) | i m. i < length ?ps \<and> m \<in> set (cube_neighbours (length ?ps) i)}"
      using ab create_hypercube_neighbours[OF assms i(1)] by auto
  next
    fix x assume "x \<in> {(?ps ! i, ?ps ! m) | i m. i < length ?ps \<and> m \<in> set (cube_neighbours (length ?ps) i)}"
    then obtain i m where "x = (?ps ! i, ?ps ! m)" "i < length ?ps" "m \<in> set (cube_neighbours (length ?ps) i)" by blast
    then show "x \<in> edges ?adj"
      using create_hypercube_neighbours[OF assms, of i] by (simp add: edges_def)
  qed
qed

lemma hypercube_sym: "distinct (c # ps) \<Longrightarrow> sym (edges (create_hypercube c ps))"
proof (rule symI)
  fix a b assume d: "distinct (c # ps)" and "(a, b) \<in> edges (create_hypercube c ps)"
  then obtain i m where im: "a = (c # ps) ! i" "b = (c # ps) ! m" "i < length (c # ps)"
      "m \<in> set (cube_neighbours (length (c # ps)) i)"
    unfolding edges_hypercube[OF d] by blast
  moreover have "m < length (c # ps)" using im(4) cube_neighbours_iff by blast
  ultimately show "(b, a) \<in> edges (create_hypercube c ps)"
    unfolding edges_hypercube[OF d] using cube_neighbours_sym by blast
qed

lemma hypercube_irrefl: "distinct (c # ps) \<Longrightarrow> irrefl (edges (create_hypercube c ps))"
proof (rule irreflI, rule notI)
  fix a assume d: "distinct (c # ps)" and "(a, a) \<in> edges (create_hypercube c ps)"
  then obtain i m where im: "a = (c # ps) ! i" "a = (c # ps) ! m" "i < length (c # ps)"
      "m \<in> set (cube_neighbours (length (c # ps)) i)"
    unfolding edges_hypercube[OF d] by blast
  moreover have "m < length (c # ps)" using im(4) cube_neighbours_iff by blast
  ultimately have "m = i" using d nth_eq_iff_index_eq by metis
  then show False using im(4) cube_neighbours_distinct by blast
qed

lemma hypercube_row:
  assumes "distinct (c # ps)" "a \<in> set (c # ps)"
  shows "distinct (neighbours (create_hypercube c ps) a)"
    "length (neighbours (create_hypercube c ps) a) \<le> dimensions (length (c # ps))"
proof -
  obtain i where i: "i < length (c # ps)" "a = (c # ps) ! i" using assms(2) by (metis in_set_conv_nth)
  note row = create_hypercube_neighbours[OF assms(1) i(1), folded i(2)]
  have "inj_on ((!) (c # ps)) (set (cube_neighbours (length (c # ps)) i))"
    using assms(1) cube_neighbours_iff by (intro inj_on_nth) auto
  then show "distinct (neighbours (create_hypercube c ps) a)"
    unfolding row distinct_map using cube_neighbours_distinct by blast
  show "length (neighbours (create_hypercube c ps) a) \<le> dimensions (length (c # ps))"
    unfolding row length_map using cube_neighbours_distinct by blast
qed

lemma hypercube_hops:
  assumes "distinct (c # ps)" "a \<in> set (c # ps)"
  shows "\<exists>k \<le> dimensions (length (c # ps)). (c, a) \<in> edges (create_hypercube c ps) ^^ k"
proof -
  define n where "n = length (c # ps)"
  define E where "E = {(a, b). a < n \<and> b \<in> set (cube_neighbours n a)}"
  obtain i where i: "i < n" "a = (c # ps) ! i" using assms(2) unfolding n_def by (metis in_set_conv_nth)
  have edge: "((c # ps) ! x, (c # ps) ! y) \<in> edges (create_hypercube c ps)" if "(x, y) \<in> E" for x y
    using that unfolding edges_hypercube[OF assms(1)] E_def n_def by blast
  have step: "((c # ps) ! x, (c # ps) ! y) \<in> edges (create_hypercube c ps) ^^ k" if "(x, y) \<in> E ^^ k" for x y k
    using that
  proof (induction k arbitrary: y)
    case (Suc k)
    from Suc.prems obtain z where z: "(x, z) \<in> E ^^ k" "(z, y) \<in> E" by (rule relpow_Suc_E)
    show ?case using Suc.IH[OF z(1)] edge[OF z(2)] by (rule relpow_Suc_I)
  qed simp
  obtain k where k: "k \<le> dimensions n" "(0, take_bit (dimensions n) i) \<in> E ^^ k"
    using cube_paths[OF i(1) order.refl, folded E_def] by blast
  have "take_bit (dimensions n) i = i"
    unfolding take_bit_nat_eq_self_iff using i(1) dimensions_cover less_le_trans by blast
  with step[OF k(2)] k(1) show ?thesis
    unfolding i(2) n_def[symmetric] by (metis nth_Cons_0)
qed

text \<open>
  C6. The topology of a session is a hypercube over its peers: the adjacency lists are symmetric,
  without loops and repetitions, no peer has more neighbours than there are dimensions, and every
  peer is reached from the centre in at most that many hops, whatever the number of peers (the cube
  need not be full). The number of dimensions is the rounded-up binary logarithm of the number of
  peers.
\<close>

theorem hypercube_topology:
  assumes "distinct (c # ps)"
  shows "sym (edges (create_hypercube c ps)) \<and> irrefl (edges (create_hypercube c ps)) \<and>
    (\<forall>a \<in> set (c # ps). distinct (neighbours (create_hypercube c ps) a) \<and>
       length (neighbours (create_hypercube c ps) a) \<le> dimensions (length (c # ps)) \<and>
       (\<exists>k \<le> dimensions (length (c # ps)). (c, a) \<in> edges (create_hypercube c ps) ^^ k)) \<and>
    dimensions (length (c # ps)) = nat \<lceil>log 2 (length (c # ps))\<rceil>"
proof -
  have "dimensions (length (c # ps)) = nat \<lceil>log 2 (length (c # ps))\<rceil>"
    by (simp add: dimensions_eq ceillog2_def)
  then show ?thesis
    using hypercube_sym[OF assms] hypercube_irrefl[OF assms] hypercube_row[OF assms] hypercube_hops[OF assms]
    by blast
qed

theorem hypercube_topology_witness:
  "(0 :: nat, 2) \<in> (edges (create_hypercube 0 [1, 2])) ^^ 1 \<and>
   (\<exists>k \<le> dimensions 3. (0 :: nat, 2) \<in> edges (create_hypercube 0 [1, 2]) ^^ k)"
  using hypercube_topology[of "0 :: nat" "[1, 2]"]
  by (auto simp: edges_def create_hypercube_def dimensions_def log2_up.simps cube_edge_def adj_append_def
      neighbours_def Let_def)

section \<open>inform_peers\<close>

text \<open>
  Removing a peer: it leaves the lists of its neighbours (\<open>list.remove\<close>, a \<open>ValueError\<close> when it is
  not there) and then loses its own list. Reading a missing key of the \<open>defaultdict\<close> creates it, so
  that the final \<open>del\<close> cannot fail.
\<close>

fun remove_edges :: "'k \<Rightarrow> 'k list \<Rightarrow> 'k adjacency \<Rightarrow> 'k adjacency res" where
  "remove_edges k [] adj = Inr adj"
| "remove_edges k (p # ps) adj =
     (if k \<in> set (neighbours adj p) then remove_edges k ps (dset p (remove1 k (neighbours adj p)) adj)
      else Inl ValueError)"

definition discard_peer :: "'k \<Rightarrow> 'k adjacency \<Rightarrow> 'k adjacency res" where
  "discard_peer k adj = (case remove_edges k (neighbours adj k) adj of Inl e \<Rightarrow> Inl e | Inr adj' \<Rightarrow> Inr (ddel k adj'))"

datatype inform_outcome = Confirmed inform_response | NoReply remote_peer

text \<open>\<open>_trigger_schedular_of_peer\<close>: \<open>reply\<close> is the datagram that came back, \<open>None\<close> after a timeout.\<close>

definition trigger_schedular_of_peer ::
    "(bytes \<Rightarrow> pyval res) \<Rightarrow> remote_peer \<Rightarrow> bytes option \<Rightarrow> inform_outcome res" where
  "trigger_schedular_of_peer loads peer reply =
     (case reply of
        None \<Rightarrow> Inr (NoReply peer)
      | Some data \<Rightarrow> map_sum id Confirmed (InformResponse_load_from loads data))"

type_synonym confirmed = "(pyval, inform_response) pydict"

text \<open>The loop of \<open>inform_peers\<close> over the peers in the order in which their tasks complete.\<close>

fun inform_loop ::
    "(bytes \<Rightarrow> pyval res) \<Rightarrow> (remote_peer \<times> bytes option) list \<Rightarrow> pyval adjacency \<times> confirmed \<Rightarrow>
     (pyval adjacency \<times> confirmed) res" where
  "inform_loop loads [] st = Inr st"
| "inform_loop loads ((peer, reply) # rest) st =
     (case trigger_schedular_of_peer loads peer reply of
        Inl e \<Rightarrow> Inl e
      | Inr (Confirmed r) \<Rightarrow> inform_loop loads rest (fst st, dset (ir_peer_id r) r (snd st))
      | Inr (NoReply p) \<Rightarrow>
          (case discard_peer (PStr (peer_id p)) (fst st) of
             Inl e \<Rightarrow> Inl e
           | Inr adj \<Rightarrow> inform_loop loads rest (adj, snd st)))"

definition inform_peers ::
    "(bytes \<Rightarrow> pyval res) \<Rightarrow> inform_response \<Rightarrow> (remote_peer \<times> bytes option) list \<Rightarrow>
     pyval adjacency \<times> confirmed \<Rightarrow> (pyval adjacency \<times> confirmed) res" where
  "inform_peers loads center replies st =
     inform_loop loads replies (fst st, dset (ir_peer_id center) center (snd st))"

section \<open>update_states\<close>

type_synonym addresses_mapping = "(pyval \<times> pyval list \<times> pyval list) list"

definition address_mapping :: "pyval adjacency \<Rightarrow> confirmed \<Rightarrow> pyval \<Rightarrow> addresses_mapping" where
  "address_mapping adj conf k =
     concat (map (\<lambda>p. case dget conf p of None \<Rightarrow> [] | Some r \<Rightarrow> [(p, ir_passive_addr r, ir_active_addr r)])
       (neighbours adj k))"

text \<open>
  What \<open>update_states\<close> sends: the centre's own mapping, which goes to its relay, and one datagram to
  the passive address of every other confirmed peer.
\<close>

definition update_states ::
    "pyval \<Rightarrow> pyval adjacency \<Rightarrow> confirmed \<Rightarrow> addresses_mapping \<times> (pyval list \<times> addresses_mapping) list" where
  "update_states center adj conf =
     (address_mapping adj conf center,
      map (\<lambda>kr. (ir_passive_addr (snd kr), address_mapping adj conf (fst kr)))
        (filter (\<lambda>kr. fst kr \<noteq> center) conf))"

section \<open>Properties of the invitation\<close>

lemma neighbours_dset [simp]: "neighbours (dset k xs adj) j = (if j = k then xs else neighbours adj j)"
  by (simp add: neighbours_def)

lemma neighbours_ddel [simp]: "neighbours (ddel k adj) j = (if j = k then [] else neighbours adj j)"
  by (simp add: neighbours_def)

lemma remove_edges_ok:
  assumes "distinct ps" "\<forall>p \<in> set ps. k \<in> set (neighbours adj p)"
  shows "\<exists>adj'. remove_edges k ps adj = Inr adj' \<and>
    (\<forall>j. neighbours adj' j = (if j \<in> set ps then remove1 k (neighbours adj j) else neighbours adj j))"
  using assms
proof (induction ps arbitrary: adj)
  case (Cons p ps)
  let ?adj = "dset p (remove1 k (neighbours adj p)) adj"
  have "\<forall>q \<in> set ps. k \<in> set (neighbours ?adj q)" using Cons.prems by auto
  with Cons.IH[of ?adj] Cons.prems obtain adj' where
    "remove_edges k ps ?adj = Inr adj'"
    "\<forall>j. neighbours adj' j = (if j \<in> set ps then remove1 k (neighbours ?adj j) else neighbours ?adj j)"
    by auto
  then show ?case using Cons.prems by auto
qed simp

text \<open>
  Removing a peer that did not answer, under the identifier the adjacency list is keyed by,
  never fails on a topology that is symmetric, without loops and without repetitions; it removes
  exactly the edges at that peer, so the topology keeps these three properties and the remaining
  peers keep their other neighbours in order.
\<close>

theorem discard_peer_keeps_topology:
  assumes "sym (edges adj)" "irrefl (edges adj)" "\<forall>a. distinct (neighbours adj a)"
  shows "\<exists>adj'. discard_peer k adj = Inr adj' \<and> edges adj' = {(a, b) \<in> edges adj. a \<noteq> k \<and> b \<noteq> k} \<and>
    sym (edges adj') \<and> irrefl (edges adj') \<and> (\<forall>a. distinct (neighbours adj' a)) \<and>
    (\<forall>a. a \<noteq> k \<longrightarrow> neighbours adj' a = filter (\<lambda>b. b \<noteq> k) (neighbours adj a))"
proof -
  have "k \<in> set (neighbours adj p)" if "p \<in> set (neighbours adj k)" for p
    using that assms(1) by (auto simp: edges_def sym_def)
  then obtain adj1 where adj1: "remove_edges k (neighbours adj k) adj = Inr adj1"
    "\<forall>j. neighbours adj1 j = (if j \<in> set (neighbours adj k) then remove1 k (neighbours adj j) else neighbours adj j)"
    using remove_edges_ok[of "neighbours adj k" k adj] assms(3) by blast
  have "k \<notin> set (neighbours adj j)" if "j \<notin> set (neighbours adj k)" for j
    using that assms(1) by (auto simp: edges_def sym_def)
  then have row: "neighbours adj' a = (if a = k then [] else filter (\<lambda>b. b \<noteq> k) (neighbours adj a))"
    if "adj' = ddel k adj1" for a adj'
  proof (cases "a \<in> set (neighbours adj k)")
    case True
    then show ?thesis
      using that adj1(2) assms(3) distinct_remove1_removeAll[of "neighbours adj a" k]
      by (auto simp: removeAll_filter_not_eq intro!: filter_cong)
  next
    case False
    then have "filter (\<lambda>b. b \<noteq> k) (neighbours adj a) = neighbours adj a"
      using \<open>\<And>j. j \<notin> set (neighbours adj k) \<Longrightarrow> k \<notin> set (neighbours adj j)\<close> by (auto intro!: filter_True)
    then show ?thesis using that adj1(2) False by simp
  qed
  define adj2 where "adj2 = ddel k adj1"
  note row = row[OF adj2_def]
  have e: "edges adj2 = {(a, b) \<in> edges adj. a \<noteq> k \<and> b \<noteq> k}"
    by (auto simp: edges_def row split: if_splits)
  moreover have "discard_peer k adj = Inr adj2"
    using adj1(1) by (simp add: discard_peer_def adj2_def)
  moreover have "sym (edges adj2)" "irrefl (edges adj2)"
    using assms(1,2) unfolding e by (auto simp: sym_def irrefl_def)
  moreover have "\<forall>a. distinct (neighbours adj2 a)"
    using assms(3) by (simp add: row)
  ultimately show ?thesis by (auto simp: row)
qed

theorem discard_peer_keeps_topology_witness:
  "\<exists>adj'. discard_peer (1 :: nat) [(0, [1, 2]), (1, [0]), (2, [0])] = Inr adj' \<and> edges adj' = {(0, 2), (2, 0)}"
proof -
  let ?adj = "[(0, [1, 2]), (1, [0]), (2, [0])] :: nat adjacency"
  have e: "edges ?adj = {(0, 1), (0, 2), (1, 0), (2, 0)}"
    by (auto simp: edges_def neighbours_def split: if_splits)
  have "sym (edges ?adj)" "irrefl (edges ?adj)" "\<forall>a. distinct (neighbours ?adj a)"
    unfolding e by (auto simp: neighbours_def sym_def irrefl_def)
  then have "\<exists>adj'. discard_peer 1 ?adj = Inr adj' \<and> edges adj' = {(a, b) \<in> edges ?adj. a \<noteq> 1 \<and> b \<noteq> 1}"
    using discard_peer_keeps_topology[of ?adj 1] by blast
  moreover have "{(a, b) \<in> edges ?adj. a \<noteq> 1 \<and> b \<noteq> 1} = {(0, 2), (2, 0)}"
    unfolding e by auto
  ultimately show ?thesis by simp
qed

text \<open>
  As written, no session forms a tree. The topology is keyed by the byte identifiers of the
  peers while the answers, and the removal of silent peers, use their textual identifiers: whatever
  the peers answer, nobody is removed from the topology, and every address mapping sent, the
  centre's own included, is empty.
\<close>

theorem session_without_links:
  assumes "distinct (map rp_id (c # ps))"
    and "adj = create_hypercube (PBytes (rp_id c)) (map (\<lambda>p. PBytes (rp_id p)) ps)"
    and "ir_peer_id center = PBytes (rp_id c)"
    and "\<forall>(p, reply) \<in> set replies. \<forall>d. reply = Some d \<longrightarrow>
      (\<exists>r s. InformResponse_load_from loads d = Inr r \<and> ir_peer_id r = PStr s)"
  shows "\<exists>conf. inform_peers loads center replies (adj, []) = Inr (adj, conf) \<and>
    fst (update_states (PBytes (rp_id c)) adj conf) = [] \<and>
    (\<forall>u \<in> set (snd (update_states (PBytes (rp_id c)) adj conf)). snd u = [])"
proof -
  let ?c = "PBytes (rp_id c)"
  have dist: "distinct (?c # map (\<lambda>p. PBytes (rp_id p)) ps)"
    using assms(1) by (auto simp: distinct_map inj_on_def)
  have str: "\<not> dmem (PStr s) adj" for s
    using create_hypercube_keys[of "PStr s" ?c "map (\<lambda>p. PBytes (rp_id p)) ps"] assms(2) by auto
  then have discard: "discard_peer (PStr s) adj = Inr adj" for s
    using ddel_absent[OF str] by (simp add: discard_peer_def neighbours_def dmem_iff)
  have loop: "\<exists>conf'. inform_loop loads rs (adj, conf) = Inr (adj, conf') \<and> (\<forall>k. dmem k conf' \<longrightarrow> k = ?c \<or> (\<exists>s. k = PStr s))"
    if "set rs \<subseteq> set replies" "\<forall>k. dmem k conf \<longrightarrow> k = ?c \<or> (\<exists>s. k = PStr s)" for rs conf
    using that
  proof (induction rs arbitrary: conf)
    case (Cons pr rs)
    obtain p reply where pr: "pr = (p, reply)" by (cases pr)
    show ?case
    proof (cases reply)
      case None
      then show ?thesis using Cons by (simp add: pr trigger_schedular_of_peer_def discard)
    next
      case (Some d)
      then obtain r s where r: "InformResponse_load_from loads d = Inr r" "ir_peer_id r = PStr s"
        using assms(4) Cons.prems(1) pr by fastforce
      show ?thesis
        using Cons.IH[of "dset (PStr s) r conf"] Cons.prems r
        by (auto simp: pr Some trigger_schedular_of_peer_def)
    qed
  qed simp
  obtain conf where conf: "inform_peers loads center replies (adj, []) = Inr (adj, conf)"
    "\<forall>k. dmem k conf \<longrightarrow> k = ?c \<or> (\<exists>s. k = PStr s)"
    using loop[of replies "dset ?c center []"] assms(3) by (auto simp: inform_peers_def dmem_def dkeys_def)
  have centre: "address_mapping adj conf ?c = []"
  proof -
    have "dget conf k = None" if k: "k \<in> set (neighbours adj ?c)" for k
    proof -
      have "k \<noteq> ?c"
        using k hypercube_irrefl[OF dist] assms(2) by (auto simp: irrefl_def edges_def)
      moreover have "(?c, k) \<in> edges adj" using k by (simp add: edges_def)
      then have "dmem k adj"
        using hypercube_sym[OF dist] assms(2) edges_dmem by (metis symD)
      ultimately show ?thesis
        using conf(2) str by (auto simp: dmem_iff)
    qed
    then show ?thesis by (auto simp: address_mapping_def)
  qed
  moreover have "address_mapping adj conf (PStr s) = []" for s
    using str[of s] by (simp add: address_mapping_def neighbours_def dmem_iff)
  moreover have "fst kr = ?c \<or> (\<exists>s. fst kr = PStr s)" if "kr \<in> set conf" for kr
    using that conf(2) by (auto simp: dmem_def dkeys_def)
  ultimately show ?thesis
    using conf(1) by (fastforce simp: update_states_def)
qed

theorem session_without_links_witness:
  "\<exists>(c :: remote_peer) p conf. rp_id c \<noteq> rp_id p \<and>
     inform_peers (\<lambda>b. Inr (PList [PStr ''7'', PList [PStr ''::1'', PInt 1], PList [PStr ''::1'', PInt 2], PStr ''k'']))
       \<lparr>ir_peer_id = PBytes (rp_id c), ir_passive_addr = [], ir_active_addr = [], ir_session_key = PStr ''k''\<rparr>
       [(p, Some [1])] (create_hypercube (PBytes (rp_id c)) [PBytes (rp_id p)], []) =
       Inr (create_hypercube (PBytes (rp_id c)) [PBytes (rp_id p)], conf) \<and>
     fst (update_states (PBytes (rp_id c)) (create_hypercube (PBytes (rp_id c)) [PBytes (rp_id p)]) conf) = []"
proof -
  define peer where "peer i = \<lparr>rp_username = PNone, rp_ip = [], rp_conn_port = PNone, rp_req_port = PNone,
    rp_status = PNone, rp_id = i, rp_long_id = 0, rp_byte_cache = None\<rparr>" for i
  let ?loads = "\<lambda>b :: bytes. Inr (PList [PStr ''7'', PList [PStr ''::1'', PInt 1], PList [PStr ''::1'', PInt 2], PStr ''k'']) :: pyval res"
  let ?c = "peer [1]" and ?p = "peer [2]"
  have id [simp]: "rp_id (peer i) = i" for i by (simp add: peer_def)
  have reply: "\<forall>(p, reply) \<in> set [(?p, Some [1])]. \<forall>d. reply = Some d \<longrightarrow>
      (\<exists>r s. InformResponse_load_from ?loads d = Inr r \<and> ir_peer_id r = PStr s)"
    by (simp add: InformResponse_load_from_def)
  have dist: "distinct (map rp_id [?c, ?p])" by simp
  obtain conf where conf: "inform_peers ?loads
       \<lparr>ir_peer_id = PBytes (rp_id ?c), ir_passive_addr = [], ir_active_addr = [], ir_session_key = PStr ''k''\<rparr>
       [(?p, Some [1])] (create_hypercube (PBytes (rp_id ?c)) [PBytes (rp_id ?p)], []) =
         Inr (create_hypercube (PBytes (rp_id ?c)) [PBytes (rp_id ?p)], conf)"
      "fst (update_states (PBytes (rp_id ?c)) (create_hypercube (PBytes (rp_id ?c)) [PBytes (rp_id ?p)]) conf) = []"
    using session_without_links[OF dist refl _ reply, of
      "\<lparr>ir_peer_id = PBytes (rp_id ?c), ir_passive_addr = [], ir_active_addr = [], ir_session_key = PStr ''k''\<rparr>"]
    unfolding list.map inform_response.simps by blast
  show ?thesis
    by (rule exI[of _ ?c], rule exI[of _ ?p], rule exI[of _ conf], intro conjI conf) simp
qed

end
