(* ===== verification/Palm_Tree.thy ===== *)
theory Palm_Tree
  imports Hypercube
begin

text \<open>
  The relay of a one-to-many session, classes \<open>TreeLink\<close> (\<open>src/transfers/otm/tree.py\<close>) and
  \<open>PalmTreeRelay\<close> (\<open>src/transfers/otm/palm_tree.py\<close>): a peer builds its part of the spanning tree by
  accepting one parent and inviting children.

  The values of \<open>active_links\<close> and \<open>passive_links\<close> are always the link objects of \<open>all_links\<close>, so
  the two dictionaries are represented by their keys and the objects live in \<open>rl_all\<close>. A handler
  that waits for the parent's connection is split where it suspends: \<open>rl_waiting\<close> holds the senders
  of the tree checks whose handlers are suspended.
\<close>

section \<open>Links\<close>

datatype link_type = PASSIVE | ACTIVE | STALE
datatype link_status = LinkOffline | LinkOnline | LinkLagging
datatype link_direction = OUTGOING | INCOMING

record tree_link =
  tl_type :: link_type
  tl_right :: "pyval list"
  tl_connection :: "nat option"
  tl_status :: link_status
  tl_direction :: link_direction

definition TreeLink :: "pyval list \<Rightarrow> nat option \<Rightarrow> link_type \<Rightarrow> tree_link" where
  "TreeLink b connection typ =
     \<lparr>tl_type = typ, tl_right = b, tl_connection = connection, tl_status = LinkOffline, tl_direction = OUTGOING\<rparr>"

definition set_connection :: "nat \<Rightarrow> tree_link \<Rightarrow> tree_link" where
  "set_connection value l = l\<lparr>tl_status := LinkOnline, tl_connection := Some value\<rparr>"

definition is_online :: "tree_link \<Rightarrow> bool" where
  "is_online l \<longleftrightarrow> tl_status l = LinkOnline"

definition is_lagging :: "tree_link \<Rightarrow> bool" where
  "is_lagging l \<longleftrightarrow> tl_status l = LinkLagging"

definition is_outgoing :: "tree_link \<Rightarrow> bool" where
  "is_outgoing l \<longleftrightarrow> tl_direction l = OUTGOING"

definition clear_link :: "tree_link \<Rightarrow> tree_link" where
  "clear_link l = l\<lparr>tl_status := LinkOffline, tl_connection := None\<rparr>"

lemmas link_defs = TreeLink_def set_connection_def is_online_def is_lagging_def is_outgoing_def clear_link_def

section \<open>The relay\<close>

datatype relay_state = INITIAL | SESSION_INIT | LINKS_INITIALIZED | TREE_CHECK_DONE

fun relay_state_value :: "relay_state \<Rightarrow> nat" where
  "relay_state_value INITIAL = 1"
| "relay_state_value SESSION_INIT = 2"
| "relay_state_value LINKS_INITIALIZED = 3"
| "relay_state_value TREE_CHECK_DONE = 4"

lemma relay_state_value_inj: "relay_state_value a = relay_state_value b \<Longrightarrow> a = b"
  by (cases a; cases b) simp_all

instantiation relay_state :: linorder
begin

definition less_eq_relay_state :: "relay_state \<Rightarrow> relay_state \<Rightarrow> bool" where
  "less_eq_relay_state a b \<longleftrightarrow> relay_state_value a \<le> relay_state_value b"

definition less_relay_state :: "relay_state \<Rightarrow> relay_state \<Rightarrow> bool" where
  "less_relay_state a b \<longleftrightarrow> relay_state_value a < relay_state_value b"

instance
  by standard (auto simp: less_eq_relay_state_def less_relay_state_def relay_state_value_inj)

end

lemma relay_state_order [simp]:
  "INITIAL \<le> s" "SESSION_INIT \<le> INITIAL \<longleftrightarrow> False" "s \<le> TREE_CHECK_DONE"
  "LINKS_INITIALIZED \<le> s \<longleftrightarrow> s = LINKS_INITIALIZED \<or> s = TREE_CHECK_DONE"
  "SESSION_INIT \<le> s \<longleftrightarrow> s \<noteq> INITIAL" "TREE_CHECK_DONE \<le> s \<longleftrightarrow> s = TREE_CHECK_DONE"
  "s \<le> LINKS_INITIALIZED \<longleftrightarrow> s \<noteq> TREE_CHECK_DONE"
  by (cases s; simp add: less_eq_relay_state_def)+

lemma relay_state_less [simp]: "s < LINKS_INITIALIZED \<longleftrightarrow> s = INITIAL \<or> s = SESSION_INIT"
  by (cases s) (simp_all add: less_relay_state_def)

text \<open>The parent future: the centre of the session resolves it with \<open>None\<close>.\<close>

datatype parent_fut = Pending | ParentLink pyval | ParentNone | ParentCancelled

datatype relay_msg =
    TreeRejectTo "pyval list" | UpgradeTo pyval | TreeCheckTo pyval | LinkOkTo nat | GatherTo pyval | GatherReply | PrintTo pyval

record relay =
  rl_state :: relay_state
  rl_all :: "(pyval, tree_link \<times> tree_link) pydict"
  rl_window :: int
  rl_parent :: parent_fut
  rl_read :: "pyval option"
  rl_expected :: "pyval list"
  rl_active :: "pyval list"
  rl_passive :: "pyval list"
  rl_fanout :: nat
  rl_session_id :: pyval
  rl_transport :: "nat option"
  rl_waiting :: "pyval list"
  rl_out :: "relay_msg list"
  rl_closed :: "nat list"

definition PalmTreeRelay :: "nat \<Rightarrow> pyval \<Rightarrow> relay" where
  "PalmTreeRelay fanout session_id =
     \<lparr>rl_state = INITIAL, rl_all = [], rl_window = 0, rl_parent = Pending, rl_read = None, rl_expected = [],
      rl_active = [], rl_passive = [], rl_fanout = fanout, rl_session_id = session_id, rl_transport = None,
      rl_waiting = [], rl_out = [], rl_closed = []\<rparr>"

definition add_key :: "'a \<Rightarrow> 'a list \<Rightarrow> 'a list" where
  "add_key k ks = (if k \<in> set ks then ks else ks @ [k])"

definition send_msgs :: "relay_msg list \<Rightarrow> relay \<Rightarrow> relay" where
  "send_msgs ms r = r\<lparr>rl_out := rl_out r @ ms\<rparr>"

text \<open>The active link of a peer, and its update in place.\<close>

definition active_link :: "pyval \<Rightarrow> relay \<Rightarrow> tree_link option" where
  "active_link p r = map_option snd (dget (rl_all r) p)"

definition update_active :: "(tree_link \<Rightarrow> tree_link) \<Rightarrow> pyval \<Rightarrow> relay \<Rightarrow> relay" where
  "update_active f p r = (case dget (rl_all r) p of
     None \<Rightarrow> r | Some (pl, al) \<Rightarrow> r\<lparr>rl_all := dset p (pl, f al) (rl_all r)\<rparr>)"

definition update_passive :: "(tree_link \<Rightarrow> tree_link) \<Rightarrow> pyval \<Rightarrow> relay \<Rightarrow> relay" where
  "update_passive f p r = (case dget (rl_all r) p of
     None \<Rightarrow> r | Some (pl, al) \<Rightarrow> r\<lparr>rl_all := dset p (f pl, al) (rl_all r)\<rparr>)"

definition online_outgoing :: "relay \<Rightarrow> pyval \<Rightarrow> bool" where
  "online_outgoing r p = (case active_link p r of None \<Rightarrow> False | Some l \<Rightarrow> is_online l \<and> is_outgoing l)"

section \<open>Handlers\<close>

definition session_init :: "nat \<Rightarrow> relay \<Rightarrow> relay" where
  "session_init transport r =
     (if SESSION_INIT \<le> rl_state r then r
      else r\<lparr>rl_transport := Some transport, rl_state := SESSION_INIT\<rparr>)"

definition new_links :: "relay \<Rightarrow> pyval list \<Rightarrow> pyval list \<Rightarrow> tree_link \<times> tree_link" where
  "new_links r passive_addr active_addr =
     ((TreeLink passive_addr (rl_transport r) PASSIVE)\<lparr>tl_status := LinkOnline\<rparr>,
      TreeLink active_addr None ACTIVE)"

definition gossip_update_state :: "addresses_mapping \<Rightarrow> relay \<Rightarrow> relay" where
  "gossip_update_state addresses r =
     (if LINKS_INITIALIZED \<le> rl_state r then r
      else let all = fold (\<lambda>(peer_id, passive_addr, active_addr).
               dset peer_id (new_links r passive_addr active_addr)) addresses (rl_all r)
           in r\<lparr>rl_all := all, rl_fanout := min (length all) (rl_fanout r), rl_state := LINKS_INITIALIZED\<rparr>)"

definition reject_reason :: "pyval \<Rightarrow> relay \<Rightarrow> bool" where
  "reject_reason p r \<longleftrightarrow> \<not> dmem p (rl_all r) \<or> length (rl_active r) > rl_fanout r \<or>
     rl_parent r \<noteq> Pending \<or> TREE_CHECK_DONE \<le> rl_state r"

definition may_be_make_rejection :: "pyval \<Rightarrow> pyval list \<Rightarrow> relay \<Rightarrow> bool \<times> relay" where
  "may_be_make_rejection p addr r =
     (if reject_reason p r then (True, send_msgs [TreeRejectTo addr] r) else (False, r))"

text \<open>Python slices with any integer bounds.\<close>

definition slice_bound :: "int \<Rightarrow> nat \<Rightarrow> nat" where
  "slice_bound i n = (if i < 0 then nat (max 0 (i + int n)) else min (nat i) n)"

definition int_slice :: "int \<Rightarrow> int \<Rightarrow> 'a list \<Rightarrow> 'a list" where
  "int_slice a b xs = pyslice (slice_bound a (length xs)) (slice_bound b (length xs)) xs"

definition forward_tree_check_packet :: "pyval \<Rightarrow> relay \<Rightarrow> relay" where
  "forward_tree_check_packet sender_id r =
     (let window_start = rl_window r;
          window_end = min (int (length (rl_all r))) (rl_window r + int (rl_fanout r))
                       - int (length (filter (online_outgoing r) (rl_active r)));
          peer_ids = int_slice window_start (window_end + 1) (dkeys (rl_all r));
          sampled = filter (\<lambda>p. p \<noteq> sender_id \<and> p \<notin> set (rl_active r)) peer_ids
      in send_msgs (map TreeCheckTo sampled)
           (r\<lparr>rl_window := window_end, rl_active := fold add_key sampled (rl_active r)\<rparr>))"

text \<open>
  \<open>gossip_tree_check\<close> up to the first wait of \<open>_send_upgrade_packet\<close>. \<open>known\<close> tells whether the peer
  was found; an unknown one ends the handler with an \<open>AttributeError\<close>.
\<close>

definition tree_check_begin :: "bool \<Rightarrow> pyval \<Rightarrow> pyval list \<Rightarrow> relay \<Rightarrow> relay" where
  "tree_check_begin known p addr r =
     (if \<not> known then r
      else case may_be_make_rejection p addr r of
        (True, r1) \<Rightarrow> r1
      | (False, r1) \<Rightarrow>
          send_msgs [UpgradeTo p]
            (r1\<lparr>rl_expected := add_key p (rl_expected r1), rl_active := add_key p (rl_active r1),
                rl_waiting := rl_waiting r1 @ [p]\<rparr>))"

text \<open>What follows the wait in \<open>gossip_tree_check\<close>.\<close>

definition tree_check_finish :: "pyval \<Rightarrow> relay \<Rightarrow> relay" where
  "tree_check_finish p r =
     (let r1 = forward_tree_check_packet p r
      in r1\<lparr>rl_passive := fold add_key (filter (\<lambda>q. q \<notin> set (rl_active r1)) (dkeys (rl_all r1))) (rl_passive r1),
            rl_state := TREE_CHECK_DONE\<rparr>)"

text \<open>The wait ends because the parent's connection has come in.\<close>

definition tree_check_resume :: "pyval \<Rightarrow> relay \<Rightarrow> relay" where
  "tree_check_resume p r =
     tree_check_finish p ((update_active (\<lambda>l. l\<lparr>tl_direction := INCOMING\<rparr>) p r)\<lparr>rl_waiting := remove1 p (rl_waiting r)\<rparr>)"

text \<open>
  The wait times out. \<open>asyncio.wait_for\<close> cancels the future it waits for: the parent future is done
  from then on, the next round of the retry loop breaks off, and the handler goes on as if the
  parent were there; the other suspended handlers end with \<open>CancelledError\<close>.
\<close>

definition tree_check_timeout :: "pyval \<Rightarrow> relay \<Rightarrow> relay" where
  "tree_check_timeout p r = tree_check_finish p (r\<lparr>rl_parent := ParentCancelled, rl_waiting := []\<rparr>)"

definition gossip_tree_reject :: "pyval \<Rightarrow> relay \<Rightarrow> relay" where
  "gossip_tree_reject p r =
     (if int (length (rl_all r)) \<le> rl_window r then r
      else if rl_fanout r \<le> length (rl_active r) then r
      else forward_tree_check_packet p r)"

text \<open>
  \<open>_activate_link\<close>: \<open>outcome\<close> is the connection and what comes back on it, or the exception of
  \<open>create_connection_async\<close>. The result is the value returned, \<open>None\<close> for an online link.
\<close>

definition activate_link :: "pyval \<Rightarrow> (nat \<times> bytes res) res \<Rightarrow> relay \<Rightarrow> bool option res \<times> relay" where
  "activate_link p outcome r =
     (case active_link p r of
        None \<Rightarrow> (Inl KeyError, r)
      | Some l \<Rightarrow>
          if is_online l then (Inr None, r)
          else (case outcome of
                  Inl e \<Rightarrow> (Inl e, r)
                | Inr (stream_sock, Inl e) \<Rightarrow> (if is_OSError e then (Inr (Some False), r) else (Inl e, r))
                | Inr (stream_sock, Inr data) \<Rightarrow>
                    if data \<noteq> [0x4F, 0x4B] then (Inr (Some False), r)
                    else (Inr (Some True),
                          update_active (\<lambda>l. (set_connection stream_sock l)\<lparr>tl_direction := OUTGOING\<rparr>) p r)))"

definition gossip_upgrade_connection :: "pyval \<Rightarrow> (nat \<times> bytes res) res \<Rightarrow> relay \<Rightarrow> relay" where
  "gossip_upgrade_connection p outcome r =
     (if p \<notin> set (rl_active r) then r else snd (activate_link p outcome r))"

definition gossip_downgrade_connection :: "pyval \<Rightarrow> relay \<Rightarrow> relay" where
  "gossip_downgrade_connection p r =
     (if p \<notin> set (rl_active r) then r
      else update_passive (\<lambda>l. l\<lparr>tl_status := LinkOffline\<rparr>) p
             ((update_active clear_link p r)\<lparr>rl_active := remove1 p (rl_active r), rl_passive := add_key p (rl_passive r)\<rparr>))"

text \<open>
  \<open>gossip_add_stream_link\<close>; \<open>sent\<close> is the outcome of sending the confirmation. A connection from a
  peer that is active but neither online nor expected is left as it is.
\<close>

definition gossip_add_stream_link :: "nat \<Rightarrow> pyval \<Rightarrow> pyval \<Rightarrow> unit res \<Rightarrow> relay \<Rightarrow> unit res \<times> relay" where
  "gossip_add_stream_link connection session_id p sent r =
     (if rl_session_id r \<noteq> session_id then (Inl AssertionError, r)
      else if p \<notin> set (rl_active r) then (Inr (), r\<lparr>rl_closed := rl_closed r @ [connection]\<rparr>)
      else case active_link p r of
        None \<Rightarrow> (Inl KeyError, r)
      | Some l \<Rightarrow>
          if is_online l \<or> is_lagging l
          then (Inr (), update_active (\<lambda>l. set_connection connection (clear_link l)) p r)
          else if rl_parent r \<noteq> Pending then (Inr (), r\<lparr>rl_closed := rl_closed r @ [connection]\<rparr>)
          else if p \<in> set (rl_expected r)
          then (let r1 = update_active (set_connection connection) p r
                in case sent of
                     Inl e \<Rightarrow> (Inl e, r1)
                   | Inr _ \<Rightarrow> (Inr (), (send_msgs [LinkOkTo connection] r1)\<lparr>rl_parent := ParentLink p\<rparr>))
          else (Inr (), r))"

definition get_forward_links :: "relay \<Rightarrow> pyval list" where
  "get_forward_links r = filter (\<lambda>p. Some p \<noteq> rl_read r \<and> online_outgoing r p) (rl_active r)"

text \<open>
  \<open>gossip_tree_gather\<close>: the packet with its level raised and the parent filled in goes to the
  collector and on to the children. It waits while the parent is pending (\<open>None\<close>).
\<close>

definition gossip_tree_gather :: "nat \<Rightarrow> relay \<Rightarrow> ((nat \<times> pyval) res \<times> relay) option" where
  "gossip_tree_gather level r =
     (case rl_parent r of
        Pending \<Rightarrow> None
      | ParentCancelled \<Rightarrow> Some (Inl CancelledError, r)
      | ParentNone \<Rightarrow> Some (Inl AttributeError, r)
      | ParentLink p \<Rightarrow> Some (Inr (level + 1, p), send_msgs (GatherReply # map GatherTo (get_forward_links r)) r))"

section \<open>The relay as a state machine\<close>

text \<open>
  One rule per handler, in any order and with any arguments; \<open>set_root\<close> is what the sender of the
  files does to its own relay.
\<close>

inductive relay_step :: "relay \<Rightarrow> relay \<Rightarrow> bool" where
  step_session: "relay_step r (session_init t r)"
| step_update: "relay_step r (gossip_update_state addresses r)"
| step_check: "relay_step r (tree_check_begin known p addr r)"
| step_resume: "p \<in> set (rl_waiting r) \<Longrightarrow> rl_parent r = ParentLink q \<Longrightarrow> relay_step r (tree_check_resume p r)"
| step_timeout: "p \<in> set (rl_waiting r) \<Longrightarrow> rl_parent r = Pending \<Longrightarrow> relay_step r (tree_check_timeout p r)"
| step_reject: "relay_step r (gossip_tree_reject p r)"
| step_upgrade: "relay_step r (gossip_upgrade_connection p outcome r)"
| step_downgrade: "relay_step r (gossip_downgrade_connection p r)"
| step_stream: "relay_step r (snd (gossip_add_stream_link connection sid p sent r))"
| step_root: "rl_parent r = Pending \<Longrightarrow> relay_step r (r\<lparr>rl_parent := ParentNone\<rparr>)"

inductive_cases relay_stepE: "relay_step r t"

definition relay_start :: "relay \<Rightarrow> bool" where
  "relay_start r \<longleftrightarrow> (\<exists>fanout sid. r = PalmTreeRelay fanout sid)"

text \<open>
  The invariant: the peers a relay has links to, expects or waits for are peers of the session, the
  parent was invited, and before the links are there nothing else has happened.
\<close>

definition relay_inv :: "relay \<Rightarrow> bool" where
  "relay_inv r \<longleftrightarrow> dict_wf (rl_all r) \<and> distinct (rl_active r) \<and>
     set (rl_active r) \<union> set (rl_passive r) \<union> set (rl_expected r) \<union> set (rl_waiting r) \<subseteq> set (dkeys (rl_all r)) \<and>
     set (rl_waiting r) \<subseteq> set (rl_expected r) \<and>
     (\<forall>p. rl_parent r = ParentLink p \<longrightarrow> p \<in> set (rl_expected r)) \<and>
     (LINKS_INITIALIZED \<le> rl_state r \<longrightarrow> rl_fanout r \<le> length (rl_all r)) \<and>
     (rl_state r < LINKS_INITIALIZED \<longrightarrow> dkeys (rl_all r) = [])"

lemma set_add_key [simp]: "set (add_key k ks) = insert k (set ks)"
  by (auto simp: add_key_def)

lemma distinct_add_key [simp]: "distinct ks \<Longrightarrow> distinct (add_key k ks)"
  by (auto simp: add_key_def)

lemma set_add_keys [simp]: "set (fold add_key xs ks) = set xs \<union> set ks"
  by (induction xs arbitrary: ks) auto

lemma distinct_add_keys [simp]: "distinct ks \<Longrightarrow> distinct (fold add_key xs ks)"
  by (induction xs arbitrary: ks) auto

lemma length_add_keys:
  "distinct ks \<Longrightarrow> set ks \<inter> set xs = {} \<Longrightarrow> length (fold add_key ks xs) = length ks + length xs"
  by (induction ks arbitrary: xs) (auto simp: add_key_def)

lemma dkeys_dset [simp]: "dget d k = Some v \<Longrightarrow> dkeys (dset k w d) = dkeys d"
  by (simp add: dkeys_def) (induction d; auto)

lemma set_int_slice: "set (int_slice a b xs) \<subseteq> set xs"
  by (auto simp: int_slice_def pyslice_def dest: in_set_dropD in_set_takeD)

lemma update_active_fields [simp]:
  "rl_state (update_active f p r) = rl_state r" "rl_window (update_active f p r) = rl_window r" "rl_parent (update_active f p r) = rl_parent r"
  "rl_read (update_active f p r) = rl_read r" "rl_expected (update_active f p r) = rl_expected r" "rl_active (update_active f p r) = rl_active r"
  "rl_passive (update_active f p r) = rl_passive r" "rl_fanout (update_active f p r) = rl_fanout r" "rl_waiting (update_active f p r) = rl_waiting r"
  "rl_session_id (update_active f p r) = rl_session_id r" "rl_out (update_active f p r) = rl_out r"
  "dkeys (rl_all (update_active f p r)) = dkeys (rl_all r)" "dict_wf (rl_all r) \<Longrightarrow> dict_wf (rl_all (update_active f p r))"
  "length (rl_all (update_active f p r)) = length (rl_all r)"
  by (simp_all add: update_active_def length_dset dmem_iff split: option.split)

lemma update_passive_fields [simp]:
  "rl_state (update_passive f p r) = rl_state r" "rl_window (update_passive f p r) = rl_window r" "rl_parent (update_passive f p r) = rl_parent r"
  "rl_read (update_passive f p r) = rl_read r" "rl_expected (update_passive f p r) = rl_expected r" "rl_active (update_passive f p r) = rl_active r"
  "rl_passive (update_passive f p r) = rl_passive r" "rl_fanout (update_passive f p r) = rl_fanout r" "rl_waiting (update_passive f p r) = rl_waiting r"
  "rl_session_id (update_passive f p r) = rl_session_id r" "rl_out (update_passive f p r) = rl_out r"
  "dkeys (rl_all (update_passive f p r)) = dkeys (rl_all r)" "dict_wf (rl_all r) \<Longrightarrow> dict_wf (rl_all (update_passive f p r))"
  "length (rl_all (update_passive f p r)) = length (rl_all r)"
  by (simp_all add: update_passive_def length_dset dmem_iff split: option.split)

lemma forward_fields [simp]:
  "rl_state (forward_tree_check_packet p r) = rl_state r" "rl_parent (forward_tree_check_packet p r) = rl_parent r"
  "rl_expected (forward_tree_check_packet p r) = rl_expected r" "rl_passive (forward_tree_check_packet p r) = rl_passive r"
  "rl_fanout (forward_tree_check_packet p r) = rl_fanout r" "rl_waiting (forward_tree_check_packet p r) = rl_waiting r"
  "rl_all (forward_tree_check_packet p r) = rl_all r"
  by (simp_all add: forward_tree_check_packet_def send_msgs_def Let_def)

lemma forward_active:
  "set (rl_active (forward_tree_check_packet p r)) \<subseteq> set (rl_active r) \<union> set (dkeys (rl_all r))"
  "distinct (rl_active r) \<Longrightarrow> distinct (rl_active (forward_tree_check_packet p r))"
  using set_int_slice[of _ _ "dkeys (rl_all r)"]
  by (auto simp: forward_tree_check_packet_def send_msgs_def Let_def dest: subsetD)

lemma forward_inv: "relay_inv r \<Longrightarrow> relay_inv (forward_tree_check_packet p r)"
  using forward_active[where p = p and r = r] by (auto simp: relay_inv_def)

lemma tree_check_finish_inv:
  assumes "relay_inv r" "LINKS_INITIALIZED \<le> rl_state r"
  shows "relay_inv (tree_check_finish p r)"
  using forward_inv[OF assms(1), of p] assms(2) unfolding tree_check_finish_def Let_def
  by (auto simp: relay_inv_def)

lemma waiting_links:
  assumes "relay_inv r" "p \<in> set (rl_waiting r)"
  shows "LINKS_INITIALIZED \<le> rl_state r"
proof (rule ccontr)
  assume "\<not> LINKS_INITIALIZED \<le> rl_state r"
  then have "rl_state r < LINKS_INITIALIZED" by (simp only: not_le)
  then have "dkeys (rl_all r) = []" using assms(1) unfolding relay_inv_def by blast
  then show False using assms by (simp add: relay_inv_def)
qed

lemma update_state_inv:
  assumes "relay_inv r" shows "relay_inv (gossip_update_state addresses r)"
proof (cases "LINKS_INITIALIZED \<le> rl_state r")
  case True
  then show ?thesis using assms by (simp add: gossip_update_state_def del: relay_state_order)
next
  case False
  let ?put = "\<lambda>(peer_id, passive_addr, active_addr). dset peer_id (new_links r passive_addr active_addr)"
  have "dict_wf d \<Longrightarrow> dict_wf (fold ?put addresses d)" for d
    by (induction addresses arbitrary: d) auto
  moreover have "dkeys (rl_all r) = []"
    using False assms unfolding relay_inv_def not_le by blast
  ultimately show ?thesis
    using False assms by (auto simp: gossip_update_state_def relay_inv_def Let_def less_relay_state_def)
qed

lemma tree_check_begin_inv: "relay_inv r \<Longrightarrow> relay_inv (tree_check_begin known p addr r)"
  by (auto simp: tree_check_begin_def may_be_make_rejection_def reject_reason_def relay_inv_def send_msgs_def
      dmem_def simp del: relay_state_order relay_state_less)

lemma relay_step_inv:
  assumes "relay_step r t" "relay_inv r"
  shows "relay_inv t"
  using assms(1)
proof cases
  case (step_session tr)
  then show ?thesis using assms(2) by (auto simp: session_init_def relay_inv_def less_relay_state_def)
next
  case (step_resume p q)
  let ?r = "(update_active (\<lambda>l. l\<lparr>tl_direction := INCOMING\<rparr>) p r)\<lparr>rl_waiting := remove1 p (rl_waiting r)\<rparr>"
  have "relay_inv ?r" using assms(2) set_remove1_subset[of p "rl_waiting r"] by (auto simp: relay_inv_def simp del: relay_state_order relay_state_less)
  then show ?thesis
    unfolding step_resume(1) tree_check_resume_def using waiting_links[OF assms(2) step_resume(2)]
    by (intro tree_check_finish_inv) simp_all
next
  case (step_timeout p)
  have "relay_inv (r\<lparr>rl_parent := ParentCancelled, rl_waiting := []\<rparr>)"
    using assms(2) by (simp add: relay_inv_def)
  then show ?thesis
    unfolding step_timeout(1) tree_check_timeout_def using waiting_links[OF assms(2) step_timeout(2)]
    by (intro tree_check_finish_inv) simp_all
next
  case (step_reject p)
  then show ?thesis using assms(2) forward_inv by (simp add: gossip_tree_reject_def)
next
  case (step_upgrade p outcome)
  then show ?thesis
    using assms(2)
    by (auto simp: gossip_upgrade_connection_def activate_link_def relay_inv_def simp del: relay_state_order relay_state_less
        split: option.split sum.split prod.split)
next
  case (step_downgrade p)
  then show ?thesis
    using assms(2) set_remove1_subset[of p "rl_active r"]
    by (auto simp: gossip_downgrade_connection_def relay_inv_def simp del: relay_state_order relay_state_less)
next
  case (step_stream connection sid p sent)
  then show ?thesis
    using assms(2)
    by (auto simp: gossip_add_stream_link_def relay_inv_def send_msgs_def Let_def simp del: relay_state_order relay_state_less
        split: option.split sum.split)
next
  case step_root
  then show ?thesis using assms(2) by (simp add: relay_inv_def)
qed (use assms(2) update_state_inv tree_check_begin_inv in blast)+

interpretation relays: inv_system relay_start relay_step relay_inv
proof
  show "relay_inv r" if "relay_start r" for r
    using that by (auto simp: relay_start_def PalmTreeRelay_def relay_inv_def less_relay_state_def dkeys_def)
  show "relay_inv t" if "relay_inv r" "relay_step r t" for r t
    using relay_step_inv that by blast
qed

section \<open>Properties of the relay\<close>

lemma relay_step_progress:
  assumes "relay_step r t"
  shows "(rl_parent r \<noteq> Pending \<longrightarrow> rl_parent t = rl_parent r) \<and> rl_state r \<le> rl_state t"
  using assms
proof cases
  case (step_check known p addr)
  then show ?thesis
    by (simp add: tree_check_begin_def may_be_make_rejection_def send_msgs_def)
next
  case (step_upgrade p outcome)
  then show ?thesis
    by (auto simp: gossip_upgrade_connection_def activate_link_def split: option.split sum.split prod.split)
next
  case (step_stream connection sid p sent)
  then show ?thesis
    by (auto simp: gossip_add_stream_link_def send_msgs_def Let_def split: option.split sum.split)
qed (auto simp: session_init_def gossip_update_state_def Let_def tree_check_resume_def tree_check_timeout_def
    tree_check_finish_def gossip_tree_reject_def gossip_downgrade_connection_def)

lemma active_link_update: "active_link q (update_active f p r) =
    (if q = p then map_option f (active_link p r) else active_link q r)"
  by (auto simp: active_link_def update_active_def split: option.split)

lemma relay_step_new_parent:
  assumes "relay_step r t" "rl_parent r = Pending" "rl_parent t = ParentLink p"
  shows "p \<in> set (rl_expected r)" "p \<in> set (rl_active r)" "\<exists>l. active_link p t = Some l \<and> is_online l"
proof -
  have "p \<in> set (rl_expected r) \<and> p \<in> set (rl_active r) \<and> (\<exists>l. active_link p t = Some l \<and> is_online l)"
    using assms(1)
  proof cases
    case (step_stream connection sid q sent)
    let ?u = "update_active (set_connection connection) q r"
    have link: "active_link q ((send_msgs m ?u)\<lparr>rl_parent := x\<rparr>) = active_link q ?u" for m x
      by (simp add: send_msgs_def active_link_def)
    from step_stream assms(2,3) show ?thesis
      by (auto simp: gossip_add_stream_link_def link active_link_update set_connection_def is_online_def Let_def
          split: if_splits option.splits sum.splits)
  next
    case (step_check known q addr)
    then show ?thesis using assms(2,3)
      by (simp add: tree_check_begin_def may_be_make_rejection_def send_msgs_def split: if_splits)
  next
    case (step_upgrade q outcome)
    then show ?thesis using assms(2,3)
      by (auto simp: gossip_upgrade_connection_def activate_link_def split: option.splits sum.splits prod.splits if_splits)
  qed (use assms(2,3) in \<open>auto simp: session_init_def gossip_update_state_def Let_def tree_check_resume_def
    tree_check_timeout_def tree_check_finish_def gossip_tree_reject_def gossip_downgrade_connection_def split: if_splits\<close>)
  then show "p \<in> set (rl_expected r)" "p \<in> set (rl_active r)" "\<exists>l. active_link p t = Some l \<and> is_online l"
    by blast+
qed



text \<open>
  C38. One late parent is enough to cut a relay off: when the connection does not arrive within the
  first timeout the parent future is cancelled for good, the relay passes the tree check on and
  reports \<open>TREE_CHECK_DONE\<close> although it has no parent, and whatever happens afterwards it closes
  every connection that comes in over a link that is not online. The two further upgrade requests
  and the \<open>ConnectionRefusedError\<close> of \<open>_send_upgrade_packet\<close> are never reached.
\<close>

theorem tree_check_timeout_orphans:
  assumes "p \<in> set (rl_waiting r)" "rl_parent r = Pending"
    and "relay_step\<^sup>*\<^sup>* (tree_check_timeout p r) t"
    and "q \<in> set (rl_active t)" "active_link q t = Some l" "tl_status l = LinkOffline"
  shows "rl_state t = TREE_CHECK_DONE \<and> rl_parent t = ParentCancelled \<and>
    gossip_add_stream_link connection (rl_session_id t) q sent t = (Inr (), t\<lparr>rl_closed := rl_closed t @ [connection]\<rparr>)"
proof -
  have "rl_state t = TREE_CHECK_DONE \<and> rl_parent t = ParentCancelled"
    using assms(3)
  proof (induction rule: rtranclp_induct)
    case base
    then show ?case by (simp add: tree_check_timeout_def tree_check_finish_def Let_def)
  next
    case (step s t)
    then show ?case using relay_step_progress[OF step(2)] by auto
  qed
  then show ?thesis
    using assms(4-6) by (simp add: gossip_add_stream_link_def is_online_def is_lagging_def)
qed

definition example_relay :: relay where
  "example_relay = tree_check_begin True (PInt 1) []
     (gossip_update_state [(PInt 1, [], []), (PInt 2, [], [])] (PalmTreeRelay 1 (PInt 7)))"

lemmas example_relay_simps = example_relay_def tree_check_begin_def gossip_update_state_def PalmTreeRelay_def
  may_be_make_rejection_def reject_reason_def send_msgs_def add_key_def dmem_def dkeys_def new_links_def TreeLink_def Let_def

theorem tree_check_timeout_orphans_witness:
  "rl_parent (tree_check_timeout (PInt 1) example_relay) = ParentCancelled \<and>
   (\<exists>r. gossip_add_stream_link 5 (PInt 7) (PInt 1) (Inr ()) (tree_check_timeout (PInt 1) example_relay) = (Inr (), r) \<and>
     5 \<in> set (rl_closed r))"
proof -
  let ?t = "tree_check_timeout (PInt 1) example_relay"
  have 1: "PInt 1 \<in> set (rl_waiting example_relay)" "rl_parent example_relay = Pending"
    by (simp_all add: example_relay_simps)
  have sid: "rl_session_id ?t = PInt 7"
    by (simp add: example_relay_simps tree_check_timeout_def tree_check_finish_def forward_tree_check_packet_def)
  have act: "PInt 1 \<in> set (rl_active ?t)"
    by (simp add: example_relay_simps tree_check_timeout_def tree_check_finish_def forward_tree_check_packet_def)
  have link: "active_link (PInt 1) ?t = Some (TreeLink [] None ACTIVE)"
    by (simp add: example_relay_simps active_link_def tree_check_timeout_def tree_check_finish_def
        forward_tree_check_packet_def)
  have st: "tl_status (TreeLink [] None ACTIVE) = LinkOffline" by (simp add: TreeLink_def)
  from tree_check_timeout_orphans[OF 1 rtranclp.rtrancl_refl act link st, of 5 "Inr ()"] show ?thesis
    unfolding sid by simp
qed

text \<open>
  The comment in \<open>forward_tree_check_packet\<close> promises not to exceed the fan-out; the slice includes
  its end, so the first round invites one peer more.
\<close>

lemma forward_exceeds_fanout:
  assumes "rl_window r = 0" "rl_active r = []" "rl_fanout r < length (rl_all r)" "\<not> dmem sender_id (rl_all r)"
    "dict_wf (rl_all r)"
  shows "rl_out (forward_tree_check_packet sender_id r) =
      rl_out r @ map TreeCheckTo (take (Suc (rl_fanout r)) (dkeys (rl_all r)))"
    and "length (rl_active (forward_tree_check_packet sender_id r)) = Suc (rl_fanout r)"
proof -
  let ?k = "take (Suc (rl_fanout r)) (dkeys (rl_all r))"
  have len: "length (dkeys (rl_all r)) = length (rl_all r)" by (simp add: dkeys_def)
  have "int_slice 0 (int (rl_fanout r) + 1) (dkeys (rl_all r)) = ?k"
    using assms(3) len by (simp add: int_slice_def slice_bound_def pyslice_def nat_add_distrib)
  moreover have "filter (\<lambda>p. p \<noteq> sender_id) ?k = ?k"
    using assms(4) by (intro filter_True) (auto simp: dmem_def dest: in_set_takeD)
  ultimately have r: "forward_tree_check_packet sender_id r =
      send_msgs (map TreeCheckTo ?k) (r\<lparr>rl_window := int (rl_fanout r), rl_active := fold add_key ?k []\<rparr>)"
    using assms(1-3) by (simp add: forward_tree_check_packet_def Let_def)
  then show "rl_out (forward_tree_check_packet sender_id r) = rl_out r @ map TreeCheckTo ?k"
    by (simp add: send_msgs_def)
  have "distinct ?k" using assms(5) by (simp add: dict_wf_def dkeys_def)
  then show "length (rl_active (forward_tree_check_packet sender_id r)) = Suc (rl_fanout r)"
    using assms(3) len by (simp add: r send_msgs_def length_add_keys)
qed

end
