(* ===== verification/Otm.thy ===== *)
theory Otm
  imports Palm_Tree File_Transfer
begin

text \<open>
  One-to-many file transfer over the relay tree: \<open>src/transfers/otm/receiver.py\<close> (the files of a
  session written from one stream of chunks), \<open>src/transfers/otm/relay.py\<close> (reading and forwarding)
  and \<open>src/transfers/otm/sender.py\<close>.
\<close>

section \<open>Receiving files from one stream\<close>

record otm_receiver =
  or_items :: "file_item list"
  or_sums :: "nat list"
  or_index :: nat
  or_total :: "nat option"
  or_data :: "bytes list"

definition FilesReceiver :: otm_receiver where
  "FilesReceiver = \<lparr>or_items = [], or_sums = [], or_index = 0, or_total = None, or_data = []\<rparr>"

fun load_items :: "(bytes \<Rightarrow> pyval res) \<Rightarrow> path \<Rightarrow> pyval list \<Rightarrow> file_item list res" where
  "load_items loads d [] = Inr []"
| "load_items loads d (PBytes b # vs) =
     res_bind (FileItem_load_from False loads b d) (\<lambda>it. map_sum id (Cons it) (load_items loads d vs))"
| "load_items loads d (v # vs) = Inl TypeError"

definition item_size :: "file_item \<Rightarrow> nat" where
  "item_size it = nat (case fi_size it of None \<Rightarrow> 0 | Some z \<Rightarrow> z)"

fun running_sums :: "nat \<Rightarrow> nat list \<Rightarrow> nat list" where
  "running_sums acc [] = []"
| "running_sums acc (n # ns) = (acc + n) # running_sums (acc + n) ns"

text \<open>
  \<open>_load_files_metadata\<close>: an empty list fails at \<open>file_items[0]\<close>, and \<open>array('I')\<close> holds 32-bit
  unsigned numbers.
\<close>

definition load_files_metadata ::
    "(bytes \<Rightarrow> pyval res) \<Rightarrow> path \<Rightarrow> bytes \<Rightarrow> otm_receiver \<Rightarrow> unit res \<times> otm_receiver" where
  "load_files_metadata loads d file_data r =
     (case loads file_data of
        Inl e \<Rightarrow> (Inl e, r)
      | Inr v \<Rightarrow>
          (case py_iter v of
             None \<Rightarrow> (Inl TypeError, r)
           | Some vs \<Rightarrow>
               (case load_items loads d vs of
                  Inl e \<Rightarrow> (Inl e, r)
                | Inr items \<Rightarrow>
                    (let r1 = r\<lparr>or_items := items\<rparr>; totals = running_sums 0 (map item_size items)
                     in if items = [] then (Inl IndexError, r1)
                        else if \<exists>s \<in> set totals. 2 ^ 32 \<le> s then (Inl OverflowError, r1)
                        else (Inr (), r1\<lparr>or_sums := totals, or_total := Some (last totals), or_data := map (\<lambda>_. []) items\<rparr>)))))"

text \<open>
  \<open>_write_chunk\<close> on the sizes and the contents written so far; a chunk that runs over the end of a
  file goes on in the next one, and what is left after the last file is dropped. The position of an
  item is the number of bytes written to it.
\<close>

function write_chunk :: "nat list \<Rightarrow> nat \<Rightarrow> bytes \<Rightarrow> bytes list \<Rightarrow> unit res \<times> nat \<times> bytes list" where
  "write_chunk sizes i chunk data =
     (if length sizes \<le> i then (Inl IndexError, i, data)
      else let piece = take (min (sizes ! i - length (data ! i)) (length chunk)) chunk;
               data' = data[i := data ! i @ piece]
           in if length chunk - length piece > 0
              then if Suc i = length sizes then (Inr (), Suc i, data')
                   else write_chunk sizes (Suc i) (drop (length piece) chunk) data'
              else (Inr (), i, data'))"
  by pat_completeness auto

termination write_chunk
  by (relation "measure (\<lambda>(sizes, i, chunk, data). length sizes - i)") auto

declare write_chunk.simps [simp del]

text \<open>\<open>bisect_left\<close> on a sorted array: the index of the first entry that is not smaller.\<close>

definition bisect_left :: "nat list \<Rightarrow> nat \<Rightarrow> nat" where
  "bisect_left a x = length (takeWhile (\<lambda>y. y < x) a)"

definition align_corresponding_chunk :: "nat \<Rightarrow> nat \<Rightarrow> otm_receiver \<Rightarrow> otm_receiver" where
  "align_corresponding_chunk chunk_counter chunk_size r =
     r\<lparr>or_index := bisect_left (or_sums r) (chunk_counter * chunk_size)\<rparr>"

text \<open>One round of \<open>data_receiver\<close> on the bytes of a chunk.\<close>

definition receive_chunk :: "nat \<Rightarrow> nat \<Rightarrow> bytes \<Rightarrow> otm_receiver \<Rightarrow> unit res \<times> otm_receiver" where
  "receive_chunk chunk_counter chunk_size chunk r =
     (let r1 = align_corresponding_chunk chunk_counter chunk_size r
      in case write_chunk (map item_size (or_items r1)) (or_index r1) chunk (or_data r1) of
           (out, i, data) \<Rightarrow> (out, r1\<lparr>or_index := i, or_data := data\<rparr>))"

fun receive_chunks :: "nat \<Rightarrow> nat \<Rightarrow> bytes list \<Rightarrow> otm_receiver \<Rightarrow> unit res \<times> otm_receiver" where
  "receive_chunks k chunk_size [] r = (Inr (), r)"
| "receive_chunks k chunk_size (c # cs) r =
     (case receive_chunk k chunk_size c r of
        (Inl e, r1) \<Rightarrow> (Inl e, r1)
      | (Inr _, r1) \<Rightarrow> receive_chunks (Suc k) chunk_size cs r1)"

subsection \<open>Specification: cutting the stream at the file sizes\<close>

fun split_stream :: "nat list \<Rightarrow> bytes \<Rightarrow> bytes list" where
  "split_stream [] xs = []"
| "split_stream (n # ns) xs = take n xs # split_stream ns (drop n xs)"

lemma length_split_stream [simp]: "length (split_stream ns xs) = length ns"
  by (induction ns arbitrary: xs) auto

lemma nth_split_stream:
  "i < length ns \<Longrightarrow> split_stream ns xs ! i = take (ns ! i) (drop (sum_list (take i ns)) xs)"
proof (induction ns arbitrary: xs i)
  case (Cons n ns)
  then show ?case by (cases i) (simp_all add: add.commute)
qed simp

lemma split_stream_append:
  assumes "i < length ns" "sum_list (take i ns) \<le> length d" "length d + length p \<le> sum_list (take (Suc i) ns)"
  shows "(split_stream ns d)[i := split_stream ns d ! i @ p] = split_stream ns (d @ p)"
proof (rule nth_equalityI)
  fix j assume "j < length ((split_stream ns d)[i := split_stream ns d ! i @ p])"
  then have j: "j < length ns" by simp
  have le: "sum_list (take a ns) \<le> sum_list (take b ns)" if "a \<le> b" for a b
    using that by (metis le_add1 sum_list_append take_add le_add_diff_inverse)
  have S: "sum_list (take (Suc k) ns) = sum_list (take k ns) + ns ! k" if "k < length ns" for k
    using that by (simp add: take_Suc_conv_app_nth)
  consider "j < i" | "j = i" | "i < j" by linarith
  then show "(split_stream ns d)[i := split_stream ns d ! i @ p] ! j = split_stream ns (d @ p) ! j"
  proof cases
    case 1
    then have "sum_list (take j ns) + ns ! j \<le> length d"
      using le[of "Suc j" i] S[OF j] assms(2) by simp
    then show ?thesis using 1 j by (simp add: nth_split_stream)
  next
    case 2
    then show ?thesis using assms S[OF assms(1)] by (simp add: nth_split_stream)
  next
    case 3
    then have "length d + length p \<le> sum_list (take j ns)"
      using le[of "Suc i" j] assms(3) by simp
    then show ?thesis using 3 j by (simp add: nth_split_stream)
  qed
qed simp

lemma write_chunk_split:
  assumes "i < length ns" "sum_list (take i ns) \<le> length d" "length d \<le> sum_list (take (Suc i) ns)"
    "length d + length chunk \<le> sum_list ns"
  shows "\<exists>j. write_chunk ns i chunk (split_stream ns d) = (Inr (), j, split_stream ns (d @ chunk))"
  using assms
proof (induction "length ns - i" arbitrary: i d chunk)
  case 0
  then show ?case by simp
next
  case (Suc k)
  let ?off = "sum_list (take i ns)"
  have S: "sum_list (take (Suc i) ns) = ?off + ns ! i"
    using Suc.prems(1) by (simp add: take_Suc_conv_app_nth)
  let ?room = "ns ! i - length (split_stream ns d ! i)"
  let ?piece = "take (min ?room (length chunk)) chunk"
  have room: "?room = sum_list (take (Suc i) ns) - length d"
    using Suc.prems S by (simp add: nth_split_stream)
  have upd: "(split_stream ns d)[i := split_stream ns d ! i @ ?piece] = split_stream ns (d @ ?piece)"
    using Suc.prems room by (intro split_stream_append) simp_all
  show ?case
  proof (cases "length chunk \<le> ?room")
    case True
    then show ?thesis
      using Suc.prems(1) upd by (subst write_chunk.simps) (simp add: Let_def)
  next
    case False
    let ?d = "d @ ?piece" and ?rest = "drop (length ?piece) chunk"
    have len: "length ?d = sum_list (take (Suc i) ns)"
      using False room Suc.prems(3) by simp
    have "sum_list ns = sum_list (take (Suc i) ns) + sum_list (drop (Suc i) ns)"
      by (metis append_take_drop_id sum_list_append)
    moreover have "length ?rest > 0" using False by simp
    moreover have rest: "length ?d + length ?rest \<le> sum_list ns" using Suc.prems(4) by simp
    ultimately have "Suc i \<noteq> length ns" using len by auto
    then have si: "Suc i < length ns" using Suc.prems(1) by simp
    have "length ?d \<le> sum_list (take (Suc (Suc i)) ns)"
      using len si by (simp add: take_Suc_conv_app_nth)
    then obtain j where "write_chunk ns (Suc i) ?rest (split_stream ns ?d) = (Inr (), j, split_stream ns (?d @ ?rest))"
      using Suc.hyps(1)[of "Suc i" ?d ?rest] Suc.hyps(2) si len rest by fastforce
    moreover have "?d @ ?rest = d @ chunk" by (simp add: min_def)
    ultimately show ?thesis
      using False Suc.prems(1) si upd by (subst write_chunk.simps) (simp add: Let_def)
  qed
qed

lemma nth_running_sums: "i < length ns \<Longrightarrow> running_sums a ns ! i = a + sum_list (take (Suc i) ns)"
proof (induction ns arbitrary: a i)
  case (Cons n ns)
  then show ?case by (cases i) simp_all
qed simp

lemma length_running_sums [simp]: "length (running_sums a ns) = length ns"
  by (induction ns arbitrary: a) auto

text \<open>The index found by bisection is the file the position lies in.\<close>

lemma bisect_running_sums:
  assumes "ns \<noteq> []" "x \<le> sum_list ns" "i = bisect_left (running_sums 0 ns) x"
  shows "i < length ns" "sum_list (take i ns) \<le> x" "x \<le> sum_list (take (Suc i) ns)"
proof -
  let ?s = "running_sums 0 ns"
  have last: "?s ! (length ns - 1) = sum_list ns"
    using assms(1) by (subst nth_running_sums) auto
  have "\<exists>y \<in> set ?s. \<not> y < x"
  proof (rule bexI)
    show "\<not> ?s ! (length ns - 1) < x" using last assms(2) by simp
    show "?s ! (length ns - 1) \<in> set ?s" using assms(1) by (intro nth_mem) simp
  qed
  then have "takeWhile (\<lambda>y. y < x) ?s \<noteq> ?s" by (metis takeWhile_eq_all_conv)
  then show i: "i < length ns"
    using assms(3) by (metis bisect_left_def length_running_sums length_takeWhile_le nat_less_le takeWhile_eq_take take_all_iff)
  have "\<not> ?s ! i < x"
    using i assms(3) nth_length_takeWhile[of "\<lambda>y. y < x" ?s] by (simp add: bisect_left_def)
  then show "x \<le> sum_list (take (Suc i) ns)" using i by (simp add: nth_running_sums)
  show "sum_list (take i ns) \<le> x"
  proof (cases i)
    case (Suc j)
    then have "?s ! j < x"
      using assms(3) takeWhile_nth[of j "\<lambda>y. y < x" ?s] set_takeWhileD[of "?s ! j" "\<lambda>y. y < x" ?s]
        nth_mem[of j "takeWhile (\<lambda>y. y < x) ?s"] by (simp add: bisect_left_def)
    then show ?thesis using i Suc by (simp add: nth_running_sums)
  qed simp
qed

text \<open>A stream cut into chunks of the session's size, the last one possibly shorter.\<close>

fun chunks_of :: "nat \<Rightarrow> bytes \<Rightarrow> bytes list" where
  "chunks_of n xs = (if n = 0 \<or> xs = [] then [] else take n xs # chunks_of n (drop n xs))"

declare chunks_of.simps [simp del]

definition receiver_ready :: "otm_receiver \<Rightarrow> bool" where
  "receiver_ready r \<longleftrightarrow> or_items r \<noteq> [] \<and> or_sums r = running_sums 0 (map item_size (or_items r))"

lemma receive_chunks_split:
  assumes "0 < n" "receiver_ready r" "or_data r = split_stream (map item_size (or_items r)) d"
    "length d = k * n \<or> xs = []" "length d + length xs \<le> sum_list (map item_size (or_items r))"
  shows "\<exists>r'. receive_chunks k n (chunks_of n xs) r = (Inr (), r') \<and>
    or_data r' = split_stream (map item_size (or_items r)) (d @ xs) \<and> or_items r' = or_items r"
  using assms
proof (induction n xs arbitrary: r d k rule: chunks_of.induct)
  case (1 n xs)
  show ?case
  proof (cases "xs = []")
    case True
    then show ?thesis using "1.prems" by (auto simp: chunks_of.simps)
  next
    case False
    let ?ns = "map item_size (or_items r)"
    define c where "c = take n xs"
    define i where "i = bisect_left (running_sums 0 ?ns) (k * n)"
    have d: "length d = k * n" using "1.prems"(4) False by simp
    have "?ns \<noteq> []" "k * n \<le> sum_list ?ns" using "1.prems" d by (simp_all add: receiver_ready_def)
    note i = bisect_running_sums[OF this i_def]
    have "length d + length c \<le> sum_list ?ns" using "1.prems"(5) by (simp add: c_def min_def split: if_splits)
    then obtain j where "write_chunk ?ns i c (split_stream ?ns d) = (Inr (), j, split_stream ?ns (d @ c))"
      using write_chunk_split[of i ?ns d c] i d by auto
    then obtain r1 where r1: "receive_chunk k n c r = (Inr (), r1)" "or_items r1 = or_items r"
        "or_sums r1 = or_sums r" "or_data r1 = split_stream ?ns (d @ c)"
      using "1.prems"(2,3) by (simp add: receive_chunk_def align_corresponding_chunk_def receiver_ready_def i_def Let_def)
    have "receiver_ready r1" using "1.prems"(2) r1 by (simp add: receiver_ready_def)
    moreover have "length (d @ c) = Suc k * n \<or> drop n xs = []"
      using d by (auto simp: c_def)
    moreover have "length (d @ c) + length (drop n xs) \<le> sum_list (map item_size (or_items r1))"
      using "1.prems"(5) r1(2) by (simp add: c_def)
    ultimately obtain r' where "receive_chunks (Suc k) n (chunks_of n (drop n xs)) r1 = (Inr (), r')"
      "or_data r' = split_stream ?ns ((d @ c) @ drop n xs)" "or_items r' = or_items r1"
      using "1.IH"[of r1 "d @ c" "Suc k"] r1 False "1.prems"(1) by auto
    moreover have "chunks_of n xs = c # chunks_of n (drop n xs)"
      using False "1.prems"(1) by (subst chunks_of.simps) (simp add: c_def)
    ultimately show ?thesis
      using r1 by (simp add: c_def)
  qed
qed

lemma split_stream_concat: "map length cs = ns \<Longrightarrow> split_stream ns (concat cs) = cs"
  by (induction cs arbitrary: ns) auto

lemma split_stream_empty: "split_stream ns [] = map (\<lambda>_. []) ns"
  by (induction ns) auto

lemma load_files_metadata_ready:
  assumes "load_files_metadata loads d meta r0 = (Inr (), r)"
  shows "receiver_ready r" "or_data r = split_stream (map item_size (or_items r)) []"
  using assms
  by (auto simp: load_files_metadata_def receiver_ready_def split_stream_empty Let_def
      split: sum.splits option.splits if_splits)



text \<open>The running totals are kept in 32 bits: a session of 4 GiB or more is refused by the receiver.\<close>

lemma otm_metadata_overflow:
  assumes "loads meta = Inr (PList vs)" "load_items loads d vs = Inr items"
    "2 ^ 32 \<le> sum_list (map item_size items)"
  shows "fst (load_files_metadata loads d meta r) = Inl OverflowError"
proof -
  have ne: "items \<noteq> []" using assms(3) by auto
  let ?s = "running_sums 0 (map item_size items)"
  have "?s ! (length items - 1) = sum_list (map item_size items)"
    using ne by (subst nth_running_sums) simp_all
  moreover have "?s ! (length items - 1) \<in> set ?s" using ne by (intro nth_mem) simp
  ultimately have "\<exists>x \<in> set ?s. 2 ^ 32 \<le> x" using assms(3) by metis
  then show ?thesis
    using assms(1,2) ne by (simp add: load_files_metadata_def Let_def)
qed

section \<open>Reading and forwarding\<close>

text \<open>
  The loop of \<open>_start_reader\<close> over the chunks the read link delivers: the number of chunks handled
  and whether it has come to \<open>fill_partial_chunks\<close>, its only normal end.
\<close>

fun start_reader :: "nat \<Rightarrow> nat \<Rightarrow> bytes list \<Rightarrow> bool \<times> nat" where
  "start_reader total_len chunk_counter [] = (False, chunk_counter)"
| "start_reader total_len chunk_counter (chunk # cs) =
     (if chunk_counter * length chunk \<ge> total_len then (True, chunk_counter)
      else start_reader total_len (Suc chunk_counter) cs)"

lemma start_reader_running:
  assumes "0 < n" "xs \<noteq> []" "k * n + length xs = total_len"
  shows "\<exists>m. start_reader total_len k (chunks_of n xs) = (False, m)"
  using assms
proof (induction n xs arbitrary: k rule: chunks_of.induct)
  case (1 n xs)
  have "length (take n xs) \<le> n" by simp
  then have "k * length (take n xs) \<le> k * n" by (rule mult_le_mono2)
  then have "\<not> k * length (take n xs) \<ge> total_len"
    using "1.prems"(2,3) length_greater_0_conv[of xs] by linarith
  moreover have "chunks_of n xs = take n xs # chunks_of n (drop n xs)"
    using "1.prems" by (subst chunks_of.simps) simp
  moreover have "\<exists>m. start_reader total_len (Suc k) (chunks_of n (drop n xs)) = (False, m)"
  proof (cases "drop n xs = []")
    case True
    then show ?thesis by (simp add: chunks_of.simps)
  next
    case False
    then show ?thesis using 1 by (auto intro!: "1.IH")
  qed
  ultimately show ?case by (simp del: length_take)
qed

text \<open>
  The test that ends \<open>_start_reader\<close> multiplies the index of a chunk with its length. For a stream
  cut at the session's chunk size it never succeeds: the relay goes on reading after the last byte.
\<close>

lemma reader_never_finishes:
  assumes "0 < n" "xs \<noteq> []"
  shows "\<not> fst (start_reader (length xs) 0 (chunks_of n xs))"
  using start_reader_running[of n xs 0 "length xs"] assms by auto

text \<open>
  \<open>_forward_chunk\<close>: \<open>sent p\<close> is the outcome of sending to the child \<open>p\<close>; a child that does not take
  the chunk in time is marked as lagging.
\<close>

fun forward_to :: "(pyval \<Rightarrow> unit res) \<Rightarrow> pyval list \<Rightarrow> relay \<Rightarrow> unit res \<times> relay" where
  "forward_to sent [] r = (Inr (), r)"
| "forward_to sent (p # ps) r =
     (case active_link p r of
        None \<Rightarrow> (Inl KeyError, r)
      | Some l \<Rightarrow>
          if is_lagging l then forward_to sent ps r
          else (case sent p of
                  Inr _ \<Rightarrow> forward_to sent ps r
                | Inl e \<Rightarrow>
                    if e = TimeoutError
                    then forward_to sent ps (update_active (\<lambda>l. l\<lparr>tl_status := LinkLagging\<rparr>) p r)
                    else (Inl e, r)))"

definition forward_chunk :: "(pyval \<Rightarrow> unit res) \<Rightarrow> relay \<Rightarrow> unit res \<times> relay" where
  "forward_chunk sent r = forward_to sent (get_forward_links r) r"

text \<open>\<open>OTMFilesRelay.gossip_tree_check\<close> ends by taking the parent as the link to read from.\<close>

definition otm_set_read_link :: "relay \<Rightarrow> relay" where
  "otm_set_read_link r = (case rl_parent r of ParentLink p \<Rightarrow> r\<lparr>rl_read := Some p\<rparr> | ParentNone \<Rightarrow> r\<lparr>rl_read := None\<rparr> | _ \<Rightarrow> r)"

section \<open>Sending\<close>

text \<open>
  \<open>FilesSender.send_file\<close>: the loop over the offsets only reads; the call that sends stands after
  it. With no offset the name \<open>chunk\<close> is unbound.
\<close>

definition otm_send_file :: "nat \<Rightarrow> fs \<Rightarrow> file_item \<Rightarrow> bytes res" where
  "otm_send_file chunk_size f it =
     (case dget f (fi_path it) of
        None \<Rightarrow> Inl FileNotFoundError
      | Some content \<Rightarrow>
          if content = [] then Inl ValueError
          else case fi_size it of
            None \<Rightarrow> Inl AttributeError
          | Some sz \<Rightarrow>
              (let offsets = py_range (nat (fi_seeked it)) (nat sz) chunk_size
               in if offsets = [] then Inl NameError
                  else Inr (pyslice (last offsets) (last offsets + chunk_size) content)))"

definition make_file_metadata :: "(pyval \<Rightarrow> bytes res) \<Rightarrow> file_item list \<Rightarrow> bytes res" where
  "make_file_metadata dumps items =
     res_bind (fold (\<lambda>it acc. res_bind acc (\<lambda>bs. map_sum id (\<lambda>b. bs @ [PBytes b]) (FileItem_bytes dumps it))) items (Inr []))
       (\<lambda>bs. dumps (PList bs))"

lemma last_chunk_short:
  "0 < c \<Longrightarrow> a < b \<Longrightarrow> \<exists>k. last (py_range a b c) = a + k * c \<and> a + k * c < b \<and> b \<le> a + k * c + c"
proof (induction "b - a" arbitrary: a rule: less_induct)
  case less
  show ?case
  proof (cases "a + c < b")
    case True
    then obtain k where k: "last (py_range (a + c) b c) = a + c + k * c" "a + c + k * c < b" "b \<le> a + c + k * c + c"
      using less(1)[OF diff_less_mono2 less(2) True] less(2,3) by auto
    moreover have "py_range (a + c) b c \<noteq> []" using py_range_rec[OF less(2), of "a + c" b] True by simp
    ultimately show ?thesis
      using py_range_rec[OF less(2), of a b] less(3) by (intro exI[of _ "Suc k"]) simp
  next
    case False
    then show ?thesis
      using py_range_rec[OF less(2), of a b] py_range_rec[OF less(2), of "a + c" b] less(3)
      by (intro exI[of _ 0]) simp
  qed
qed

text \<open>Of a file longer than one chunk only the last chunk is sent.\<close>

lemma otm_send_file_last_chunk:
  assumes "0 < n" "dget f (fi_path it) = Some content" "fi_size it = Some (int (length content))"
    "fi_seeked it = 0" "n < length content"
  shows "\<exists>k. 0 < k \<and> otm_send_file n f it = Inr (drop k content) \<and> length (drop k content) \<le> n"
proof -
  obtain k where k: "last (py_range 0 (length content) n) = k * n" "k * n < length content" "length content \<le> k * n + n"
    using last_chunk_short[of n 0 "length content"] assms(1,5) by (metis add_0 gr_zeroI not_less_zero)
  have "k \<noteq> 0" using k(3) assms(5) by (metis add_0 mult_0 not_le)
  moreover have "py_range 0 (length content) n \<noteq> []"
    using py_range_rec[OF assms(1), of 0 "length content"] assms(5) by (auto simp: not_less_eq)
  ultimately show ?thesis
    using assms k by (intro exI[of _ "k * n"]) (auto simp: otm_send_file_def pyslice_def Let_def)
qed

end
