(* ===== verification/Call_Context.thy ===== *)
theory Call_Context
  imports Prelude
begin

text \<open>
  The helpers of \<open>src/avails/useables.py\<close> that look at the caller and wrap functions: \<open>awaitable\<close>,
  which picks the synchronous or the asynchronous version of a function by its calling context,
  \<open>sync\<close>, \<open>wrap_with_tryexcept\<close>, \<open>spawn_task\<close> and \<open>NotInUse\<close>.

  A code object is its name and two flags. The call stack is the list of the code objects of the
  frames from the caller outwards; the frames of the helpers themselves are left out, and the levels
  the source counts (two, and two more for each of its own recursive calls) skip exactly these.
\<close>

section \<open>The calling context\<close>

record code =
  co_name :: string
  co_coroutine :: bool
  co_nested :: bool

type_synonym context_cache = "(code, bool) pydict"

text \<open>\<open>from_coroutine\<close> with its cache.\<close>

fun from_coroutine :: "code list \<Rightarrow> context_cache \<Rightarrow> bool res \<times> context_cache" where
  "from_coroutine [] cache = (Inl ValueError, cache)"
| "from_coroutine (f_code # outer) cache =
     (case dget cache f_code of
        Some b \<Rightarrow> (Inr b, cache)
      | None \<Rightarrow>
          if co_coroutine f_code then (Inr True, dset f_code True cache)
          else if co_nested f_code \<and> take 1 (co_name f_code) = ''<'' then from_coroutine outer cache
          else (Inr False, dset f_code False cache))"

text \<open>
  What it is to compute: the nearest frame that is not a lambda or comprehension nested in another
  function decides, and it is in a coroutine exactly when its code is one.
\<close>

definition transparent :: "code \<Rightarrow> bool" where
  "transparent c \<longleftrightarrow> \<not> co_coroutine c \<and> co_nested c \<and> take 1 (co_name c) = ''<''"

definition calling_context :: "code list \<Rightarrow> bool res" where
  "calling_context stack = (case dropWhile transparent stack of [] \<Rightarrow> Inl ValueError | c # _ \<Rightarrow> Inr (co_coroutine c))"

definition cache_sound :: "context_cache \<Rightarrow> bool" where
  "cache_sound cache \<longleftrightarrow> (\<forall>c b. dget cache c = Some b \<longrightarrow> \<not> transparent c \<and> b = co_coroutine c)"

lemma from_coroutine_sound:
  assumes "cache_sound cache"
  shows "fst (from_coroutine stack cache) = calling_context stack \<and> cache_sound (snd (from_coroutine stack cache))"
  using assms
proof (induction stack)
  case Nil
  then show ?case by (simp add: calling_context_def)
next
  case (Cons c stack)
  show ?case
  proof (cases "dget cache c")
    case None
    show ?thesis
    proof (cases "transparent c")
      case True
      then have "from_coroutine (c # stack) cache = from_coroutine stack cache"
        using None by (simp add: transparent_def)
      then show ?thesis using Cons True by (simp add: calling_context_def)
    next
      case False
      then have "from_coroutine (c # stack) cache = (Inr (co_coroutine c), dset c (co_coroutine c) cache)"
        using None by (auto simp: transparent_def)
      then show ?thesis using Cons.prems False by (auto simp: calling_context_def cache_sound_def)
    qed
  next
    case (Some b)
    then have "\<not> transparent c" "b = co_coroutine c" using Cons.prems by (auto simp: cache_sound_def)
    then show ?thesis using Some Cons.prems by (simp add: calling_context_def)
  qed
qed

section \<open>awaitable\<close>

text \<open>The wrapper of a pair of functions: which of the two it calls, or the exception.\<close>

definition awaitable_call :: "('a \<Rightarrow> 'r) \<Rightarrow> ('a \<Rightarrow> 'r) \<Rightarrow> code list \<Rightarrow> 'a \<Rightarrow> context_cache \<Rightarrow> 'r res \<times> context_cache" where
  "awaitable_call syncfunc asyncfunc stack args cache =
     (case from_coroutine stack cache of
        (Inl e, cache') \<Rightarrow> (Inl e, cache')
      | (Inr b, cache') \<Rightarrow> (Inr ((if b then asyncfunc else syncfunc) args), cache'))"

fun awaitable_calls :: "('a \<Rightarrow> 'r) \<Rightarrow> ('a \<Rightarrow> 'r) \<Rightarrow> (code list \<times> 'a) list \<Rightarrow> context_cache \<Rightarrow> 'r res list" where
  "awaitable_calls syncfunc asyncfunc [] cache = []"
| "awaitable_calls syncfunc asyncfunc ((stack, args) # calls) cache =
     (case awaitable_call syncfunc asyncfunc stack args cache of
        (r, cache') \<Rightarrow> r # awaitable_calls syncfunc asyncfunc calls cache')"

text \<open>
  C34. Caching the context of code objects is transparent: in every sequence of calls, whatever has been
  called from where before, \<open>awaitable\<close> picks the asynchronous function exactly when the nearest frame
  that is not a nested lambda or comprehension is a coroutine, and the synchronous one otherwise, as
  the definition without a cache says.
\<close>

theorem awaitable_cache_transparent:
  "awaitable_calls syncfunc asyncfunc calls [] =
     map (\<lambda>(stack, args). map_sum id (\<lambda>b. (if b then asyncfunc else syncfunc) args) (calling_context stack)) calls"
proof -
  have "awaitable_calls syncfunc asyncfunc calls cache =
      map (\<lambda>(stack, args). map_sum id (\<lambda>b. (if b then asyncfunc else syncfunc) args) (calling_context stack)) calls"
    if "cache_sound cache" for cache
    using that
  proof (induction calls arbitrary: cache)
    case (Cons c calls)
    obtain stack args where c: "c = (stack, args)" by (cases c)
    obtain r cache' where r: "from_coroutine stack cache = (r, cache')" by fastforce
    then have "r = calling_context stack" "cache_sound cache'"
      using from_coroutine_sound[OF Cons.prems, of stack] by simp_all
    then show ?case
      using Cons.IH[of cache'] r by (cases "calling_context stack") (simp_all add: c awaitable_call_def)
  qed simp
  then show ?thesis by (simp add: cache_sound_def)
qed

section \<open>Coroutines run by hand, wrappers, tasks\<close>

text \<open>A coroutine that is sent \<open>None\<close> once: it ends, or it suspends on a future.\<close>

datatype ('v, 'f) run = Ends "'v res" | Suspends 'f

datatype ('v, 'f) synced = Value 'v | Yielded 'f

definition sync :: "('v, 'f) run \<Rightarrow> (('v, 'f) synced) res" where
  "sync coro = (case coro of Ends (Inr v) \<Rightarrow> Inr (Value v) | Ends (Inl e) \<Rightarrow> Inl e | Suspends f \<Rightarrow> Inr (Yielded f))"

text \<open>The exceptions that are no \<open>Exception\<close>.\<close>

definition is_Exception :: "py_exn \<Rightarrow> bool" where
  "is_Exception e \<longleftrightarrow> e \<notin> {CancelledError, KeyboardInterrupt, SystemExit}"

text \<open>
  \<open>wrapped_with_tryexcept\<close>: an exception is printed with \<open>func_str(func)\<close> and raised again. A
  \<open>functools.partial\<close> (\<open>named\<close> is \<open>False\<close>) has no \<open>__name__\<close>.
\<close>

definition func_str :: "bool \<Rightarrow> string \<Rightarrow> string res" where
  "func_str named s = (if named then Inr s else Inl AttributeError)"

definition wrap_with_tryexcept :: "bool \<Rightarrow> string \<Rightarrow> 'v res \<Rightarrow> 'v res" where
  "wrap_with_tryexcept named s out = (case out of
     Inr v \<Rightarrow> Inr v
   | Inl e \<Rightarrow> if is_Exception e then (case func_str named s of Inl e' \<Rightarrow> Inl e' | Inr _ \<Rightarrow> Inl e) else Inl e)"

text \<open>
  The task, by the outcome it will have, goes to the keeper of tasks (\<open>keep\<close>), or else to the caller.
  A callback to be called when it is done does not change either.
\<close>

definition spawn_task :: "bool \<Rightarrow> string \<Rightarrow> 'v res \<Rightarrow> bool \<Rightarrow> ('v res) list \<Rightarrow> ('v res) option \<times> ('v res) list" where
  "spawn_task named s out keep kept =
     (let t = wrap_with_tryexcept named s out in if keep then (None, kept @ [t]) else (Some t, kept))"

definition NotInUse_call :: "'a \<Rightarrow> 'v res" where
  "NotInUse_call args = Inl ValueError"

lemma wrapped_outcome: "is_Exception e \<or> named \<Longrightarrow> wrap_with_tryexcept named s (Inl e) = Inl (if named then e else AttributeError)"
  by (auto simp: wrap_with_tryexcept_def func_str_def)

end
