(* ===== verification/Otm_Session.thy ===== *)
theory Otm_Session
  imports Otm Transfer_Managers Call_Context
begin

text \<open>
  A one-to-many session around the relays of theory Palm_Tree: the packets relays exchange and how
  \<open>PalmTreeRelay.datagram_received\<close> turns them into calls (\<open>src/transfers/otm/palm_tree.py\<close>), the
  reading side of \<open>src/transfers/otm/relay.py\<close>, and the sender of \<open>src/transfers/otm/sender.py\<close> with
  the request that announces a session.

  The relay is an \<open>OTMFilesRelay\<close>, the only class the program makes relays of.
\<close>

section \<open>Packets\<close>

definition GOSSIP_UPGRADE_CONN :: string where "GOSSIP_UPGRADE_CONN = ''gossip_upgrade_connection''"
definition GOSSIP_SESSION_STATE_UPDATE :: string where "GOSSIP_SESSION_STATE_UPDATE = ''gossip_update_state''"
definition GOSSIP_UPDATE_STREAM_LINK :: string where "GOSSIP_UPDATE_STREAM_LINK = ''gossip_add_stream_link''"
definition GOSSIP_TREE_CHECK :: string where "GOSSIP_TREE_CHECK = ''gossip_tree_check''"
definition GOSSIP_TREE_REJECT :: string where "GOSSIP_TREE_REJECT = ''gossip_tree_reject''"
definition GOSSIP_TREE_GATHER :: string where "GOSSIP_TREE_GATHER = ''gossip_tree_gather''"
definition OTM_FILE_TRANSFER :: string where "OTM_FILE_TRANSFER = ''one to many file transfer request''"
definition OTM_UPDATE_STREAM_LINK :: string where "OTM_UPDATE_STREAM_LINK = ''otm_add_stream_link''"

lemmas otm_headers = GOSSIP_UPGRADE_CONN_def GOSSIP_SESSION_STATE_UPDATE_def GOSSIP_UPDATE_STREAM_LINK_def
  GOSSIP_TREE_CHECK_def GOSSIP_TREE_REJECT_def GOSSIP_TREE_GATHER_def OTM_FILE_TRANSFER_def OTM_UPDATE_STREAM_LINK_def

definition upgrade_conn_packet :: "pyval \<Rightarrow> wire_data" where
  "upgrade_conn_packet this_peer_id = WireData (PStr GOSSIP_UPGRADE_CONN) this_peer_id PNone WIRE_VERSION []"

definition link_reject_message :: "pyval \<Rightarrow> wire_data" where
  "link_reject_message this_peer_id = WireData (PStr GOSSIP_TREE_REJECT) this_peer_id PNone WIRE_VERSION []"

text \<open>The tree check; a relay that passes it on puts its own id into it.\<close>

definition tree_check_packet :: "pyval \<Rightarrow> pyval \<Rightarrow> pyval \<Rightarrow> wire_data" where
  "tree_check_packet sender message_id session_id =
     WireData (PStr GOSSIP_TREE_CHECK) sender PNone WIRE_VERSION [(''message_id'', message_id), (''session_id'', session_id)]"

definition palm_update_stream_link_packet :: "pyval \<Rightarrow> pyval \<Rightarrow> pyval list \<Rightarrow> wire_data" where
  "palm_update_stream_link_packet this_peer_id session_id passive_addr =
     WireData (PStr GOSSIP_UPDATE_STREAM_LINK) this_peer_id PNone WIRE_VERSION
       [(''session_id'', session_id), (''peer_addr'', PTuple passive_addr)]"

definition make_update_stream_link_packet :: "pyval \<Rightarrow> pyval \<Rightarrow> pyval list \<Rightarrow> wire_data" where
  "make_update_stream_link_packet this_peer_id session_id passive_addr =
     WireData (PStr OTM_UPDATE_STREAM_LINK) this_peer_id PNone WIRE_VERSION
       [(''session_id'', session_id), (''peer_addr'', PTuple passive_addr)]"

definition tree_gather_packet :: "pyval \<Rightarrow> pyval list \<Rightarrow> wire_data" where
  "tree_gather_packet center_id addr =
     WireData (PStr GOSSIP_TREE_GATHER) center_id PNone WIRE_VERSION
       [(''level'', PInt 0), (''parent'', PNone), (''reply_addr'', PTuple addr)]"

definition state_update_packet :: "addresses_mapping \<Rightarrow> wire_data" where
  "state_update_packet addresses =
     WireData (PStr GOSSIP_SESSION_STATE_UPDATE) PNone PNone WIRE_VERSION
       [(''addresses_mapping'', PList (map (\<lambda>(p, a, b). PTuple [p, PTuple a, PTuple b]) addresses))]"

lemmas packet_defs = upgrade_conn_packet_def link_reject_message_def tree_check_packet_def
  palm_update_stream_link_packet_def make_update_stream_link_packet_def tree_gather_packet_def state_update_packet_def

section \<open>Datagrams\<close>

text \<open>
  What the handlers of a relay get from outside: whether the peer of a tree check is found, and the
  outcome of opening a stream connection (\<open>_activate_link\<close>).
\<close>

record relay_env =
  re_known :: bool
  re_stream :: "(nat \<times> bytes res) res"

text \<open>
  The loop of \<open>gossip_update_state\<close> over what has come in: an element that is not a triple of an id and
  two addresses ends it, with the links made so far.
\<close>

fun read_addresses :: "pyval list \<Rightarrow> addresses_mapping \<times> bool" where
  "read_addresses [] = ([], True)"
| "read_addresses (v # vs) =
     (case py_iter v of
        Some [p, a, b] \<Rightarrow>
          (case (py_iter a, py_iter b) of
             (Some a', Some b') \<Rightarrow> map_prod (Cons (p, a', b')) id (read_addresses vs)
           | _ \<Rightarrow> ([], False))
      | _ \<Rightarrow> ([], False))"

definition update_state_rpc :: "wire_data \<Rightarrow> relay \<Rightarrow> relay" where
  "update_state_rpc w r =
     (if LINKS_INITIALIZED \<le> rl_state r then r
      else case dget (w_body w) ''addresses_mapping'' of
        None \<Rightarrow> r
      | Some v \<Rightarrow>
          (case py_iter v of
             None \<Rightarrow> r
           | Some vs \<Rightarrow>
               (case read_addresses vs of
                  (addresses, True) \<Rightarrow> gossip_update_state addresses r
                | (addresses, False) \<Rightarrow>
                    r\<lparr>rl_all := fold (\<lambda>(p, a, b). dset p (new_links r a b)) addresses (rl_all r)\<rparr>)))"

text \<open>
  \<open>forward_tree_check_packet\<close> called with a message and an address: the first send fails, since
  \<open>bytes\<close> of an address is a \<open>TypeError\<close>, but the window has moved.
\<close>

definition forward_rpc :: "relay \<Rightarrow> relay" where
  "forward_rpc r = r\<lparr>rl_window := min (int (length (rl_all r))) (rl_window r + int (rl_fanout r))
     - int (length (filter (online_outgoing r) (rl_active r)))\<rparr>"

text \<open>
  \<open>gossip_tree_gather\<close> raises the level, which may be any number, waits for the parent and answers.
\<close>

definition tree_gather_rpc :: "wire_data \<Rightarrow> relay \<Rightarrow> relay" where
  "tree_gather_rpc w r =
     (case dget (w_body w) ''level'' of
        None \<Rightarrow> r
      | Some v \<Rightarrow>
          if (case v of PInt _ \<Rightarrow> True | PFloat _ \<Rightarrow> True | PBool _ \<Rightarrow> True | _ \<Rightarrow> False)
          then if dmem ''reply_addr'' (w_body w)
               then (case gossip_tree_gather 0 r of Some (_, r') \<Rightarrow> r' | None \<Rightarrow> r)
               else r
          else r)"

definition gossip_print_every_onces_states :: "relay \<Rightarrow> relay" where
  "gossip_print_every_onces_states r = send_msgs (map PrintTo (get_forward_links r)) r"

text \<open>
  The call that a message makes: every attribute of the relay can be named by the header, its private
  methods included. The names left out here raise an exception before they change anything: they take
  another number of arguments, or cannot be called, or (\<open>otm_add_stream_link\<close> and
  \<open>gossip_add_stream_link\<close>) index the address with a string.
\<close>

definition relay_rpc :: "relay_env \<Rightarrow> wire_data \<Rightarrow> pyval list \<Rightarrow> relay \<Rightarrow> relay" where
  "relay_rpc env w addr r =
     (if w_header w = PStr GOSSIP_SESSION_STATE_UPDATE then update_state_rpc w r
      else if w_header w = PStr GOSSIP_TREE_CHECK then tree_check_begin (re_known env) (w_id w) addr r
      else if w_header w = PStr GOSSIP_TREE_REJECT then gossip_tree_reject (w_id w) r
      else if w_header w = PStr GOSSIP_UPGRADE_CONN then gossip_upgrade_connection (w_id w) (re_stream env) r
      else if w_header w = PStr ''gossip_downgrade_connection'' then gossip_downgrade_connection (w_id w) r
      else if w_header w = PStr GOSSIP_TREE_GATHER then tree_gather_rpc w r
      else if w_header w = PStr ''gossip_print_every_onces_states'' then gossip_print_every_onces_states r
      else if w_header w = PStr ''_may_be_make_rejection'' then snd (may_be_make_rejection (w_id w) addr r)
      else if w_header w = PStr ''forward_tree_check_packet'' then forward_rpc r
      else r)"

text \<open>
  \<open>datagram_received\<close>: \<open>unpack_datagram\<close> raises what the test for \<open>None\<close> expects to be returned. The
  call runs in a task of its own, whose exceptions \<open>wrap_with_tryexcept\<close> prints.
\<close>

definition relay_datagram_received ::
    "(bytes \<Rightarrow> pyval res) \<Rightarrow> relay_env \<Rightarrow> bytes \<Rightarrow> pyval list \<Rightarrow> relay \<Rightarrow> unit res \<times> relay" where
  "relay_datagram_received loads env data addr r =
     (case unpack_datagram loads data of
        Inl e \<Rightarrow> (Inl e, r)
      | Inr w \<Rightarrow> (Inr (), relay_rpc env w addr r))"

fun relay_datagrams ::
    "(bytes \<Rightarrow> pyval res) \<Rightarrow> (relay_env \<times> bytes \<times> pyval list) list \<Rightarrow> relay \<Rightarrow> unit res list \<times> relay" where
  "relay_datagrams loads [] r = ([], r)"
| "relay_datagrams loads ((env, data, addr) # ds) r =
     (case relay_datagram_received loads env data addr r of
        (out, r') \<Rightarrow> map_prod (Cons out) id (relay_datagrams loads ds r'))"

section \<open>What datagrams cannot do\<close>

text \<open>The parts of a relay that only its stream connections decide.\<close>

definition settled :: "relay \<Rightarrow> parent_fut \<times> pyval option \<times> nat list \<times> pyval \<times> nat option" where
  "settled r = (rl_parent r, rl_read r, rl_closed r, rl_session_id r, rl_transport r)"

lemma settled_links [simp]:
  "settled (update_active f p r) = settled r" "settled (update_passive f p r) = settled r"
  "settled (forward_tree_check_packet p r) = settled r" "settled (send_msgs ms r) = settled r"
  by (auto simp: settled_def update_active_def update_passive_def forward_tree_check_packet_def send_msgs_def Let_def
      split: option.split)

lemma settled_update [simp]:
  "settled (r\<lparr>rl_all := a\<rparr>) = settled r" "settled (r\<lparr>rl_window := i\<rparr>) = settled r" "settled (r\<lparr>rl_active := xs\<rparr>) = settled r"
  "settled (r\<lparr>rl_passive := xs\<rparr>) = settled r" "settled (r\<lparr>rl_expected := xs\<rparr>) = settled r" "settled (r\<lparr>rl_fanout := n\<rparr>) = settled r"
  "settled (r\<lparr>rl_waiting := xs\<rparr>) = settled r" "settled (r\<lparr>rl_state := x\<rparr>) = settled r"
  by (simp_all add: settled_def)

lemma send_msgs_fields [simp]:
  "rl_state (send_msgs ms r) = rl_state r" "rl_all (send_msgs ms r) = rl_all r" "rl_active (send_msgs ms r) = rl_active r"
  "rl_parent (send_msgs ms r) = rl_parent r" "rl_read (send_msgs ms r) = rl_read r" "rl_expected (send_msgs ms r) = rl_expected r"
  "rl_session_id (send_msgs ms r) = rl_session_id r" "rl_waiting (send_msgs ms r) = rl_waiting r"
  by (simp_all add: send_msgs_def)

lemma update_state_settled: "settled (update_state_rpc w r) = settled r" "rl_state r \<le> rl_state (update_state_rpc w r)"
  by (auto simp: update_state_rpc_def gossip_update_state_def Let_def split: option.split prod.split bool.split)

lemma tree_check_settled: "settled (tree_check_begin kn p addr r) = settled r" "rl_state (tree_check_begin kn p addr r) = rl_state r"
  by (auto simp: tree_check_begin_def may_be_make_rejection_def)

lemma upgrade_settled: "settled (gossip_upgrade_connection p outcome r) = settled r" "rl_state (gossip_upgrade_connection p outcome r) = rl_state r"
  by (auto simp: gossip_upgrade_connection_def activate_link_def split: option.split sum.split)

lemma gather_settled: "settled (tree_gather_rpc w r) = settled r" "rl_state (tree_gather_rpc w r) = rl_state r"
  by (auto simp: tree_gather_rpc_def gossip_tree_gather_def split: option.split parent_fut.split)

lemma relay_rpc_settled: "settled (relay_rpc env w addr r) = settled r \<and> rl_state r \<le> rl_state (relay_rpc env w addr r)"
proof -
  have rest: "settled (gossip_tree_reject p r) = settled r" "rl_state (gossip_tree_reject p r) = rl_state r"
    "settled (gossip_downgrade_connection p r) = settled r" "rl_state (gossip_downgrade_connection p r) = rl_state r"
    "settled (snd (may_be_make_rejection p addr r)) = settled r" "rl_state (snd (may_be_make_rejection p addr r)) = rl_state r"
    "settled (forward_rpc r) = settled r" "rl_state (forward_rpc r) = rl_state r"
    "settled (gossip_print_every_onces_states r) = settled r" "rl_state (gossip_print_every_onces_states r) = rl_state r" for p
    by (simp_all add: gossip_tree_reject_def gossip_downgrade_connection_def may_be_make_rejection_def forward_rpc_def
        gossip_print_every_onces_states_def)
  show ?thesis
    unfolding relay_rpc_def
    by (simp add: rest update_state_settled tree_check_settled upgrade_settled gather_settled)
qed



section \<open>How an edge of the tree is made\<close>

definition datagram_of :: "(pyval \<Rightarrow> bytes res) \<Rightarrow> wire_data \<Rightarrow> bytes res" where
  "datagram_of dumps w = res_bind (WireData_bytes dumps w) Wire_send_datagram"

lemma unpack_sent:
  assumes "packs dumps loads (wire_attributes w)" "kwargs_ok w" "datagram_of dumps w = Inr d"
  shows "unpack_datagram loads d = Inr (norm_wire w)"
proof -
  obtain raw where raw: "WireData_bytes dumps w = Inr raw" "Wire_send_datagram raw = Inr d"
    using assms(3) by (auto simp: datagram_of_def split: sum.splits)
  then have "length d \<le> MAX_DATAGRAM_RECV_SIZE"
    by (auto simp: Wire_send_datagram_frame MAX_DATAGRAM_SEND_SIZE_def MAX_DATAGRAM_RECV_SIZE_def frame_def split: if_splits)
  then show ?thesis using wire_data_datagram_roundtrip[OF assms(1,2) raw] by simp
qed

lemma packets_ok [simp]:
  "kwargs_ok (tree_check_packet x m n)" "kwargs_ok (upgrade_conn_packet x)" "kwargs_ok (make_update_stream_link_packet x n a)"
  by (simp_all add: packet_defs WireData_def kwargs_ok_def init_params_def)

lemma packets_norm [simp]:
  "w_header (norm_wire (tree_check_packet x m n)) = PStr GOSSIP_TREE_CHECK" "w_id (norm_wire (tree_check_packet x m n)) = msgpack_norm x"
  "w_header (norm_wire (upgrade_conn_packet x)) = PStr GOSSIP_UPGRADE_CONN" "w_id (norm_wire (upgrade_conn_packet x)) = msgpack_norm x"
  "w_id (norm_wire (make_update_stream_link_packet x n a)) = msgpack_norm x"
  "WireData_getitem (norm_wire (make_update_stream_link_packet x n a)) ''session_id'' = Inr (msgpack_norm n)"
  by (simp_all add: packet_defs WireData_def norm_wire_def WireData_getitem_def dindex_def)

lemma active_link_simps [simp]:
  "active_link q (send_msgs ms r) = active_link q r" "active_link q (forward_tree_check_packet p r) = active_link q r"
  by (simp_all add: active_link_def)

lemma invited_child:
  assumes "\<not> reject_reason a r"
  shows "rl_parent r = Pending" "dmem a (rl_all r)"
    "tree_check_begin True a addr r = send_msgs [UpgradeTo a]
       (r\<lparr>rl_expected := add_key a (rl_expected r), rl_active := add_key a (rl_active r), rl_waiting := rl_waiting r @ [a]\<rparr>)"
  using assms by (simp_all add: tree_check_begin_def may_be_make_rejection_def reject_reason_def)


definition check_packet :: wire_data where "check_packet = tree_check_packet (PStr ''a'') PNone (PStr ''s'')"
definition upgrade_packet :: wire_data where "upgrade_packet = upgrade_conn_packet (PStr ''b'')"
definition stream_packet :: wire_data where "stream_packet = make_update_stream_link_packet (PStr ''a'') (PStr ''s'') []"

definition edge_dumps :: "pyval \<Rightarrow> bytes res" where
  "edge_dumps v = Inr (if v = wire_attributes check_packet then [0] else if v = wire_attributes upgrade_packet then [1] else [2])"

definition edge_loads :: "bytes \<Rightarrow> pyval res" where
  "edge_loads b = Inr (msgpack_norm (wire_attributes
     (if b = [0] then check_packet else if b = [1] then upgrade_packet else stream_packet)))"

definition edge_end :: "string \<Rightarrow> relay" where
  "edge_end p = gossip_update_state [(PStr p, [], [])] (PalmTreeRelay 1 (PStr ''s''))"


section \<open>The reading side\<close>

text \<open>
  \<open>_recv_file_metadata\<close>: the metadata is whatever a single \<open>recv\<close> of the session's chunk size returns,
  and it is passed on as it came. The parent future is awaited first (\<open>None\<close> while it is pending).
\<close>

definition recv_file_metadata ::
    "(bytes \<Rightarrow> pyval res) \<Rightarrow> path \<Rightarrow> nat \<Rightarrow> (pyval \<Rightarrow> unit res) \<Rightarrow> stream \<Rightarrow> otm_receiver \<Rightarrow> relay \<Rightarrow>
     (unit res \<times> stream \<times> otm_receiver \<times> relay) option" where
  "recv_file_metadata loads d chunk_size sent s rv r =
     (case rl_parent r of
        Pending \<Rightarrow> None
      | ParentCancelled \<Rightarrow> Some (Inl CancelledError, s, rv, r)
      | ParentNone \<Rightarrow> Some (Inl AttributeError, s, rv, r\<lparr>rl_read := None\<rparr>)
      | ParentLink p \<Rightarrow>
          (let r1 = r\<lparr>rl_read := Some p\<rparr>
           in Some (case arecv chunk_size s of
                (Inl e, s1) \<Rightarrow> (Inl e, s1, rv, r1)
              | (Inr files_metadata, s1) \<Rightarrow>
                  (case load_files_metadata loads d files_metadata rv of
                     (Inl e, rv1) \<Rightarrow> (Inl e, s1, rv1, r1)
                   | (Inr _, rv1) \<Rightarrow> (case forward_chunk sent r1 of (out, r2) \<Rightarrow> (out, s1, rv1, r2))))))"

text \<open>
  \<open>start_read_side\<close>: the session, the metadata, and then the generator of the receiver, whose first
  step enters an asynchronous context manager with a plain \<open>with\<close> and raises \<open>TypeError\<close>.
\<close>

definition start_read_side ::
    "(bytes \<Rightarrow> pyval res) \<Rightarrow> path \<Rightarrow> nat \<Rightarrow> (pyval \<Rightarrow> unit res) \<Rightarrow> nat res \<Rightarrow> (relay \<Rightarrow> relay) \<Rightarrow> stream \<Rightarrow> otm_receiver \<Rightarrow> relay \<Rightarrow>
     (unit res \<times> stream \<times> otm_receiver \<times> relay) option" where
  "start_read_side loads d chunk_size sent endpoint meanwhile s rv r =
     (case endpoint of
        Inl e \<Rightarrow> Some (Inl e, s, rv, r)
      | Inr transport \<Rightarrow>
          map_option (\<lambda>(out, st). (Inl (case out of Inl e \<Rightarrow> e | Inr _ \<Rightarrow> TypeError), st))
            (recv_file_metadata loads d chunk_size sent s rv (meanwhile (session_init transport r))))"

text \<open>
  \<open>_handle_read_link_broken\<close>: \<open>_parent_link_broken\<close> is empty and the parent future keeps its value, so
  the link that is read from is the broken one. The fuel bounds the calls of itself.
\<close>

fun handle_read_link_broken :: "nat \<Rightarrow> relay \<Rightarrow> stream \<Rightarrow> (unit res \<times> relay \<times> stream) option" where
  "handle_read_link_broken 0 r s = None"
| "handle_read_link_broken (Suc fuel) r s =
     (case rl_parent r of
        Pending \<Rightarrow> None
      | ParentCancelled \<Rightarrow> Some (Inl CancelledError, r, s)
      | ParentNone \<Rightarrow> Some (Inl AttributeError, r\<lparr>rl_read := None\<rparr>, s)
      | ParentLink p \<Rightarrow>
          (let r1 = r\<lparr>rl_read := Some p\<rparr>
           in case recv_int arecv LONG_INT s of
                (Inr current_counter, s1) \<Rightarrow> Some (Inr (), r1, s1)
              | (Inl e, s1) \<Rightarrow>
                  if e = ConnectionResetError then handle_read_link_broken fuel r1 s1 else Some (Inl e, r1, s1)))"

text \<open>
  The \<open>ConnectionResetError\<close> of \<open>_handle_read_link_broken\<close> never arrives, since \<open>recv_int\<close> turns it into a
  \<open>ValueError\<close>. A link that is closed ends the reader with that exception: nothing is recovered.
\<close>

lemma broken_link_not_recovered:
  assumes "rl_parent r = ParentLink p" "arecv LONG_INT s = (Inr [], s') \<or> arecv LONG_INT s = (Inl ConnectionResetError, s')"
  shows "handle_read_link_broken (Suc fuel) r s = Some (Inl ValueError, r\<lparr>rl_read := Some p\<rparr>, s')"
  using assms by (auto simp: recv_int_def LONG_INT_def SHORT_INT_def struct_unpack_def Let_def)

lemma reader_never_starts:
  assumes "start_read_side loads d n sent endpoint meanwhile s rv r = Some (out, st)"
  shows "\<exists>e. out = Inl e"
  using assms by (cases endpoint) (auto simp: start_read_side_def)

section \<open>The sending side\<close>

text \<open>A \<open>FilesSender\<close>, its \<open>PalmTreeProtocol\<close> flattened into it.\<close>

record files_sender =
  fs_peer_list :: "remote_peer list"
  fs_items :: "file_item list"
  fs_session :: otm_session
  fs_center :: remote_peer
  fs_passive_addr :: "pyval list"
  fs_relay :: relay

definition sum_sizes :: "file_item list \<Rightarrow> nat res" where
  "sum_sizes items = (if list_ex (\<lambda>it. fi_size it = None) items then Inl AttributeError
     else Inr (sum_list (map item_size items)))"

definition make_session :: "pyval \<Rightarrow> pyval \<Rightarrow> pyval \<Rightarrow> rat \<Rightarrow> file_item list \<Rightarrow> otm_session res" where
  "make_session this_peer_id session_id key timeout items =
     map_sum id (\<lambda>total. \<lparr>ps_originate_id = this_peer_id, ps_session_id = session_id, ps_key = key, ps_fanout = 5,
         ps_link_wait_timeout = timeout, ps_adjacent_peers = [], ps_chunk_size = calculate_chunk_size (int total),
         os_file_count = length items\<rparr>)
       (sum_sizes items)"

definition session_adjacency :: "remote_peer \<Rightarrow> remote_peer list \<Rightarrow> pyval adjacency" where
  "session_adjacency center prs = create_hypercube (PBytes (rp_id center)) (map (\<lambda>p. PBytes (rp_id p)) prs)"

text \<open>
  \<open>FilesSender.__init__\<close> and \<open>PalmTreeProtocol.__init__\<close>. \<open>mediator\<close> is the class that is called with
  the session and two addresses; \<open>OTMFilesRelay\<close> asks for the file receiver as well.
\<close>

definition OTMFilesRelay_called :: "otm_session \<Rightarrow> pyval list \<Rightarrow> pyval list \<Rightarrow> relay res" where
  "OTMFilesRelay_called session passive active = Inl TypeError"

definition FilesSender ::
    "(otm_session \<Rightarrow> pyval list \<Rightarrow> pyval list \<Rightarrow> relay res) \<Rightarrow> fs \<Rightarrow> (nat \<Rightarrow> addr res) \<Rightarrow> remote_peer \<Rightarrow> pyval \<Rightarrow> pyval \<Rightarrow>
     path list \<Rightarrow> remote_peer list \<Rightarrow> rat \<Rightarrow> files_sender res" where
  "FilesSender mediator f bind this_peer session_id key file_list prs timeout =
     (let items = map (\<lambda>p. FileItem f p 0) file_list
      in res_bind (make_session (PStr (peer_id this_peer)) session_id key timeout items) (\<lambda>session0.
         let session = session0\<lparr>ps_adjacent_peers := neighbours (session_adjacency this_peer prs) (PBytes (rp_id this_peer))\<rparr>
         in res_bind (get_free_port bind) (\<lambda>port.
            let passive = [PStr (rp_ip this_peer), PInt (int port)]
            in map_sum id (\<lambda>r. \<lparr>fs_peer_list = prs, fs_items = items, fs_session = session, fs_center = this_peer,
                   fs_passive_addr = passive, fs_relay = r\<rparr>)
                 (mediator session passive [PStr (fst (uri this_peer)), snd (uri this_peer)]))))"

lemma files_sender_never_made:
  "\<exists>e. FilesSender OTMFilesRelay_called f bind this_peer session_id key file_list prs timeout = Inl e"
  by (cases "make_session (PStr (peer_id this_peer)) session_id key timeout (map (\<lambda>p. FileItem f p 0) file_list)";
      cases "get_free_port bind") (simp_all add: FilesSender_def OTMFilesRelay_called_def Let_def)

text \<open>\<open>_create_inform_packet\<close> announces the size of a datagram buffer in place of the session's chunk size.\<close>

definition create_inform_packet :: "pyval \<Rightarrow> otm_session \<Rightarrow> wire_data" where
  "create_inform_packet this_peer_id s =
     WireData (PStr OTM_FILE_TRANSFER) this_peer_id PNone WIRE_VERSION
       [(''protocol1'', PStr ''<class 'src.transfers.otm.sender.FilesSender'>''),
        (''protocol2'', PStr ''<class 'src.transfers.otm.relay.OTMPalmTreeProtocol'>''),
        (''session_id'', ps_session_id s), (''key'', ps_key s), (''fanout'', PInt (int (ps_fanout s))),
        (''link_wait_timeout'', PFloat (ps_link_wait_timeout s)), (''adjacent_peers'', PList (ps_adjacent_peers s)),
        (''file_count'', PInt (int (os_file_count s))), (''chunk_size'', PInt (int MAX_DATAGRAM_RECV_SIZE))]"

text \<open>
  The announcement is understood: whoever receives it finds every entry it needs, books the session
  under its id and answers with a response that the sender reads, with the key of the session. The
  chunk size it finds is not the one the session has, unless that happens to be 256 KiB.
\<close>

lemma session_announced:
  assumes "packs dumps loads (wire_attributes (create_inform_packet i s))" "datagram_of dumps (create_inform_packet i s) = Inr d"
    and "msgpack_norm (ps_session_id s) = ps_session_id s" "msgpack_norm (ps_key s) = ps_key s"
    and "packs dumps loads (inform_tuple \<lparr>ir_peer_id = PStr p, ir_passive_addr = pa, ir_active_addr = aa, ir_session_key = ps_key s\<rparr>)"
      "list_all flat_val (pa @ aa)"
  shows "\<exists>w reply m'. unpack_datagram loads d = Inr w \<and> new_otm_request_arrived dumps p pa aa w m = (Inr reply, m') \<and>
    get_scheduled (ps_session_id s) (mg_book m') = Some \<lparr>hd_ref = mg_next m, hd_id = ps_session_id s\<rparr> \<and>
    InformResponse_load_from loads reply =
      Inr \<lparr>ir_peer_id = PStr p, ir_passive_addr = pa, ir_active_addr = aa, ir_session_key = ps_key s\<rparr> \<and>
    WireData_getitem w ''chunk_size'' = Inr (PInt (int MAX_DATAGRAM_RECV_SIZE))"
proof -
  let ?w = "norm_wire (create_inform_packet i s)"
  let ?r = "\<lparr>ir_peer_id = PStr p, ir_passive_addr = pa, ir_active_addr = aa, ir_session_key = ps_key s\<rparr>"
  have "kwargs_ok (create_inform_packet i s)"
    by (simp add: create_inform_packet_def WireData_def kwargs_ok_def init_params_def)
  then have w: "unpack_datagram loads d = Inr ?w" by (rule unpack_sent[OF assms(1) _ assms(2)])
  have body: "dget (w_body ?w) ''session_id'' = Some (ps_session_id s)" "dget (w_body ?w) ''key'' = Some (ps_key s)"
    "dget (w_body ?w) ''chunk_size'' = Some (PInt (int MAX_DATAGRAM_RECV_SIZE))"
    using assms(3,4) by (simp_all add: create_inform_packet_def WireData_def norm_wire_def)
  have keys: "filter (\<lambda>k. \<not> dmem k (w_body ?w)) otm_request_keys = []"
    by (simp add: otm_request_keys_def create_inform_packet_def WireData_def norm_wire_def dmem_def dkeys_def)
  obtain reply where reply: "InformResponse_bytes dumps ?r = Inr reply" using assms(5) by (auto simp: packs_def InformResponse_bytes_def)
  have "list_all flat_val (ir_peer_id ?r # ir_session_key ?r # ir_passive_addr ?r @ ir_active_addr ?r)"
    using assms(4,6) by (simp add: flat_val_def)
  from inform_response_roundtrip[OF assms(5) this] reply have load: "InformResponse_load_from loads reply = Inr ?r" by simp
  then show ?thesis using w body keys reply
    by (auto simp: new_otm_request_arrived_def Let_def WireData_getitem_def dindex_def get_scheduled_def add_to_scheduled_def)
qed

text \<open>
  \<open>gather_tree\<close>: with a confirmed peer, and the centre is always one, the loop that collects the
  answers is not entered; without one it would never be left.
\<close>

definition gather_tree :: "nat \<Rightarrow> relay \<Rightarrow> (pyval list res \<times> relay) option" where
  "gather_tree confirmed_peers r =
     (case gossip_tree_gather 0 r of
        None \<Rightarrow> None
      | Some (Inl e, r') \<Rightarrow> Some (Inl e, r')
      | Some (Inr _, r') \<Rightarrow> if confirmed_peers = 0 then None else Some (Inr [], r'))"

lemma gather_tree_gathers_nothing:
  "rl_parent r = ParentNone \<Longrightarrow> gather_tree n r = Some (Inl AttributeError, r)"
  "gather_tree n r = Some (Inr tree, r') \<Longrightarrow> tree = []"
  by (auto simp: gather_tree_def gossip_tree_gather_def split: option.splits sum.splits prod.splits if_splits)

definition trigger_spanning_formation :: "remote_peer \<Rightarrow> relay \<Rightarrow> relay" where
  "trigger_spanning_formation center r = forward_tree_check_packet (PBytes (rp_id center)) r"

fun send_items :: "nat \<Rightarrow> fs \<Rightarrow> (pyval \<Rightarrow> unit res) \<Rightarrow> file_item list \<Rightarrow> relay \<Rightarrow> unit res \<times> relay" where
  "send_items chunk_size f sent [] r = (Inr (), r)"
| "send_items chunk_size f sent (it # its) r =
     (case otm_send_file chunk_size f it of
        Inl e \<Rightarrow> (Inl e, r)
      | Inr chunk \<Rightarrow>
          (case forward_chunk sent r of
             (Inl e, r1) \<Rightarrow> (Inl e, r1)
           | (Inr _, r1) \<Rightarrow> send_items chunk_size f sent its r1))"

text \<open>
  \<open>FilesSender.start\<close>, run to its end: \<open>replies\<close> are the answers to the invitation in the order in which
  they come, \<open>meanwhile\<close> is what happens to the relay in the second after the tree has been started.
\<close>

definition sender_start ::
    "(bytes \<Rightarrow> pyval res) \<Rightarrow> (pyval \<Rightarrow> bytes res) \<Rightarrow> fs \<Rightarrow> (remote_peer \<times> bytes option) list \<Rightarrow> nat res \<Rightarrow> (relay \<Rightarrow> relay) \<Rightarrow>
     (pyval \<Rightarrow> unit res) \<Rightarrow> files_sender \<Rightarrow> unit res \<times> relay" where
  "sender_start loads dumps f replies endpoint meanwhile sent s =
     (let c = fs_center s; center_id = PBytes (rp_id c);
          center = \<lparr>ir_peer_id = center_id, ir_passive_addr = fs_passive_addr s,
                    ir_active_addr = [PStr (fst (uri c)), snd (uri c)], ir_session_key = ps_key (fs_session s)\<rparr>
      in case inform_peers loads center replies (session_adjacency c (fs_peer_list s), []) of
           Inl e \<Rightarrow> (Inl e, fs_relay s)
         | Inr (adj, conf) \<Rightarrow>
             (case endpoint of
                Inl e \<Rightarrow> (Inl e, fs_relay s)
              | Inr transport \<Rightarrow>
                  (let r2 = gossip_update_state (fst (update_states center_id adj conf)) (session_init transport (fs_relay s))
                   in if rl_parent r2 \<noteq> Pending then (Inl InvalidStateError, r2)
                      else let r3 = gossip_print_every_onces_states
                                      (meanwhile (trigger_spanning_formation c (r2\<lparr>rl_parent := ParentNone\<rparr>)))
                           in case make_file_metadata dumps (fs_items s) of
                                Inl e \<Rightarrow> (Inl e, r3)
                              | Inr metadata \<Rightarrow>
                                  (case forward_chunk sent r3 of
                                     (Inl e, r4) \<Rightarrow> (Inl e, r4)
                                   | (Inr _, r4) \<Rightarrow> send_items (ps_chunk_size (fs_session s)) f sent (fs_items s) r4))))"

subsection \<open>A session reaches nobody\<close>

definition isolated :: "relay \<Rightarrow> bool" where
  "isolated r \<longleftrightarrow> rl_all r = [] \<and> rl_active r = [] \<and> rl_waiting r = [] \<and> LINKS_INITIALIZED \<le> rl_state r"

lemma isolated_step:
  assumes "relay_step r t" "isolated r"
  shows "isolated t"
  using assms(1)
proof cases
  case (step_stream connection sid p sent)
  then show ?thesis using assms(2) by (auto simp: isolated_def gossip_add_stream_link_def)
qed (use assms(2) in \<open>auto simp: isolated_def session_init_def gossip_update_state_def tree_check_begin_def
    may_be_make_rejection_def reject_reason_def dmem_def dkeys_def gossip_tree_reject_def forward_tree_check_packet_def
    gossip_upgrade_connection_def gossip_downgrade_connection_def int_slice_def pyslice_def Let_def\<close>)

lemma isolated_steps: "relay_step\<^sup>*\<^sup>* r t \<Longrightarrow> isolated r \<Longrightarrow> isolated t"
  by (induction rule: rtranclp_induct) (auto intro: isolated_step)

lemma isolated_forwards_nothing: "isolated r \<Longrightarrow> get_forward_links r = [] \<and> forward_chunk sent r = (Inr (), r)"
  by (simp add: isolated_def get_forward_links_def forward_chunk_def)

lemma isolated_send_items:
  "isolated r \<Longrightarrow> snd (send_items n f sent its r) = r \<and> send_items n f sent its r = send_items n f sent' its r \<and>
     (fst (send_items n f sent its r) = Inr () \<longleftrightarrow> (\<forall>it \<in> set its. \<exists>chunk. otm_send_file n f it = Inr chunk))"
  by (induction its) (auto simp: isolated_forwards_nothing split: sum.split)



end
