(* ===== verification/Connections.thy ===== *)
theory Connections
  imports Acceptor Transfer_Managers Page Otm_Session
begin

text \<open>
  The stream side of a node put together: what \<open>initiate_acceptor\<close> of \<open>src/core/acceptor.py\<close>
  registers, from the bytes of an accepted connection to the component that handles it. It is the
  counterpart of the datagram side in \<open>Node\<close>.

  The state holds what the handlers work on: the books of transfers of the two managers, the files
  and directories on disk, the page, the sockets that were closed and the task group of the
  dispatcher of messages.
\<close>

section \<open>State and surroundings\<close>

record stream_node =
  sn_files :: manager
  sn_dirs :: manager
  sn_fs :: fs
  sn_tree :: "path list"
  sn_page :: page
  sn_closed :: "sock list"
  sn_data_group :: task_group

text \<open>
  \<open>cx_find_peer\<close> is \<open>get_remote_peer_at_every_cost\<close>, \<open>cx_known\<close> the id under which \<open>Dock.peer_list\<close>
  holds a peer, \<open>cx_sent\<close> the outcome of sending a byte on a connection, \<open>cx_sock\<close> the socket of a
  connection and \<open>cx_finalizing\<close> the answers of \<open>Dock.finalizing.is_set\<close> in the order of the tests.
\<close>

record stream_env =
  cx_loads :: "bytes \<Rightarrow> pyval res"
  cx_windows :: bool
  cx_download :: path
  cx_find_peer :: "pyval \<Rightarrow> unit res"
  cx_known :: "pyval \<Rightarrow> string option"
  cx_sent :: "incoming \<Rightarrow> unit res"
  cx_sock :: "incoming \<Rightarrow> sock"
  cx_finalizing :: "bool list"

definition CMD_FILE_CONN :: bytes where
  "CMD_FILE_CONN = map of_char ''connection for file transfer''"

definition CMD_RECV_DIR :: bytes where "CMD_RECV_DIR = map of_char ''cmd to recv dir ''"

definition CMD_BASIC_CONN :: bytes where "CMD_BASIC_CONN = map of_char ''basic connection''"

definition CMD_CLOSING_HEADER :: bytes where "CMD_CLOSING_HEADER = map of_char ''close connection''"

text \<open>The bytes that are left on a connection when its handshake has been read.\<close>

definition link_stream :: "incoming \<Rightarrow> stream" where
  "link_stream c = (case c of
     Silent \<Rightarrow> \<lparr>pending = [], sched = []\<rparr>
   | Speaking conn_ok s \<Rightarrow> snd (Wire_receive_async conn_ok s))"

section \<open>The handlers on the node\<close>

text \<open>\<open>Connection.create_from\<close> makes a \<open>connect.Sender\<close> and a \<open>connect.Receiver\<close>.\<close>

definition fresh_receiver :: "incoming \<Rightarrow> stream_node \<Rightarrow> receiver" where
  "fresh_receiver c n = \<lparr>rv_state = PREPARING, rv_to_stop = False, rv_items = [],
     rv_stream = link_stream c, rv_fs = sn_fs n\<rparr>"

definition on_file_connection :: "stream_env \<Rightarrow> incoming \<Rightarrow> wire_data \<Rightarrow> stream_node \<Rightarrow> unit res \<times> stream_node" where
  "on_file_connection env c handshake n =
     (case FileConnectionHandler (cx_loads env) (cx_download env) ConnectSender ConnectReceiver (cx_sent env c)
             (cx_find_peer env (w_peer_id handshake)) handshake (fresh_receiver c n) (sn_files n) of
        (out, r, m) \<Rightarrow> (out, n\<lparr>sn_files := m, sn_fs := rv_fs r, sn_closed := sn_closed n @ [cx_sock env c]\<rparr>))"

text \<open>
  The socket of a directory transfer is closed by the \<open>with\<close> block that follows \<open>connection_made\<close>, which
  with these two classes always fails.
\<close>

definition on_dir_connection :: "stream_env \<Rightarrow> incoming \<Rightarrow> wire_data \<Rightarrow> stream_node \<Rightarrow> unit res \<times> stream_node" where
  "on_dir_connection env c handshake n =
     (case DirConnectionHandler (cx_windows env) (cx_loads env) (cx_download env) ConnectSender ConnectReceiver
             (cx_sent env c) (cx_known env (w_peer_id handshake)) handshake
             \<lparr>dr_base = fresh_receiver c n, dr_dirs = sn_tree n, dr_out = []\<rparr> (sn_dirs n) of
        (out, r, m) \<Rightarrow> (out, n\<lparr>sn_dirs := m, sn_fs := rv_fs (dr_base r), sn_tree := dr_dirs r\<rparr>))"

definition on_otm_link :: "wire_data \<Rightarrow> stream_node \<Rightarrow> unit res \<times> stream_node" where
  "on_otm_link link_data n = (OTMConnectionHandler link_data (sn_files n), n)"

definition on_text :: "wire_data \<Rightarrow> stream_node \<Rightarrow> unit res \<times> stream_node" where
  "on_text data n =
     (case MessageHandler data of
        Inl e \<Rightarrow> (Inl e, n)
      | Inr m \<Rightarrow> (case notify m (sn_page n) of (out, p) \<Rightarrow> (out, n\<lparr>sn_page := p\<rparr>)))"

definition on_close :: "sock \<Rightarrow> wire_data \<Rightarrow> stream_node \<Rightarrow> unit res \<times> stream_node" where
  "on_close s data n = (Inr (), n\<lparr>sn_closed := ConnectionCloseHandler s (sn_closed n)\<rparr>)"

text \<open>
  The registry of the \<open>StreamDataDispatcher\<close>, and the dispatcher called by the loop over a basic
  connection: its task is awaited, so what a handler raises also reaches the loop.
\<close>

definition stream_registry :: "sock \<Rightarrow> (pyval, wire_data \<Rightarrow> stream_node \<Rightarrow> unit res \<times> stream_node) pydict" where
  "stream_registry s = [(PBytes CMD_TEXT, on_text), (PBytes CMD_CLOSING_HEADER, on_close s)]"

definition data_dispatcher :: "sock \<Rightarrow> wire_data \<Rightarrow> stream_node \<Rightarrow> unit res \<times> stream_node" where
  "data_dispatcher s data n =
     (if tg_aborting (sn_data_group n) then (Inl RuntimeError, n)
      else case header_submit (stream_registry s) data n of
        (out, n') \<Rightarrow> (out, n'\<lparr>sn_data_group := task_done out (sn_data_group n)\<rparr>))"

definition on_basic_connection :: "stream_env \<Rightarrow> incoming \<Rightarrow> wire_data \<Rightarrow> stream_node \<Rightarrow> unit res \<times> stream_node" where
  "on_basic_connection env c handshake n =
     (case process_data_handler (cx_loads env) (data_dispatcher (cx_sock env c)) (cx_finalizing env) (link_stream c, n) of
        (out, exited, _, n') \<Rightarrow> (out, if exited then n'\<lparr>sn_closed := sn_closed n' @ [cx_sock env c]\<rparr> else n'))"

section \<open>\<open>initiate_acceptor\<close>\<close>

definition connection_registry ::
    "stream_env \<Rightarrow> incoming \<Rightarrow> (pyval, wire_data \<Rightarrow> stream_node \<Rightarrow> unit res \<times> stream_node) pydict" where
  "connection_registry env c =
     [(PBytes CMD_FILE_CONN, on_file_connection env c), (PBytes CMD_RECV_DIR, on_dir_connection env c),
      (PStr OTM_UPDATE_STREAM_LINK, on_otm_link), (PBytes CMD_BASIC_CONN, on_basic_connection env c)]"

definition connection_submit :: "stream_env \<Rightarrow> incoming \<Rightarrow> wire_data \<Rightarrow> stream_node \<Rightarrow> unit res \<times> stream_node" where
  "connection_submit env c = header_submit (connection_registry env c)"

definition initiate_acceptor ::
    "stream_env \<Rightarrow> (py_exn \<times> bool + incoming) list \<Rightarrow> stream_node \<Rightarrow> unit res \<times> task_group \<times> stream_node" where
  "initiate_acceptor env accepts n =
     acceptor_initiate (cx_loads env) (cx_find_peer env) (connection_submit env) accepts
       (\<lparr>tg_aborting = False, tg_parent_running = True\<rparr>,
        n\<lparr>sn_data_group := \<lparr>tg_aborting = False, tg_parent_running = True\<rparr>\<rparr>)"


section \<open>What a connection can do\<close>

text \<open>What a peer on a stream connection could change for the user: files, page, books of transfers.\<close>

definition visible :: "stream_node \<Rightarrow> fs \<times> page \<times> pyval book \<times> pyval book" where
  "visible n = (sn_fs n, sn_page n, mg_book (sn_files n), mg_book (sn_dirs n))"

lemma file_connection_fails:
  "\<exists>e k. FileConnectionHandler loads d ConnectSender ConnectReceiver sent found w r m = (Inl e, r, m\<lparr>mg_next := k\<rparr>) \<and>
     (e = AssertionError \<or> e = KeyError \<or> sent = Inl e \<or> found = Inl e) \<or>
   FileConnectionHandler loads d ConnectSender ConnectReceiver sent found w r m = (Inr (), r, m) \<and> found = Inl TransferIncomplete"
  by (cases "dget (w_body w) ''file_id''"; cases sent; cases found)
    (auto simp: FileConnectionHandler_def file_receiver_def Receiver_connection_made_def WireData_getitem_def dindex_def Let_def
      intro: exI[of _ "mg_next m"])

lemma dir_connection_fails:
  assumes "DirConnectionHandler win loads d ConnectSender ConnectReceiver sent found w r m = (out, r', m')"
  shows "(\<exists>e. out = Inl e) \<and> dr_base r' = dr_base r \<and> mg_book m' = mg_book m"
  using assms
  by (auto simp: DirConnectionHandler_def Receiver_connection_made_def Let_def
      split: sum.splits option.splits pyval.splits prod.splits)

lemma accept_connection_inv:
  assumes "\<And>w s. P s \<Longrightarrow> P (snd (submit c w s))" "P (snd st)"
  shows "P (snd (snd (accept_connection loads find_peer submit c st)))"
  using assms by (auto simp: accept_connection_def queue_call_def split: sum.splits option.splits prod.splits) (metis snd_conv)

lemma acceptor_initiate_inv:
  assumes "\<And>c w s. P s \<Longrightarrow> P (snd (submit c w s))" "P (snd st)"
  shows "P (snd (snd (acceptor_initiate loads find_peer submit cs st)))"
  using assms(2)
proof (induction cs arbitrary: st)
  case (Cons a cs)
  show ?case
  proof (cases a)
    case (Inl x)
    then show ?thesis using Cons.prems by (cases x) simp
  next
    case (Inr c)
    have "P (snd (snd (accept_connection loads find_peer submit c st)))"
      by (rule accept_connection_inv[OF assms(1) Cons.prems])
    then show ?thesis using Inr Cons.IH by (auto split: prod.splits sum.splits)
  qed
qed simp

lemma basic_connection_closed:
  assumes "cx_finalizing env = False # fs"
  shows "on_basic_connection env c w n = (Inr (), n\<lparr>sn_closed := sn_closed n @ [cx_sock env c]\<rparr>)"
  using assms by (simp add: on_basic_connection_def)

lemma visible_fields:
  "visible (n\<lparr>sn_closed := x\<rparr>) = visible n" "visible (n\<lparr>sn_data_group := g\<rparr>) = visible n"
  by (simp_all add: visible_def)

lemma file_connection_visible: "visible (snd (on_file_connection env c w n)) = visible n"
  using file_connection_fails[of "cx_loads env" "cx_download env" "cx_sent env c" "cx_find_peer env (w_peer_id w)" w
      "fresh_receiver c n" "sn_files n"]
  by (auto simp: on_file_connection_def visible_def fresh_receiver_def split: prod.splits)

lemma dir_connection_visible: "visible (snd (on_dir_connection env c w n)) = visible n"
proof (cases "DirConnectionHandler (cx_windows env) (cx_loads env) (cx_download env) ConnectSender ConnectReceiver
    (cx_sent env c) (cx_known env (w_peer_id w)) w \<lparr>dr_base = fresh_receiver c n, dr_dirs = sn_tree n, dr_out = []\<rparr> (sn_dirs n)")
  case (fields out r m)
  from dir_connection_fails[OF this] fields show ?thesis
    by (simp add: on_dir_connection_def visible_def fresh_receiver_def)
qed

lemma connection_visible:
  assumes "cx_finalizing env = False # fs"
  shows "visible (snd (connection_submit env c w n)) = visible n"
  by (simp add: connection_submit_def header_submit_def connection_registry_def file_connection_visible
      dir_connection_visible on_otm_link_def basic_connection_closed[OF assms] visible_fields)

text \<open>
  C11. Whatever bytes peers send over stream connections, in whatever order the connections come in:
  while the program runs (the finalizing flag is unset) the files on disk, the messages to the page and
  the books of transfers stay as they are. No file, directory or text message is ever received over
  a stream, because the receivers refuse the connection's reading end and the loop over a basic
  connection tests the flag the wrong way round.
\<close>

theorem stream_side_delivers_nothing:
  assumes "cx_finalizing env = False # fs"
  shows "visible (snd (snd (initiate_acceptor env accepts n))) = visible n"
  unfolding initiate_acceptor_def
  by (rule acceptor_initiate_inv[where P = "\<lambda>s. visible s = visible n"])
    (simp_all add: connection_visible[OF assms] visible_fields)

definition running_env :: stream_env where
  "running_env = \<lparr>cx_loads = (\<lambda>b. Inr (PList [PBytes CMD_FILE_CONN, PStr ''1'', PNone, PDict [(PStr ''file_id'', PStr ''0'')], PStr ''p''])),
     cx_windows = False, cx_download = (True, []), cx_find_peer = (\<lambda>p. Inr ()), cx_known = (\<lambda>p. None),
     cx_sent = (\<lambda>c. Inr ()), cx_sock = (\<lambda>c. 0), cx_finalizing = [False]\<rparr>"

definition idle_node :: stream_node where
  "idle_node = \<lparr>sn_files = manager_init, sn_dirs = manager_init, sn_fs = [], sn_tree = [], sn_page = no_page,
     sn_closed = [], sn_data_group = \<lparr>tg_aborting = False, tg_parent_running = True\<rparr>\<rparr>"

theorem stream_side_delivers_nothing_witness:
  "visible (snd (snd (initiate_acceptor running_env
     [Inr (Speaking True \<lparr>pending = [0, 0, 0, 1, 7], sched = []\<rparr>), Inr Silent] idle_node))) = visible idle_node"
  by (rule stream_side_delivers_nothing[of _ "[]"]) (simp add: running_env_def)

section \<open>What a connection does to the acceptor\<close>

lemma rename_never_cancelled: "rename_directory_with_increment f dirs d rel \<noteq> Inl CancelledError"
  by (simp add: rename_directory_with_increment_def Let_def fs_mkdir_def)

lemma dir_connection_raises:
  "\<exists>e n'. on_dir_connection env c w n = (Inl e, n') \<and> e \<noteq> CancelledError"
  by (auto simp: on_dir_connection_def DirConnectionHandler_def Receiver_connection_made_def WireData_getitem_def
      dindex_def Let_def rename_never_cancelled dest: sym split: sum.splits option.splits pyval.splits prod.splits)

lemma file_connection_raises:
  assumes "cx_sent env c = Inr ()" "cx_find_peer env (w_peer_id w) = Inr ()"
  shows "\<exists>e n'. on_file_connection env c w n = (Inl e, n') \<and> e \<noteq> CancelledError"
  using file_connection_fails[of "cx_loads env" "cx_download env" "cx_sent env c" "cx_find_peer env (w_peer_id w)" w
      "fresh_receiver c n" "sn_files n"] assms
  by (auto simp: on_file_connection_def)

definition survivable :: "stream_node \<Rightarrow> wire_data \<Rightarrow> bool" where
  "survivable n w \<longleftrightarrow> w_header w = PBytes CMD_BASIC_CONN \<or>
     w_header w = PStr OTM_UPDATE_STREAM_LINK \<and> OTMConnectionHandler w (sn_files n) = Inr ()"

lemma header_codes: "CMD_FILE_CONN \<noteq> CMD_RECV_DIR" "CMD_FILE_CONN \<noteq> CMD_BASIC_CONN" "CMD_RECV_DIR \<noteq> CMD_BASIC_CONN"
  by (simp_all add: CMD_FILE_CONN_def CMD_RECV_DIR_def CMD_BASIC_CONN_def)

lemma otm_link_raises:
  "OTMConnectionHandler w m \<noteq> Inr () \<Longrightarrow> \<exists>e. OTMConnectionHandler w m = Inl e \<and> e \<noteq> CancelledError"
  by (auto simp: OTMConnectionHandler_def WireData_getitem_def dindex_def split: option.splits)

lemma connection_submit_cases:
  assumes "cx_sent env c = Inr ()" "cx_find_peer env (w_peer_id w) = Inr ()" "\<not> survivable n w"
  shows "\<exists>e n'. connection_submit env c w n = (Inl e, n') \<and> e \<noteq> CancelledError"
proof -
  have "survivable n w" if "w_header w = PBytes CMD_BASIC_CONN" using that by (simp add: survivable_def)
  then show ?thesis
    using assms dir_connection_raises[of env c w n] file_connection_raises[OF assms(1,2), of n]
      otm_link_raises[of w "sn_files n"]
    by (auto simp: connection_submit_def header_submit_def connection_registry_def survivable_def on_otm_link_def)
qed

text \<open>
  C12. The first request for a transfer ends the listening side of a node. The accept loop gets over any
  number of connections that time out or send rubbish; but a handshake that decodes to anything other
  than a basic connection (or a link of a one-to-many session the node does not know) makes its handler
  raise, and the failing task cancels the acceptor: whatever comes later is not accepted, and
  nothing has been delivered.
\<close>

theorem first_transfer_ends_acceptor:
  assumes "list_all (harmless (cx_loads env)) cs"
    and "receive_handshake c = Inr raw" "raw \<noteq> []" "WireData_load_from (cx_loads env) raw = Inr w"
    and "cx_find_peer env (w_peer_id w) = Inr ()" "cx_sent env c = Inr ()" "\<not> survivable n w"
  shows "\<exists>n'. initiate_acceptor env (map Inr cs @ Inr c # later) n =
      (Inl CancelledError, \<lparr>tg_aborting = True, tg_parent_running = True\<rparr>, n')"
proof -
  let ?g = "\<lparr>tg_aborting = False, tg_parent_running = True\<rparr>"
  let ?n = "n\<lparr>sn_data_group := ?g\<rparr>"
  have skip: "acceptor_initiate (cx_loads env) find submit (map Inr cs @ xs) st = acceptor_initiate (cx_loads env) find submit xs st"
    for find submit xs and st :: "task_group \<times> stream_node"
    using assms(1) by (induction cs) (simp_all add: harmless_ignored group_failed_def)
  have "\<not> survivable ?n w" using assms(7) by (simp add: survivable_def)
  then obtain e n' where "connection_submit env c w ?n = (Inl e, n')" "e \<noteq> CancelledError"
    using connection_submit_cases[OF assms(6,5)] by blast
  then have "acceptor_initiate (cx_loads env) (cx_find_peer env) (connection_submit env) (Inr c # later) (?g, ?n) =
      (Inl CancelledError, ?g\<lparr>tg_aborting := True\<rparr>, n')"
    using failing_handler_stops_acceptor[OF assms(2-4), of "cx_find_peer env" "connection_submit env" "(?g, ?n)" e n' later] assms(5)
    by simp
  then show ?thesis by (simp add: initiate_acceptor_def skip)
qed

definition file_caller :: incoming where
  "file_caller = Speaking True \<lparr>pending = [0, 0, 0, 1, 7], sched = []\<rparr>"

theorem first_transfer_ends_acceptor_witness:
  "\<exists>n'. initiate_acceptor running_env [Inr Silent, Inr file_caller, Inr file_caller] idle_node =
     (Inl CancelledError, \<lparr>tg_aborting = True, tg_parent_running = True\<rparr>, n')"
proof -
  let ?w = "WireData (PBytes CMD_FILE_CONN) (PStr ''1'') (PStr ''p'') PNone [(''file_id'', PStr ''0'')]"
  have s: "list_all (harmless (cx_loads running_env)) [Silent]"
    by (simp add: harmless_def receive_handshake_def is_OSError_def)
  have h: "receive_handshake file_caller = Inr [7]"
    by (simp add: receive_handshake_def file_caller_def Wire_receive_async_def unsplit_def struct_unpack_def be_decode_def)
  have w: "WireData_load_from (cx_loads running_env) [7] = Inr ?w"
    by (simp add: running_env_def WireData_load_from_def kwargs_of_def WireData_def init_params_def)
  have n: "\<not> survivable idle_node ?w"
    using header_codes by (simp add: survivable_def WireData_def)
  show ?thesis
    using first_transfer_ends_acceptor[OF s h _ w _ _ n, of "[Inr file_caller]"]
    by (simp add: running_env_def)
qed

end
