(* ===== verification/Connectivity.thy ===== *)
theory Connectivity
  imports Dispatch
begin

text \<open>
  The checks whether a peer can be reached, \<open>src/core/connectivity.py\<close>: a request becomes a task of
  the task group of \<open>QueueMixIn\<close>; when that task first runs it starts the check, a task of its own,
  and records it for the peer; later requests for the peer are given the recorded check while it is
  recent. The tasks and the checks are numbered in the order in which they are made; a transition is
  a call or what happens between two awaits of one task.

  Peers are the keys of the dictionary of checks: peers that are equal, which are those with the same
  address and the same user name, are one value of the type variable.
\<close>

section \<open>Requests and checks\<close>

datatype check_state = CHK_INITIATED | REQ_CHECK | CON_CHECK | CHK_COMPLETED

definition PING_TIME_CHECK_WINDOW :: rat where "PING_TIME_CHECK_WINDOW = 3"

text \<open>\<open>CheckRequest\<close>; its status, which only its check writes, is kept with the check.\<close>

record 'p check_request =
  cr_time_stamp :: rat
  cr_peer :: 'p
  cr_serious :: bool

record 'p check =
  ck_request :: "'p check_request"
  ck_status :: check_state
  ck_future :: "bool res option"

text \<open>
  The task of a request: not run yet, waiting for its check, or cancelled before it ran.
\<close>

datatype queued_task = Queued | Awaits nat | Dropped

record 'p connectivity =
  cn_last_checked :: "('p, 'p check_request \<times> nat) pydict"
  cn_entered :: bool
  cn_group :: task_group
  cn_tasks :: "('p check_request \<times> queued_task) list"
  cn_checks :: "'p check list"

definition Connectivity_init :: "'p connectivity" where
  "Connectivity_init = \<lparr>cn_last_checked = [], cn_entered = False, cn_group = \<lparr>tg_aborting = False, tg_parent_running = True\<rparr>,
     cn_tasks = [], cn_checks = []\<rparr>"

text \<open>\<open>__aenter__\<close> enters the task group, which takes no task before.\<close>

definition connectivity_aenter :: "'p connectivity \<Rightarrow> 'p connectivity" where
  "connectivity_aenter c = c\<lparr>cn_entered := True\<rparr>"

section \<open>The operations\<close>

definition check_for_recent :: "'p check_request \<Rightarrow> 'p connectivity \<Rightarrow> nat option" where
  "check_for_recent request c =
     (case dget (cn_last_checked c) (cr_peer request) of
        None \<Rightarrow> None
      | Some (prev_request, fut) \<Rightarrow>
          if cr_time_stamp request - cr_time_stamp prev_request \<le> PING_TIME_CHECK_WINDOW then Some fut else None)"

text \<open>
  What \<open>new_check\<close> hands out: the future of a recorded check or the task of the new request.
  \<open>now\<close> is what \<open>time.monotonic()\<close> gives.
\<close>

datatype check_handle = Shared_Check nat | Own_Task nat

definition new_check :: "'p \<Rightarrow> rat \<Rightarrow> 'p connectivity \<Rightarrow> check_handle res \<times> 'p connectivity" where
  "new_check peer now c =
     (let req = \<lparr>cr_time_stamp = now, cr_peer = peer, cr_serious = False\<rparr>
      in case check_for_recent req c of
           Some fut \<Rightarrow> (Inr (Shared_Check fut), c)
         | None \<Rightarrow>
             if \<not> cn_entered c \<or> tg_aborting (cn_group c) then (Inl RuntimeError, c)
             else (Inr (Own_Task (length (cn_tasks c))), c\<lparr>cn_tasks := cn_tasks c @ [(req, Queued)]\<rparr>))"

text \<open>\<open>submit\<close>: the first step of the task \<open>i\<close>.\<close>

definition connectivity_submit :: "nat \<Rightarrow> 'p connectivity \<Rightarrow> 'p connectivity" where
  "connectivity_submit i c =
     (let request = fst (cn_tasks c ! i); fut = length (cn_checks c)
      in c\<lparr>cn_last_checked := dset (cr_peer request) (request, fut) (cn_last_checked c),
           cn_checks := cn_checks c @ [\<lparr>ck_request = request, ck_status = CHK_INITIATED, ck_future = None\<rparr>],
           cn_tasks := (cn_tasks c)[i := (request, Awaits fut)]\<rparr>)"

definition cancel_check :: "'p check \<Rightarrow> 'p check" where
  "cancel_check k = (if ck_future k = None then k\<lparr>ck_future := Some (Inl CancelledError)\<rparr> else k)"

text \<open>
  The check \<open>j\<close> ends: the task that waits for it ends the same way. When that makes the group abort, it
  cancels its other tasks, and with them the checks they wait for.
\<close>

definition drop_queued :: "queued_task \<Rightarrow> queued_task" where
  "drop_queued t = (if t = Queued then Dropped else t)"

definition end_check :: "nat \<Rightarrow> check_state \<Rightarrow> bool res \<Rightarrow> 'p connectivity \<Rightarrow> 'p connectivity" where
  "end_check j st r c =
     (let ended = (cn_checks c)[j := (cn_checks c ! j)\<lparr>ck_status := st, ck_future := Some r\<rparr>];
          g = task_done (map_sum id (\<lambda>_. ()) r) (cn_group c)
      in if tg_aborting g \<and> \<not> tg_aborting (cn_group c)
         then c\<lparr>cn_group := g, cn_checks := map cancel_check ended, cn_tasks := map (map_prod id drop_queued) (cn_tasks c)\<rparr>
         else c\<lparr>cn_group := g, cn_checks := ended\<rparr>)"

text \<open>
  \<open>_new_check\<close>: what the check meets, and the state it is in then. The ping is registered and sent,
  or that raises; the ping is answered in time or not; the attempt over TCP ends.
\<close>

datatype check_event = Ping_Sent "unit res" | Ping_Answered | Ping_Timed_Out | Tcp_Ended "unit res"

definition set_status :: "nat \<Rightarrow> check_state \<Rightarrow> 'p connectivity \<Rightarrow> 'p connectivity" where
  "set_status j st c = c\<lparr>cn_checks := (cn_checks c)[j := (cn_checks c ! j)\<lparr>ck_status := st\<rparr>]\<rparr>"

definition check_step :: "nat \<Rightarrow> check_event \<Rightarrow> 'p connectivity \<Rightarrow> 'p connectivity option" where
  "check_step j ev c =
     (case (ck_status (cn_checks c ! j), ev) of
        (CHK_INITIATED, Ping_Sent (Inr _)) \<Rightarrow> Some (set_status j REQ_CHECK c)
      | (CHK_INITIATED, Ping_Sent (Inl e)) \<Rightarrow> Some (end_check j REQ_CHECK (Inl e) c)
      | (REQ_CHECK, Ping_Answered) \<Rightarrow> Some (end_check j CHK_COMPLETED (Inr True) c)
      | (REQ_CHECK, Ping_Timed_Out) \<Rightarrow> Some (set_status j CON_CHECK c)
      | (CON_CHECK, Tcp_Ended (Inr _)) \<Rightarrow> Some (end_check j CHK_COMPLETED (Inr True) c)
      | (CON_CHECK, Tcp_Ended (Inl e)) \<Rightarrow>
          Some (if is_OSError e then end_check j CHK_COMPLETED (Inr False) c else end_check j CON_CHECK (Inl e) c)
      | _ \<Rightarrow> None)"

text \<open>
  \<open>__aexit__\<close> up to the exit of the group, which then waits for the tasks that are left.
\<close>

definition connectivity_aexit :: "'p connectivity \<Rightarrow> 'p connectivity" where
  "connectivity_aexit c = c\<lparr>cn_checks :=
     fold (\<lambda>j ks. ks[j := cancel_check (ks ! j)]) (map (\<lambda>(_, _, fut). fut) (cn_last_checked c)) (cn_checks c)\<rparr>"

text \<open>The result a caller gets when it awaits what it was handed, once there is one.\<close>

definition handle_result :: "'p connectivity \<Rightarrow> check_handle \<Rightarrow> bool res option" where
  "handle_result c h = (case h of
     Shared_Check j \<Rightarrow> ck_future (cn_checks c ! j)
   | Own_Task i \<Rightarrow> (case snd (cn_tasks c ! i) of
       Queued \<Rightarrow> None
     | Dropped \<Rightarrow> Some (Inl CancelledError)
     | Awaits j \<Rightarrow> ck_future (cn_checks c ! j)))"

section \<open>The transitions\<close>

inductive connectivity_step :: "rat \<times> 'p connectivity \<Rightarrow> rat \<times> 'p connectivity \<Rightarrow> bool" where
  entered: "connectivity_step (now, c) (now, connectivity_aenter c)"
| asked: "now \<le> t \<Longrightarrow> connectivity_step (now, c) (t, snd (new_check p t c))"
| started: "i < length (cn_tasks c) \<Longrightarrow> snd (cn_tasks c ! i) = Queued \<Longrightarrow> now \<le> t \<Longrightarrow>
    connectivity_step (now, c) (t, connectivity_submit i c)"
| proceeded: "j < length (cn_checks c) \<Longrightarrow> ck_future (cn_checks c ! j) = None \<Longrightarrow> now \<le> t \<Longrightarrow>
    check_step j ev c = Some c' \<Longrightarrow> connectivity_step (now, c) (t, c')"
| exited: "connectivity_step (now, c) (now, connectivity_aexit c)"

inductive_cases connectivity_step_cases: "connectivity_step s s'"

definition connectivity_start :: "rat \<times> 'p connectivity \<Rightarrow> bool" where
  "connectivity_start s \<longleftrightarrow> snd s = Connectivity_init"

section \<open>What stays in every transition\<close>

text \<open>
  Requests, the check a task waits for and results never change; tasks and checks are only added.
\<close>

definition extends :: "'p connectivity \<Rightarrow> 'p connectivity \<Rightarrow> bool" where
  "extends c d \<longleftrightarrow>
     length (cn_tasks c) \<le> length (cn_tasks d) \<and> length (cn_checks c) \<le> length (cn_checks d) \<and>
     (\<forall>i < length (cn_tasks c). fst (cn_tasks d ! i) = fst (cn_tasks c ! i) \<and>
        (snd (cn_tasks c ! i) \<noteq> Queued \<longrightarrow> snd (cn_tasks d ! i) = snd (cn_tasks c ! i))) \<and>
     (\<forall>j < length (cn_checks c). ck_request (cn_checks d ! j) = ck_request (cn_checks c ! j) \<and>
        (ck_future (cn_checks c ! j) \<noteq> None \<longrightarrow> cn_checks d ! j = cn_checks c ! j))"

lemma extends_refl [simp]: "extends c c"
  by (simp add: extends_def)

lemma extends_trans: "extends c d \<Longrightarrow> extends d e \<Longrightarrow> extends c e"
  by (auto simp: extends_def)

lemma nth_list_update_at: "i < length xs \<Longrightarrow> xs[j := x] ! i = (if j = i then x else xs ! i)"
  by (cases "j < length xs") (auto simp: nth_list_update)

lemma cancel_check_simps [simp]:
  "ck_request (cancel_check k) = ck_request k" "ck_future (cancel_check k) \<noteq> None"
  "ck_future k \<noteq> None \<Longrightarrow> cancel_check k = k" "cancel_check (cancel_check k) = cancel_check k"
  by (simp_all add: cancel_check_def)

lemma extends_tasks_checks:
  assumes "cn_tasks d = cn_tasks c" "length (cn_checks d) = length (cn_checks c)"
    and "\<And>j. j < length (cn_checks c) \<Longrightarrow> ck_request (cn_checks d ! j) = ck_request (cn_checks c ! j)"
    and "\<And>j. j < length (cn_checks c) \<Longrightarrow> ck_future (cn_checks c ! j) \<noteq> None \<Longrightarrow> cn_checks d ! j = cn_checks c ! j"
  shows "extends c d"
  using assms by (simp add: extends_def)

lemma new_check_extends: "extends c (snd (new_check p t c))"
  by (simp add: new_check_def Let_def extends_def nth_append split: option.split)

lemma submit_extends:
  assumes "i < length (cn_tasks c)" "snd (cn_tasks c ! i) = Queued"
  shows "extends c (connectivity_submit i c)"
  using assms by (auto simp: connectivity_submit_def extends_def Let_def nth_append nth_list_update)

lemma end_check_extends:
  assumes "ck_future (cn_checks c ! j) = None"
  shows "extends c (end_check j st r c)"
  using assms by (auto simp: end_check_def extends_def Let_def nth_list_update_at drop_queued_def)

lemma set_status_extends:
  assumes "ck_future (cn_checks c ! j) = None"
  shows "extends c (set_status j st c)"
  using assms by (auto simp: set_status_def extends_def nth_list_update_at)

lemma check_step_extends:
  assumes "check_step j ev c = Some d" "ck_future (cn_checks c ! j) = None"
  shows "extends c d"
  using assms end_check_extends[OF assms(2)] set_status_extends[OF assms(2)]
  by (auto simp: check_step_def split: check_state.splits check_event.splits sum.splits if_splits)

lemma cancel_all_nth:
  "length (fold (\<lambda>j ks. ks[j := cancel_check (ks ! j)]) js ks) = length ks \<and>
   (\<forall>i < length ks. fold (\<lambda>j ks. ks[j := cancel_check (ks ! j)]) js ks ! i = (if i \<in> set js then cancel_check (ks ! i) else ks ! i))"
proof (induction js arbitrary: ks)
  case (Cons j js)
  show ?case using Cons.IH[of "ks[j := cancel_check (ks ! j)]"] by (auto simp: nth_list_update_at)
qed simp

lemma aexit_extends: "extends c (connectivity_aexit c)"
  by (rule extends_tasks_checks) (simp_all add: connectivity_aexit_def cancel_all_nth)

lemma step_extends:
  assumes "connectivity_step s s'"
  shows "extends (snd s) (snd s') \<and> fst s \<le> fst s'"
  using assms
  by cases (simp_all add: new_check_extends submit_extends check_step_extends aexit_extends, simp add: connectivity_aenter_def extends_def)

lemma steps_extend: "connectivity_step\<^sup>*\<^sup>* s s' \<Longrightarrow> extends (snd s) (snd s') \<and> fst s \<le> fst s'"
  by (induction rule: rtranclp_induct) (auto dest: step_extends intro: extends_trans)

section \<open>The invariant\<close>

text \<open>
  The recorded check of a peer is a check of a request for it, a task waits for a check of its own
  request, no request comes from the future, and a check is completed if and only if it has an answer.
\<close>

definition check_wf :: "rat \<Rightarrow> 'p check \<Rightarrow> bool" where
  "check_wf now k \<longleftrightarrow> cr_time_stamp (ck_request k) \<le> now \<and>
     (ck_status k = CHK_COMPLETED \<longleftrightarrow> (\<exists>b. ck_future k = Some (Inr b)))"

definition last_wf :: "'p connectivity \<Rightarrow> bool" where
  "last_wf c \<longleftrightarrow> (\<forall>p req j. dget (cn_last_checked c) p = Some (req, j) \<longrightarrow>
     j < length (cn_checks c) \<and> ck_request (cn_checks c ! j) = req \<and> cr_peer req = p)"

definition tasks_wf :: "rat \<Rightarrow> 'p connectivity \<Rightarrow> bool" where
  "tasks_wf now c \<longleftrightarrow> (\<forall>i < length (cn_tasks c). cr_time_stamp (fst (cn_tasks c ! i)) \<le> now \<and>
     (\<forall>j. snd (cn_tasks c ! i) = Awaits j \<longrightarrow>
        j < length (cn_checks c) \<and> ck_request (cn_checks c ! j) = fst (cn_tasks c ! i)))"

definition connectivity_wf :: "rat \<times> 'p connectivity \<Rightarrow> bool" where
  "connectivity_wf s \<longleftrightarrow> last_wf (snd s) \<and> tasks_wf (fst s) (snd s) \<and> (\<forall>k \<in> set (cn_checks (snd s)). check_wf (fst s) k)"

lemma check_wf_later: "check_wf now k \<Longrightarrow> now \<le> t \<Longrightarrow> check_wf t k"
  by (auto simp: check_wf_def)

lemma tasks_wf_later: "tasks_wf now c \<Longrightarrow> now \<le> t \<Longrightarrow> tasks_wf t c"
  by (fastforce simp: tasks_wf_def)

lemma connectivity_wf_later: "connectivity_wf (now, c) \<Longrightarrow> now \<le> t \<Longrightarrow> connectivity_wf (t, c)"
  by (auto simp: connectivity_wf_def intro: check_wf_later tasks_wf_later)

lemma check_wf_cancel: "check_wf now k \<Longrightarrow> check_wf now (cancel_check k)"
  by (auto simp: check_wf_def cancel_check_def)

text \<open>Transitions that change checks only in place keep the records of them.\<close>

lemma wf_checks_changed:
  assumes "connectivity_wf (now, c)" "extends c d"
    and "cn_last_checked d = cn_last_checked c" "length (cn_tasks d) = length (cn_tasks c)"
    and "\<And>i j. i < length (cn_tasks c) \<Longrightarrow> snd (cn_tasks d ! i) = Awaits j \<Longrightarrow> snd (cn_tasks c ! i) = Awaits j"
    and "\<forall>k \<in> set (cn_checks d). check_wf now k"
  shows "connectivity_wf (now, d)"
proof -
  have "last_wf d"
    using assms(1-3) by (fastforce simp: connectivity_wf_def last_wf_def extends_def)
  moreover have "tasks_wf now d"
    using assms(1,2,4,5) by (fastforce simp: connectivity_wf_def tasks_wf_def extends_def)
  ultimately show ?thesis using assms(6) by (simp add: connectivity_wf_def)
qed

lemma wf_new_check:
  assumes "connectivity_wf (t, c)"
  shows "connectivity_wf (t, snd (new_check p t c))"
  using assms by (auto simp: new_check_def Let_def connectivity_wf_def last_wf_def tasks_wf_def nth_append less_Suc_eq split: option.split)

lemma wf_submit:
  assumes "connectivity_wf (t, c)" "i < length (cn_tasks c)"
  shows "connectivity_wf (t, connectivity_submit i c)"
proof -
  have "last_wf (connectivity_submit i c)"
    using assms by (fastforce simp: connectivity_wf_def last_wf_def connectivity_submit_def Let_def nth_append)
  moreover have "tasks_wf t (connectivity_submit i c)"
    using assms by (fastforce simp: connectivity_wf_def tasks_wf_def connectivity_submit_def Let_def nth_append nth_list_update_at)
  ultimately show ?thesis
    using assms by (auto simp: connectivity_wf_def connectivity_submit_def Let_def check_wf_def tasks_wf_def)
qed

lemma wf_set_status:
  assumes "connectivity_wf (t, c)" "j < length (cn_checks c)" "ck_future (cn_checks c ! j) = None" "st \<noteq> CHK_COMPLETED"
  shows "connectivity_wf (t, set_status j st c)"
proof (rule wf_checks_changed[OF assms(1) set_status_extends[OF assms(3)]])
  have "check_wf t ((cn_checks c ! j)\<lparr>ck_status := st\<rparr>)"
    using assms by (simp add: connectivity_wf_def check_wf_def)
  then show "\<forall>k \<in> set (cn_checks (set_status j st c)). check_wf t k"
    using assms(1) by (auto simp: set_status_def connectivity_wf_def dest!: subsetD[OF set_update_subset_insert])
qed (simp_all add: set_status_def)

lemma wf_end_check:
  assumes "connectivity_wf (t, c)" "j < length (cn_checks c)" "ck_future (cn_checks c ! j) = None"
    and "st = CHK_COMPLETED \<longleftrightarrow> (\<exists>b. r = Inr b)"
  shows "connectivity_wf (t, end_check j st r c)"
proof (rule wf_checks_changed[OF assms(1) end_check_extends[OF assms(3)]])
  have "check_wf t ((cn_checks c ! j)\<lparr>ck_status := st, ck_future := Some r\<rparr>)"
    using assms by (auto simp: connectivity_wf_def check_wf_def)
  then have "\<forall>k \<in> set ((cn_checks c)[j := (cn_checks c ! j)\<lparr>ck_status := st, ck_future := Some r\<rparr>]). check_wf t k"
    using assms(1) by (auto simp: connectivity_wf_def dest!: subsetD[OF set_update_subset_insert])
  then show "\<forall>k \<in> set (cn_checks (end_check j st r c)). check_wf t k"
    by (auto simp: end_check_def Let_def intro: check_wf_cancel)
qed (auto simp: end_check_def Let_def drop_queued_def split: if_splits)

lemma wf_check_step:
  assumes "connectivity_wf (t, c)" "j < length (cn_checks c)" "ck_future (cn_checks c ! j) = None" "check_step j ev c = Some d"
  shows "connectivity_wf (t, d)"
  using assms(4) wf_set_status[OF assms(1-3)] wf_end_check[OF assms(1-3)]
  by (auto simp: check_step_def split: check_state.splits check_event.splits sum.splits if_splits)

lemma wf_aexit:
  assumes "connectivity_wf (t, c)"
  shows "connectivity_wf (t, connectivity_aexit c)"
proof (rule wf_checks_changed[OF assms aexit_extends])
  show "\<forall>k \<in> set (cn_checks (connectivity_aexit c)). check_wf t k"
    using assms by (auto simp: connectivity_aexit_def connectivity_wf_def all_set_conv_all_nth cancel_all_nth check_wf_cancel)
qed (simp_all add: connectivity_aexit_def)

interpretation connectivity: inv_system connectivity_start connectivity_step connectivity_wf
proof
  fix s :: "rat \<times> 'a connectivity"
  assume "connectivity_start s"
  then show "connectivity_wf s"
    by (simp add: connectivity_start_def connectivity_wf_def Connectivity_init_def last_wf_def tasks_wf_def)
next
  fix s s' :: "rat \<times> 'a connectivity"
  assume wf: "connectivity_wf s" and step: "connectivity_step s s'"
  have later: "connectivity_wf (t, c)" if "s = (now, c)" "now \<le> t" for now t c
    using connectivity_wf_later wf that by blast
  from step show "connectivity_wf s'"
  proof cases
    case (entered now c)
    then show ?thesis
      using wf by (auto simp: connectivity_aenter_def connectivity_wf_def last_wf_def tasks_wf_def)
  next
    case (asked now t c p)
    then show ?thesis by (simp add: wf_new_check later)
  next
    case (started i c now t)
    then show ?thesis by (simp add: wf_submit later)
  next
    case (proceeded j c now t ev d)
    then show ?thesis by (simp add: wf_check_step[OF later])
  next
    case (exited now c)
    then show ?thesis by (simp add: wf_aexit later)
  qed
qed

section \<open>Properties\<close>

definition handle_request :: "'p connectivity \<Rightarrow> check_handle \<Rightarrow> 'p check_request" where
  "handle_request c h = (case h of Shared_Check j \<Rightarrow> ck_request (cn_checks c ! j) | Own_Task i \<Rightarrow> fst (cn_tasks c ! i))"

definition handle_valid :: "'p connectivity \<Rightarrow> check_handle \<Rightarrow> bool" where
  "handle_valid c h = (case h of Shared_Check j \<Rightarrow> j < length (cn_checks c) | Own_Task i \<Rightarrow> i < length (cn_tasks c))"

lemma new_check_handle:
  assumes "connectivity_wf (now, c)" "now \<le> t" "new_check p t c = (Inr h, c')"
  shows "handle_valid c' h \<and> cr_peer (handle_request c' h) = p \<and>
    t - PING_TIME_CHECK_WINDOW \<le> cr_time_stamp (handle_request c' h) \<and> cr_time_stamp (handle_request c' h) \<le> t"
proof (cases "check_for_recent \<lparr>cr_time_stamp = t, cr_peer = p, cr_serious = False\<rparr> c")
  case None
  then show ?thesis
    using assms by (auto simp: new_check_def Let_def handle_valid_def handle_request_def PING_TIME_CHECK_WINDOW_def split: if_splits)
next
  case (Some j)
  then obtain req where "dget (cn_last_checked c) p = Some (req, j)" "t - cr_time_stamp req \<le> PING_TIME_CHECK_WINDOW"
    by (auto simp: check_for_recent_def split: option.splits if_splits)
  moreover have "cr_time_stamp (ck_request (cn_checks c ! j)) \<le> now" if "j < length (cn_checks c)"
    using assms(1) that by (simp add: connectivity_wf_def check_wf_def)
  ultimately show ?thesis
    using Some assms by (fastforce simp: new_check_def handle_valid_def handle_request_def connectivity_wf_def last_wf_def)
qed

lemma handle_stays:
  assumes "extends c d" "handle_valid c h"
  shows "handle_valid d h" "handle_request d h = handle_request c h"
  using assms by (auto simp: extends_def handle_valid_def handle_request_def split: check_handle.splits)

lemma result_stays:
  assumes "connectivity_wf (now, c)" "extends c d" "handle_valid c h" "handle_result c h = Some r"
  shows "handle_result d h = Some r"
  using assms
  by (auto simp: extends_def handle_valid_def handle_result_def connectivity_wf_def tasks_wf_def
      split: check_handle.splits queued_task.splits)

lemma result_of_check:
  assumes "connectivity_wf (now, c)" "handle_valid c h" "handle_result c h = Some (Inr b)"
  shows "\<exists>k \<in> set (cn_checks c). ck_request k = handle_request c h \<and> ck_status k = CHK_COMPLETED \<and> ck_future k = Some (Inr b)"
proof -
  obtain j where "j < length (cn_checks c)" "ck_request (cn_checks c ! j) = handle_request c h"
    "ck_future (cn_checks c ! j) = Some (Inr b)"
    using assms
    by (fastforce simp: handle_valid_def handle_result_def handle_request_def connectivity_wf_def tasks_wf_def
        split: check_handle.splits queued_task.splits)
  then show ?thesis
    using assms(1) by (intro bexI[of _ "cn_checks c ! j"]) (auto simp: connectivity_wf_def check_wf_def)
qed

text \<open>
  C24. Whatever calls, tasks and checks come before, between and after: what a caller of \<open>new_check\<close> is
  handed belongs to a request for the peer it asked about, made at most three seconds before; an answer
  it gets by it is the answer of a completed check of that request; and once there is a result it is
  the result for ever.
\<close>

theorem check_answers_its_peer:
  assumes "reachable connectivity_start connectivity_step (now, c)" "now \<le> t" "new_check p t c = (Inr h, c')"
    and "connectivity_step\<^sup>*\<^sup>* (t, c') (u, d)"
  shows "cr_peer (handle_request d h) = p \<and> t - PING_TIME_CHECK_WINDOW \<le> cr_time_stamp (handle_request d h) \<and>
    cr_time_stamp (handle_request d h) \<le> t \<and>
    (\<forall>b. handle_result d h = Some (Inr b) \<longrightarrow> (\<exists>k \<in> set (cn_checks d).
       ck_request k = handle_request d h \<and> ck_status k = CHK_COMPLETED \<and> ck_future k = Some (Inr b))) \<and>
    (\<forall>r v e. handle_result d h = Some r \<longrightarrow> connectivity_step\<^sup>*\<^sup>* (u, d) (v, e) \<longrightarrow> handle_result e h = Some r)"
proof -
  have wf: "connectivity_wf (now, c)" by (rule connectivity.reachable_inv[OF assms(1)])
  then have wf': "connectivity_wf (t, c')"
    using wf_new_check[OF connectivity_wf_later[OF wf assms(2)], of p] assms(3) by simp
  then have d: "connectivity_wf (u, d)" by (rule connectivity.steps_inv[OF assms(4)])
  have ext: "extends c' d" using steps_extend[OF assms(4)] by simp
  note h = new_check_handle[OF wf assms(2,3)]
  have valid: "handle_valid d h" by (rule handle_stays(1)[OF ext conjunct1[OF h]])
  have req: "handle_request d h = handle_request c' h" by (rule handle_stays(2)[OF ext conjunct1[OF h]])
  have later: "handle_result e h = Some r" if "handle_result d h = Some r" "connectivity_step\<^sup>*\<^sup>* (u, d) (v, e)" for r v e
    by (rule result_stays[OF d _ valid that(1)]) (use steps_extend[OF that(2)] in simp)
  show ?thesis
    unfolding req using h result_of_check[OF d valid] later unfolding req by blast
qed

theorem check_answers_its_peer_witness:
  "let c = connectivity_aenter (Connectivity_init :: nat connectivity); c' = snd (new_check 7 1 c); d = connectivity_submit 0 c'
   in cr_peer (handle_request d (Own_Task 0)) = 7 \<and> cr_time_stamp (handle_request d (Own_Task 0)) \<le> 1"
proof -
  let ?c = "connectivity_aenter (Connectivity_init :: nat connectivity)"
  let ?c' = "snd (new_check 7 1 ?c)"
  have "reachable connectivity_start connectivity_step (0, ?c)"
    by (rule reachable_one[of _ "(0, Connectivity_init)"]) (simp_all add: connectivity_start_def connectivity_step.entered)
  moreover have "new_check 7 1 ?c = (Inr (Own_Task 0), ?c')"
    by (simp add: new_check_def check_for_recent_def Connectivity_init_def connectivity_aenter_def Let_def)
  moreover have "connectivity_step\<^sup>*\<^sup>* (1, ?c') (1, connectivity_submit 0 ?c')"
    by (rule r_into_rtranclp, rule connectivity_step.started)
      (simp_all add: new_check_def check_for_recent_def Connectivity_init_def connectivity_aenter_def Let_def)
  ultimately show ?thesis
    using check_answers_its_peer[of 0 ?c 1 7 "Own_Task 0" ?c' 1 "connectivity_submit 0 ?c'"] by (simp add: Let_def)
qed

text \<open>
  A check that has no result can go on, and every event of its own brings it nearer to its end, which it
  reaches after three of them at most; cancelling it ends it at once.
\<close>

fun check_rank :: "check_state \<Rightarrow> nat" where
  "check_rank CHK_INITIATED = 3"
| "check_rank REQ_CHECK = 2"
| "check_rank CON_CHECK = 1"
| "check_rank CHK_COMPLETED = 0"

lemma running_check_proceeds:
  assumes "connectivity_wf (now, c)" "j < length (cn_checks c)" "ck_future (cn_checks c ! j) = None"
  shows "\<exists>ev d. check_step j ev c = Some d"
proof -
  have "ck_status (cn_checks c ! j) \<noteq> CHK_COMPLETED"
    using assms by (auto simp: connectivity_wf_def check_wf_def)
  then have "check_step j (case ck_status (cn_checks c ! j) of CHK_INITIATED \<Rightarrow> Ping_Sent (Inr ()) | REQ_CHECK \<Rightarrow> Ping_Answered
      | _ \<Rightarrow> Tcp_Ended (Inr ())) c \<noteq> None"
    by (simp add: check_step_def split: check_state.split)
  then show ?thesis by blast
qed

lemma check_nearer_its_end:
  assumes "check_step j ev c = Some d" "j < length (cn_checks c)"
  shows "ck_future (cn_checks d ! j) \<noteq> None \<or>
    check_rank (ck_status (cn_checks d ! j)) < check_rank (ck_status (cn_checks c ! j))"
  using assms
  by (auto simp: check_step_def set_status_def end_check_def Let_def cancel_check_def
      split: check_state.splits check_event.splits sum.splits if_splits)

text \<open>
  \<open>remove_peer\<close> asks, and the task it then makes asks again: the task of the first request is older and
  runs first, so that there is one check for the two.
\<close>

lemma removal_checks_once:
  assumes "new_check p t c = (Inr (Own_Task i), c')" "t \<le> t'" "t' - t \<le> PING_TIME_CHECK_WINDOW"
  shows "new_check p t' (connectivity_submit i c') = (Inr (Shared_Check (length (cn_checks c'))), connectivity_submit i c') \<and>
    snd (cn_tasks (connectivity_submit i c') ! i) = Awaits (length (cn_checks c'))"
  using assms
  by (auto simp: new_check_def connectivity_submit_def check_for_recent_def Let_def nth_append split: option.splits if_splits)

text \<open>
  Two calls before the first task runs make two checks of the peer, and only the second is recorded: on
  exit the first one is not cancelled.
\<close>

lemma superseded_check_survives_exit:
  "let c1 = snd (new_check p t (connectivity_aenter Connectivity_init)); c2 = snd (new_check p t c1);
       d = connectivity_aexit (connectivity_submit 1 (connectivity_submit 0 c2))
   in map ck_future (cn_checks d) = [None, Some (Inl CancelledError)]"
  by (simp add: Let_def new_check_def check_for_recent_def Connectivity_init_def connectivity_aenter_def
      connectivity_submit_def connectivity_aexit_def cancel_check_def)

text \<open>Every recorded check has ended when the group is left, and before it is entered nothing is checked.\<close>

lemma exit_ends_recorded_checks:
  assumes "last_wf c" "dget (cn_last_checked c) p = Some (req, j)"
  shows "ck_future (cn_checks (connectivity_aexit c) ! j) \<noteq> None"
proof -
  have "j < length (cn_checks c)" "(p, req, j) \<in> set (cn_last_checked c)"
    using assms by (auto simp: last_wf_def dest: map_of_SomeD)
  moreover from this have "j \<in> set (map (\<lambda>(_, _, fut). fut) (cn_last_checked c))" by force
  ultimately have "cn_checks (connectivity_aexit c) ! j = cancel_check (cn_checks c ! j)"
    using cancel_all_nth[of "map (\<lambda>(_, _, fut). fut) (cn_last_checked c)" "cn_checks c"]
    by (simp add: connectivity_aexit_def del: set_map)
  then show ?thesis by simp
qed

lemma refused_before_entry: "new_check p t Connectivity_init = (Inl RuntimeError, Connectivity_init)"
  by (simp add: new_check_def check_for_recent_def Connectivity_init_def)

end
