(* ===== verification/Kad_Lookup.thy ===== *)
theory Kad_Lookup
  imports Kad_Server
begin

text \<open>
  Look-ups through the Kademlia server and the server's own life: \<open>get_list_of_nodes\<close>,
  \<open>prepare_kad_server\<close> and the context manager of \<open>src/core/_kademlia.py\<close>, the crawl for a list of
  peers in \<open>src/core/peers.py\<close> and its pages.

  The crawls of the kademlia package are arguments. What is used of them: the constructor of a crawl
  orders the nodes it starts from by their distance to the node it looks for, calling that object's
  \<open>distance_to\<close> (\<open>crawl_documented\<close>).
\<close>

section \<open>Answers\<close>

text \<open>\<open>RPCFindResponse.get_node_list\<close>: \<open>response[1] or []\<close>, each entry unpacked into \<open>RemotePeer(...)\<close>.\<close>

definition get_node_list :: "(pyval list \<Rightarrow> remote_peer res) \<Rightarrow> call_result \<Rightarrow> remote_peer list res" where
  "get_node_list mk_peer response =
     (if \<not> py_truth (snd response) then Inr []
      else case py_iter (snd response) of
        None \<Rightarrow> Inl TypeError
      | Some nodelist \<Rightarrow>
          map_res (\<lambda>nodeple. case py_iter nodeple of None \<Rightarrow> Inl TypeError | Some args \<Rightarrow> mk_peer args) nodelist)"

definition call_find_peer_list :: "'s caller \<Rightarrow> remote_peer \<Rightarrow> remote_peer \<Rightarrow> 's \<Rightarrow> call_result \<times> 's" where
  "call_find_peer_list c peer_to_ask node_to_find s = call_node c peer_to_ask (Find_List_Of_Peers (rp_id node_to_find)) s"

section \<open>Crawling for a list\<close>

text \<open>What a crawl looks for: a peer, or the module \<open>kademlia.node\<close>.\<close>

datatype crawl_target = Node_Module | Target remote_peer

text \<open>The lists of values a crawl for values finds, \<open>None\<close> when no node has one.\<close>

type_synonym value_crawl = "crawl_target \<Rightarrow> remote_peer list \<Rightarrow> pyval list list option res"

definition crawl_documented :: "value_crawl \<Rightarrow> bool" where
  "crawl_documented crawl \<longleftrightarrow> (\<forall>nearest. nearest \<noteq> [] \<longrightarrow> crawl Node_Module nearest = Inl AttributeError)"

text \<open>
  \<open>PeerListGetter._handle_found_values\<close>: the nearest node without the value, if there is one, is told;
  \<open>popleft\<close> of the package's heap gives \<open>None\<close> when it is empty.
\<close>

definition handle_found_values ::
    "'s caller \<Rightarrow> bytes \<Rightarrow> remote_peer list \<Rightarrow> pyval list list \<Rightarrow> 's \<Rightarrow> pyval list list \<times> 's" where
  "handle_found_values c node_id nearest_without_value values s =
     (case nearest_without_value of
        [] \<Rightarrow> (values, s)
      | p # _ \<Rightarrow> (values, snd (call_store_peers_in_list c p (Inr node_id) (PList (map PList values)) s)))"

text \<open>\<open>target\<close> is what the code hands to the crawl for the peer it has just made.\<close>

definition get_list_of_nodes ::
    "(remote_peer \<Rightarrow> crawl_target) \<Rightarrow> (remote_peer \<Rightarrow> remote_peer list) \<Rightarrow> value_crawl \<Rightarrow> (pyval \<Rightarrow> remote_peer res) \<Rightarrow>
     bytes \<Rightarrow> remote_peer list option res" where
  "get_list_of_nodes target find_neighbors crawl load list_key =
     (let peer = key_peer list_key; nearest = find_neighbors peer
      in if nearest = [] then Inr None
         else res_bind (crawl (target peer) nearest) (\<lambda>results. case results of
           None \<Rightarrow> Inr None
         | Some peer_lists \<Rightarrow> map_sum id Some (map_res load (concat peer_lists))))"

definition passed_target :: "remote_peer \<Rightarrow> crawl_target" where
  "passed_target peer = Node_Module"

definition get_relevant_peers_for_list_id ::
    "(remote_peer \<Rightarrow> remote_peer list) \<Rightarrow> (remote_peer \<Rightarrow> remote_peer list \<Rightarrow> remote_peer list) \<Rightarrow> bytes \<Rightarrow> remote_peer list" where
  "get_relevant_peers_for_list_id find_neighbors node_crawl list_id =
     node_crawl (key_peer list_id) (find_neighbors (key_peer list_id))"

definition remove_contact ::
    "(remote_peer \<Rightarrow> 't \<Rightarrow> 't) \<Rightarrow> bool option \<Rightarrow> bool \<Rightarrow> remote_peer \<Rightarrow> 't \<times> page \<Rightarrow> unit res \<times> remote_peer \<times> 't \<times> page" where
  "remove_contact table_remove result later peer st =
     (case kad_remove_peer result later peer (snd st) of
        (out, p, pg) \<Rightarrow> (out, p, table_remove peer (fst st), pg))"

section \<open>The server\<close>

text \<open>\<open>sv_protocol\<close> is the protocol once \<open>start\<close> has made it, with its transport.\<close>

record 'tr peer_server =
  sv_ksize :: nat
  sv_alpha :: nat
  sv_node :: "remote_peer option"
  sv_protocol :: "'tr option option"
  sv_transport :: "'tr option"
  sv_add_this_peer_task :: "nat option"
  sv_stopping :: bool

definition PeerServer_init :: "nat \<Rightarrow> nat \<Rightarrow> 'tr peer_server" where
  "PeerServer_init ksize alpha = \<lparr>sv_ksize = ksize, sv_alpha = alpha, sv_node = None, sv_protocol = None,
     sv_transport = None, sv_add_this_peer_task = None, sv_stopping = False\<rparr>"

definition server_start :: "'tr peer_server \<Rightarrow> 'tr peer_server" where
  "server_start s = s\<lparr>sv_protocol := Some None\<rparr>"

definition set_server_transport :: "'tr \<Rightarrow> 'tr peer_server \<Rightarrow> 'tr peer_server" where
  "set_server_transport tr s = s\<lparr>sv_transport := Some tr,
     sv_protocol := (case sv_protocol s of None \<Rightarrow> None | Some _ \<Rightarrow> Some (Some tr))\<rparr>"

definition prepare_kad_server :: "remote_peer \<Rightarrow> 'tr \<Rightarrow> 'tr peer_server" where
  "prepare_kad_server me kademlia_transport =
     set_server_transport kademlia_transport (server_start ((PeerServer_init 20 3)\<lparr>sv_node := Some me\<rparr>))"

text \<open>
  The first lines of \<open>add_this_peer_to_lists\<close>: whether the task \<open>t\<close> goes on. \<open>__aexit__\<close> cancels the task
  and awaits it; \<open>ended\<close> is how it ends, of which only \<open>CancelledError\<close> is swallowed.
\<close>

definition enter_add_this_peer :: "nat \<Rightarrow> 'tr peer_server \<Rightarrow> bool \<times> 'tr peer_server" where
  "enter_add_this_peer t s = (case sv_add_this_peer_task s of
     Some _ \<Rightarrow> (False, s) | None \<Rightarrow> (True, s\<lparr>sv_add_this_peer_task := Some t\<rparr>))"

definition server_aenter :: "'tr peer_server \<Rightarrow> 'tr peer_server" where
  "server_aenter s = s\<lparr>sv_stopping := False\<rparr>"

definition server_aexit :: "unit res \<Rightarrow> 'tr peer_server \<Rightarrow> unit res \<times> nat list \<times> 'tr peer_server" where
  "server_aexit ended s =
     (case sv_add_this_peer_task s of
        None \<Rightarrow> (Inr (), [], s\<lparr>sv_stopping := True\<rparr>)
      | Some t \<Rightarrow> (if ended = Inl CancelledError then Inr () else ended, [t], s\<lparr>sv_stopping := True\<rparr>))"

section \<open>Properties\<close>

text \<open>
  No page of peers is ever loaded from the network: once the node knows any neighbour, asking for more
  peers raises \<open>AttributeError\<close>, because the crawl is given the module \<open>node\<close> instead of the peer; before
  that the page is empty. Given the peer, a page is the peers found, each once.
\<close>

theorem pages_never_loaded:
  assumes "crawl_documented crawl"
  shows "fst (get_more_peers (get_list_of_nodes passed_target find_neighbors crawl load) st) \<in> {Inl AttributeError, Inr []}"
proof -
  have "get_list_of_nodes passed_target find_neighbors crawl load k \<in> {Inl AttributeError, Inr None}" for k
    using assms by (simp add: get_list_of_nodes_def passed_target_def crawl_documented_def Let_def)
  then have "get_list_of_nodes passed_target find_neighbors crawl load (node_list_ids ! fetch_index (fst st)) = Inl AttributeError \<or>
      get_list_of_nodes passed_target find_neighbors crawl load (node_list_ids ! fetch_index (fst st)) = Inr None"
    by blast
  then show ?thesis
    by (cases st) (auto simp: get_more_peers_def Let_def)
qed

theorem pages_never_loaded_witness:
  "fst (get_more_peers (get_list_of_nodes passed_target (\<lambda>p. [key_peer [1]])
     (\<lambda>t ns. case t of Node_Module \<Rightarrow> Inl AttributeError | Target p \<Rightarrow> Inr (Some [])) (\<lambda>v. Inr (key_peer [2]))) (0, []))
   \<in> {Inl AttributeError, Inr []}"
  by (rule pages_never_loaded) (simp add: crawl_documented_def)

lemma page_of_peers:
  assumes "find_neighbors (key_peer (node_list_ids ! fetch_index i)) = n # ns"
    and "crawl (Target (key_peer (node_list_ids ! fetch_index i))) (n # ns) = Inr (Some vs)"
    and "map_res load (concat vs) = Inr (p # ps)"
  shows "get_more_peers (get_list_of_nodes Target find_neighbors crawl load) (i, d) =
    (Inr (dedup_peers (p # ps)), Suc (fetch_index i), extend_peers (p # ps) d)"
  using assms by (simp add: get_more_peers_def get_list_of_nodes_def Let_def)

text \<open>The server that \<open>prepare_kad_server\<close> makes sends through the transport it was given.\<close>

lemma prepared_server:
  "sv_protocol (prepare_kad_server me tr) = Some (Some tr)" "sv_node (prepare_kad_server me tr) = Some me"
  by (simp_all add: prepare_kad_server_def set_server_transport_def server_start_def PeerServer_init_def)

text \<open>The entry is kept by one task at most, and leaving the server's context ends that task.\<close>

lemma one_keeping_task:
  assumes "enter_add_this_peer t s = (True, s')"
  shows "enter_add_this_peer u s' = (False, s')" "server_aexit (Inl CancelledError) s' = (Inr (), [t], s'\<lparr>sv_stopping := True\<rparr>)"
  using assms by (auto simp: enter_add_this_peer_def server_aexit_def split: option.splits)

lemma stopped_task_stores_nothing_more:
  "sv_stopping (snd (snd (server_aexit ended s)))" "\<not> sv_stopping (server_aenter s)"
  by (simp_all add: server_aexit_def server_aenter_def split: option.split)

end
