(* ===== verification/Status.thy ===== *)
theory Status
  imports Py_Float
begin

text \<open>
  \<open>src/transfers/status.py\<close>: the progress of a transfer and the decision when the page is told about
  it. The yield points are computed in floating point (\<open>Py_Float\<close>), lazily in the source and all at
  once here. The progress bar is represented by the count it shows.
\<close>

section \<open>Signed float arithmetic\<close>

definition fl_signed :: "rat \<Rightarrow> rat" where
  "fl_signed x = (if x < 0 then - fl (- x) else fl x)"

text \<open>\<open>int(x)\<close> of a float.\<close>

definition py_int :: "rat \<Rightarrow> int" where
  "py_int x = (if x < 0 then - \<lfloor>- x\<rfloor> else \<lfloor>x\<rfloor>)"

section \<open>StatusMixIn\<close>

record status =
  st_next_yield_point :: int
  st_yield_freq :: nat
  st_current_status :: int
  st_yield_iterator :: "int list option"
  st_progress_bar :: "int option"

definition StatusMixIn :: "nat \<Rightarrow> status" where
  "StatusMixIn yield_freq =
     \<lparr>st_next_yield_point = - 1, st_yield_freq = yield_freq, st_current_status = 0,
      st_yield_iterator = Some (map int [0..<yield_freq]), st_progress_bar = None\<rparr>"

definition update_status :: "int \<Rightarrow> status \<Rightarrow> unit res \<times> status" where
  "update_status v s = (case st_progress_bar s of
     None \<Rightarrow> (Inl AttributeError, s)
   | Some n \<Rightarrow> (Inr (), s\<lparr>st_progress_bar := Some (n + (v - st_current_status s)), st_current_status := v\<rparr>))"

definition should_yield :: "status \<Rightarrow> bool res \<times> status" where
  "should_yield s =
     (if st_current_status s > st_next_yield_point s then
        (case st_yield_iterator s of
           None \<Rightarrow> (Inl TypeError, s)
         | Some [] \<Rightarrow> (Inl StopIteration, s)
         | Some (p # ps) \<Rightarrow> (Inr True, s\<lparr>st_next_yield_point := p, st_yield_iterator := Some ps\<rparr>))
      else (Inr False, s))"

definition yield_point :: "int \<Rightarrow> int \<Rightarrow> nat \<Rightarrow> nat \<Rightarrow> int" where
  "yield_point initial_limit final_limit yield_freq i =
     (let spacing = fl_signed (of_int (final_limit - initial_limit) / of_nat (yield_freq - 1))
      in min final_limit (py_int (fl_signed (fl_signed (of_int initial_limit) + fl_signed (of_nat i * spacing)))))"

definition status_setup :: "int \<Rightarrow> int \<Rightarrow> status \<Rightarrow> status" where
  "status_setup initial_limit final_limit s =
     (let s1 = s\<lparr>st_progress_bar := Some initial_limit\<rparr> in
      if st_yield_freq s < 2
      then s1\<lparr>st_next_yield_point := final_limit + 1, st_yield_iterator := None\<rparr>
      else case map (yield_point initial_limit final_limit (st_yield_freq s)) [0..<st_yield_freq s] of
        [] \<Rightarrow> s1
      | p # ps \<Rightarrow> s1\<lparr>st_yield_iterator := Some ps, st_next_yield_point := p\<rparr>)"

text \<open>
  What the loops of the managers do: every step of the transfer updates the status, and the consumer
  asks whether the page is to be told.
\<close>

fun status_run :: "int list \<Rightarrow> status \<Rightarrow> bool list res \<times> status" where
  "status_run [] s = (Inr [], s)"
| "status_run (v # vs) s =
     (case update_status v s of
        (Inl e, s1) \<Rightarrow> (Inl e, s1)
      | (Inr _, s1) \<Rightarrow>
          (case should_yield s1 of
             (Inl e, s2) \<Rightarrow> (Inl e, s2)
           | (Inr b, s2) \<Rightarrow>
               (case status_run vs s2 of
                  (Inl e, s3) \<Rightarrow> (Inl e, s3)
                | (Inr bs, s3) \<Rightarrow> (Inr (b # bs), s3))))"

section \<open>Ninths come back exactly\<close>

lemma round_half_even_near: "\<bar>x - of_int n\<bar> < 1 / 2 \<Longrightarrow> round_half_even x = n"
proof -
  assume x: "\<bar>x - of_int n\<bar> < 1 / 2"
  then have "\<lfloor>x\<rfloor> = n \<or> \<lfloor>x\<rfloor> = n - 1"
    by linarith
  then show ?thesis
    using x by (auto simp: round_half_even_def Let_def)
qed

lemma round_half_even_tie: "\<bar>x - of_int n\<bar> \<le> 1 / 2 \<Longrightarrow> even n \<Longrightarrow> round_half_even x = n"
proof -
  assume x: "\<bar>x - of_int n\<bar> \<le> 1 / 2" and n: "even n"
  consider "\<bar>x - of_int n\<bar> < 1 / 2" | "x = of_int n + 1 / 2" | "x = of_int n - 1 / 2"
    using x by linarith
  then show ?thesis
  proof cases
    case 1
    then show ?thesis by (rule round_half_even_near)
  next
    case 2
    then have "\<lfloor>x\<rfloor> = n" by linarith
    then show ?thesis using 2 n by (simp add: round_half_even_def Let_def)
  next
    case 3
    then have "\<lfloor>x\<rfloor> = n - 1" by linarith
    then show ?thesis using 3 n by (simp add: round_half_even_def Let_def)
  qed
qed

lemma round_half_even_error: "\<bar>of_int (round_half_even x) - x\<bar> \<le> 1 / 2"
proof -
  have "of_int \<lfloor>x\<rfloor> \<le> x" "x < of_int \<lfloor>x\<rfloor> + 1" by linarith+
  then show ?thesis by (auto simp: round_half_even_def Let_def abs_le_iff)
qed

lemma fl_eqI:
  assumes "0 < x" "2 powi e \<le> x" "x < 2 powi (e + 1)" "round_half_even (x / 2 powi (e - 52)) = n"
  shows "fl x = of_int n * 2 powi (e - 52)"
  using assms binexp_eqI[OF assms(1-3)] by (simp add: fl_def Let_def)

text \<open>
  Nine times the rounded ninth of a number below \<open>2 ^ 52\<close> rounds to that number again: nine is a sum
  of two powers of two.
\<close>

lemma fl_ninth:
  assumes "0 < D" "D < 2 ^ 52"
  shows "fl (9 * fl (of_nat D / 9)) = of_nat D"
proof -
  define q :: rat where "q = of_nat D / 9"
  define e where "e = binexp q"
  have q: "0 < q" using assms(1) by (simp add: q_def)
  have be: "2 powi e \<le> q" "q < 2 powi (e + 1)" using binexp_bounds[OF q] by (simp_all add: e_def)
  have "q < 2 powi 49"
  proof -
    have "(of_nat D :: rat) < of_nat (2 ^ 52)" using assms(2) by (simp only: of_nat_less_iff)
    then show ?thesis by (simp add: q_def)
  qed
  with be(1) have "(2::rat) powi e < 2 powi 49" by (rule le_less_trans)
  then have e: "e \<le> 48" by (simp only: powi2_less_iff)
  define u :: rat where "u = 2 powi (e - 52)"
  have u: "0 < u" by (simp add: u_def)
  define N' where "N' = int D * 2 ^ nat (48 - e)"
  have N: "(of_nat D :: rat) = of_int (16 * N') * u"
  proof -
    have "(2::rat) powi (48 - e) * 2 powi (e - 52) = 2 powi - 4"
      by (simp add: power_int_add[symmetric])
    moreover have "(2::rat) powi (48 - e) = 2 ^ nat (48 - e)" using e by (simp add: power_int_def)
    ultimately show ?thesis by (simp add: N'_def u_def power_int_minus)
  qed
  define r where "r = round_half_even (q / u)"
  have flq: "fl q = of_int r * u"
    using q by (simp add: fl_def Let_def r_def u_def e_def)
  have qu: "q / u = of_int (16 * N') / 9" using N u by (simp add: q_def)
  have "\<bar>of_int r - of_int (16 * N') / (9 :: rat)\<bar> \<le> 1 / 2"
    using round_half_even_error[of "q / u"] unfolding qu r_def by simp
  then have "\<bar>9 * (of_int r - of_int (16 * N') / (9 :: rat))\<bar> \<le> 9 / 2"
    unfolding abs_mult by simp
  then have "\<bar>of_int (9 * r - 16 * N') :: rat\<bar> \<le> 9 / 2"
    by (simp add: right_diff_distrib)
  then have "(of_int (2 * \<bar>9 * r - 16 * N'\<bar>) :: rat) \<le> of_int 9"
    by simp
  then have "2 * \<bar>9 * r - 16 * N'\<bar> \<le> 9" by (simp only: of_int_le_iff)
  moreover have "k \<le> 4" if "2 * k \<le> 9" for k :: int using that by arith
  ultimately have "\<bar>9 * r - 16 * N'\<bar> \<le> 4" by blast
  then have "of_int \<bar>9 * r - 16 * N'\<bar> \<le> (of_int 4 :: rat)" by (simp only: of_int_le_iff)
  define dev :: rat where "dev = of_int (9 * r - 16 * N')"
  have dev: "\<bar>dev\<bar> \<le> 4"
    using \<open>of_int \<bar>9 * r - 16 * N'\<bar> \<le> (of_int 4 :: rat)\<close> by (simp only: dev_def of_int_abs of_int_numeral)
  have "of_int (2 ^ 52) \<le> q / u" "q / u < of_int (2 ^ 53)"
    using scaled_bounds[OF q] by (simp_all add: u_def e_def)
  then have "2 ^ 52 \<le> r" "r \<le> 2 ^ 53"
    using round_half_even_mono[of "of_int (2 ^ 52)" "q / u"] round_half_even_mono[of "q / u" "of_int (2 ^ 53)"]
    unfolding r_def round_half_even_int by simp_all
  then have r9: "2 ^ 55 \<le> 9 * r" "9 * r < 2 ^ 57" by simp_all
  have x: "9 * fl q = of_int (9 * r) * u" by (simp add: flq)
  have pos: "0 < 9 * fl q" using r9(1) u by (simp add: x)
  have scale: "(2::rat) powi (e + k) = 2 powi (52 + k) * u" for k
    by (simp add: u_def power_int_add[symmetric] add.commute)
  have "fl (9 * fl q) = of_int (16 * N') * u"
  proof (cases "9 * r < 2 ^ 56")
    case True
    have "(of_int (2 ^ 55) :: rat) \<le> of_int (9 * r)" "(of_int (9 * r) :: rat) < of_int (2 ^ 56)"
      using r9(1) True by (simp_all only: of_int_le_iff of_int_less_iff)
    then have b: "2 powi (e + 3) \<le> 9 * fl q" "9 * fl q < 2 powi (e + 3 + 1)"
      using u scale[of 3] scale[of 4] unfolding x by (simp_all add: add.assoc)
    have "2 powi (e + 3 - 52) = 8 * u" by (simp add: u_def power_int_add[symmetric] add.commute add_diff_eq power_int_diff)
    then have eq: "9 * fl q / 2 powi (e + 3 - 52) - of_int (2 * N') = dev / 8"
      using u by (simp add: flq dev_def field_simps)
    have "\<bar>9 * fl q / 2 powi (e + 3 - 52) - of_int (2 * N')\<bar> \<le> 1 / 2"
      unfolding eq abs_divide using dev by simp
    then have "round_half_even (9 * fl q / 2 powi (e + 3 - 52)) = 2 * N'"
      by (rule round_half_even_tie) simp
    from fl_eqI[OF pos b this] \<open>2 powi (e + 3 - 52) = 8 * u\<close> show ?thesis by simp
  next
    case False
    have "(of_int (2 ^ 56) :: rat) \<le> of_int (9 * r)" "(of_int (9 * r) :: rat) < of_int (2 ^ 57)"
      using r9(2) False by (simp_all only: of_int_le_iff of_int_less_iff not_less)
    then have b: "2 powi (e + 4) \<le> 9 * fl q" "9 * fl q < 2 powi (e + 4 + 1)"
      using u scale[of 4] scale[of 5] unfolding x by (simp_all add: add.assoc)
    have "2 powi (e + 4 - 52) = 16 * u" by (simp add: u_def power_int_add[symmetric] add.commute add_diff_eq power_int_diff)
    then have eq: "9 * fl q / 2 powi (e + 4 - 52) - of_int N' = dev / 16"
      using u by (simp add: flq dev_def field_simps)
    have "\<bar>9 * fl q / 2 powi (e + 4 - 52) - of_int N'\<bar> < 1 / 2"
      unfolding eq abs_divide using dev by simp
    then have "round_half_even (9 * fl q / 2 powi (e + 4 - 52)) = N'"
      by (rule round_half_even_near)
    from fl_eqI[OF pos b this] \<open>2 powi (e + 4 - 52) = 16 * u\<close> show ?thesis by simp
  qed
  then show ?thesis by (simp add: N q_def)
qed

section \<open>The decisions of a transfer\<close>

lemma py_int_of_int [simp]: "py_int (of_int n) = n"
  by (simp add: py_int_def)

lemma last_yield_point:
  assumes "0 \<le> a" "a \<le> b" "b < 2 ^ 52"
  shows "yield_point a b 10 9 = b"
proof -
  have a: "fl_signed (of_int a) = of_int a"
    using fl_nat[of "nat a"] assms by (simp add: fl_signed_def)
  have sum: "fl_signed (of_int b) = of_int b"
    using fl_nat[of "nat b"] assms by (simp add: fl_signed_def)
  have "fl_signed (9 * fl_signed (of_int (b - a) / 9)) = of_int (b - a)"
  proof (cases "a = b")
    case True
    then show ?thesis by (simp add: fl_signed_def fl_def)
  next
    case False
    have "fl (9 * fl (of_nat (nat (b - a)) / 9)) = of_nat (nat (b - a))"
      using assms False by (intro fl_ninth) auto
    moreover have "0 \<le> fl (of_nat (nat (b - a)) / 9 :: rat)"
      using double.rnd_nonneg[of "of_nat (nat (b - a)) / 9"] by simp
    moreover have "(of_nat (nat (b - a)) :: rat) = of_int (b - a)"
      using assms(2) by (simp only: of_nat_nat diff_ge_0_iff_ge)
    ultimately show ?thesis using assms(2) by (simp add: fl_signed_def)
  qed
  then show ?thesis
    using a sum by (simp add: yield_point_def)
qed

text \<open>The status of a transfer with points left to announce, the last one being its end.\<close>

definition status_wf :: "int \<Rightarrow> nat \<Rightarrow> status \<Rightarrow> bool" where
  "status_wf final_limit n s \<longleftrightarrow> st_progress_bar s \<noteq> None \<and>
     (\<exists>ps. st_yield_iterator s = Some ps \<and> length ps = n \<and> last (st_next_yield_point s # ps) = final_limit)"

lemma status_wf_setup:
  assumes "st_yield_freq s = 10" "0 \<le> a" "a \<le> b" "b < 2 ^ 52"
  shows "status_wf b 9 (status_setup a b s)"
proof -
  have "[0..<10] = 0 # [1..<9] @ [9]"
    by (simp add: upt_rec)
  then show ?thesis
    using last_yield_point[OF assms(2-)] assms(1)
    by (simp add: status_setup_def status_wf_def Let_def del: upt_Suc upt_conv_Cons)
qed

lemma status_wf_round:
  assumes "status_wf b n s" "v \<le> b"
  shows "\<exists>s1 answer s2. update_status v s = (Inr (), s1) \<and> should_yield s1 = (Inr answer, s2) \<and>
    (if answer then 0 < n \<and> status_wf b (n - 1) s2 else status_wf b n s2)"
proof -
  let ?s1 = "snd (update_status v s)"
  obtain ps where ps: "st_yield_iterator s = Some ps" "length ps = n" "last (st_next_yield_point s # ps) = b"
      and bar: "st_progress_bar s \<noteq> None"
    using assms(1) by (auto simp: status_wf_def)
  have up: "update_status v s = (Inr (), ?s1)" "st_yield_iterator ?s1 = Some ps" "st_current_status ?s1 = v"
      "st_next_yield_point ?s1 = st_next_yield_point s" "st_progress_bar ?s1 \<noteq> None"
    using bar ps(1) by (auto simp: update_status_def)
  show ?thesis
  proof (cases "v > st_next_yield_point s")
    case True
    then obtain p qs where pq: "ps = p # qs" using ps(3) assms(2) by (cases ps) auto
    let ?s2 = "?s1\<lparr>st_next_yield_point := p, st_yield_iterator := Some qs\<rparr>"
    have "should_yield ?s1 = (Inr True, ?s2)"
      using up True pq by (simp add: should_yield_def)
    moreover have "status_wf b (n - 1) ?s2" "0 < n"
      using up ps pq by (auto simp: status_wf_def)
    ultimately show ?thesis
      using up(1) by (metis (full_types))
  next
    case False
    then have "should_yield ?s1 = (Inr False, ?s1)" using up by (simp add: should_yield_def)
    moreover have "status_wf b n ?s1" using up ps by (simp add: status_wf_def)
    ultimately show ?thesis
      using up(1) by (metis (full_types))
  qed
qed

lemma status_run_wf:
  "status_wf b n s \<Longrightarrow> \<forall>v \<in> set vs. v \<le> b \<Longrightarrow>
   \<exists>answers s'. status_run vs s = (Inr answers, s') \<and> length answers = length vs \<and> count_list answers True \<le> n"
proof (induction vs arbitrary: n s)
  case (Cons v vs)
  obtain s1 answer s2 where r: "update_status v s = (Inr (), s1)" "should_yield s1 = (Inr answer, s2)"
      "if answer then 0 < n \<and> status_wf b (n - 1) s2 else status_wf b n s2"
    using status_wf_round[OF Cons.prems(1), of v] Cons.prems(2) by auto
  show ?case
  proof (cases answer)
    case True
    then obtain answers s' where "status_run vs s2 = (Inr answers, s')" "length answers = length vs"
        "count_list answers True \<le> n - 1"
      using Cons.IH[of "n - 1" s2] r(3) Cons.prems(2) by auto
    then show ?thesis using r True by auto
  next
    case False
    then obtain answers s' where "status_run vs s2 = (Inr answers, s')" "length answers = length vs"
        "count_list answers True \<le> n"
      using Cons.IH[of n s2] r(3) Cons.prems(2) by auto
    then show ?thesis using r False by auto
  qed
qed simp

definition TRANSFER_STATUS_UPDATE_FREQ :: nat where "TRANSFER_STATUS_UPDATE_FREQ = 10"

text \<open>
  C30. With the configured frequency the progress of a transfer never disturbs it: for every file
  below \<open>2 ^ 52\<close> bytes, every starting position and every sequence of positions up to its end, the
  update and the decision return, and the page is told at most nine times. The floating-point
  spacing of the yield points hits the end of the file exactly, so the iterator is never exhausted.
\<close>

theorem status_updates_bounded:
  assumes "st_yield_freq s = TRANSFER_STATUS_UPDATE_FREQ" "0 \<le> initial_limit" "initial_limit \<le> final_limit"
    "final_limit < 2 ^ 52" "\<forall>v \<in> set vs. v \<le> final_limit"
  shows "\<exists>answers s'. status_run vs (status_setup initial_limit final_limit s) = (Inr answers, s') \<and>
    length answers = length vs \<and> count_list answers True \<le> 9"
  using status_run_wf[OF status_wf_setup[OF _ assms(2-4)] assms(5)] assms(1)
  by (simp add: TRANSFER_STATUS_UPDATE_FREQ_def)

theorem status_updates_bounded_witness:
  "\<exists>answers s'. status_run [10, 20, 53] (status_setup 0 53 (StatusMixIn 10)) = (Inr answers, s') \<and>
     count_list answers True \<le> 9"
  using status_updates_bounded[of "StatusMixIn 10" 0 53 "[10, 20, 53]"]
  by (auto simp: StatusMixIn_def TRANSFER_STATUS_UPDATE_FREQ_def)

text \<open>
  This rests on the frequency: with twenty points the last one of a file of 53 bytes is 52, and the
  update at its end finds the iterator exhausted, which raises \<open>StopIteration\<close> in the transfer.
\<close>

lemma status_rounding_stops:
  "yield_point 0 53 20 19 = 52"
  "should_yield \<lparr>st_next_yield_point = 52, st_yield_freq = 20, st_current_status = 53,
     st_yield_iterator = Some [], st_progress_bar = Some 53\<rparr> =
   (Inl StopIteration, \<lparr>st_next_yield_point = 52, st_yield_freq = 20, st_current_status = 53,
     st_yield_iterator = Some [], st_progress_bar = Some 53\<rparr>)"
proof -
  have near: "fl x = of_int n * 2 powi (e - 52)"
    if "0 < x" "2 powi e \<le> x" "x < 2 powi (e + 1)" "\<bar>x / 2 powi (e - 52) - of_int n\<bar> < 1 / 2" for x e n
    using fl_eqI[OF that(1-3) round_half_even_near[OF that(4)]] .
  have pw: "(2::rat) powi 1 = 2" "(2::rat) powi 2 = 4" "(2::rat) powi - 51 = 1 / 2251799813685248"
      "(2::rat) powi 5 = 32" "(2::rat) powi 6 = 64" "(2::rat) powi - 47 = 1 / 140737488355328"
    by (simp_all add: power_int_def power_one_over)
  have q: "fl (53 / 19) = 6281336322385165 / 2251799813685248"
    using near[of "53 / 19" 1 6281336322385165] by (simp add: pw)
  have x: "fl (119345390125318135 / 2251799813685248) = 7459086882832383 / 140737488355328"
    using near[of "119345390125318135 / 2251799813685248" 5 7459086882832383] by (simp add: pw)
  have y: "fl (7459086882832383 / 140737488355328) = 7459086882832383 / 140737488355328"
    using near[of "7459086882832383 / 140737488355328" 5 7459086882832383] by (simp add: pw)
  have z: "fl 0 = 0" by (simp add: fl_def)
  have "\<lfloor>7459086882832383 / (140737488355328 :: rat)\<rfloor> = 52" by (simp add: floor_eq_iff)
  then show "yield_point 0 53 20 19 = 52"
    by (simp add: yield_point_def fl_signed_def q x y z py_int_def)
qed (simp add: should_yield_def)

section \<open>StatusIterator\<close>

datatype queue_item = Sentinel | Raised py_exn | Position int

record status_iterator =
  si_status :: status
  si_queue :: "queue_item list"
  si_exp :: queue_item

definition StatusIterator :: "nat \<Rightarrow> status_iterator" where
  "StatusIterator yield_freq = \<lparr>si_status = StatusMixIn yield_freq, si_queue = [], si_exp = Sentinel\<rparr>"

text \<open>The coroutine \<open>_queue.put(...)\<close> is created and never awaited, so the queue stays as it is.\<close>

definition iterator_update_status :: "int \<Rightarrow> status_iterator \<Rightarrow> unit res \<times> status_iterator" where
  "iterator_update_status v it =
     (case update_status v (si_status it) of
        (Inl e, s1) \<Rightarrow> (Inl e, it\<lparr>si_status := s1\<rparr>)
      | (Inr _, s1) \<Rightarrow>
          (case should_yield s1 of
             (Inl e, s2) \<Rightarrow> (Inl e, it\<lparr>si_status := s2\<rparr>)
           | (Inr _, s2) \<Rightarrow> (Inr (), it\<lparr>si_status := s2\<rparr>)))"

definition iterator_stop :: "py_exn option \<Rightarrow> status_iterator \<Rightarrow> status_iterator" where
  "iterator_stop any_exp it =
     (let e = (case any_exp of None \<Rightarrow> Sentinel | Some x \<Rightarrow> Raised x)
      in it\<lparr>si_exp := e, si_queue := si_queue it @ [e]\<rparr>)"

text \<open>\<open>__anext__\<close>: \<open>None\<close> waits for an item.\<close>

definition iterator_anext :: "status_iterator \<Rightarrow> (int res \<times> status_iterator) option" where
  "iterator_anext it = (case si_queue it of
     [] \<Rightarrow> None
   | item # q \<Rightarrow> Some (case item of
         Sentinel \<Rightarrow> Inl StopAsyncIteration
       | Raised e \<Rightarrow> Inl e
       | Position i \<Rightarrow> Inr i, it\<lparr>si_queue := q\<rparr>))"

lemma status_iterator_silent:
  "si_queue (snd (iterator_update_status v it)) = si_queue it"
  by (simp add: iterator_update_status_def split: prod.split sum.split)

text \<open>Whatever a transfer reports, iterating over its status gives no position before it is stopped.\<close>

lemma status_iterator_waits:
  "iterator_anext (fold (\<lambda>v it. snd (iterator_update_status v it)) vs (StatusIterator n)) = None"
proof -
  have "si_queue (fold (\<lambda>v it. snd (iterator_update_status v it)) vs it) = si_queue it" for it
    by (induction vs arbitrary: it) (simp_all add: status_iterator_silent)
  then show ?thesis by (simp add: iterator_anext_def StatusIterator_def)
qed

end
