(* ===== verification/State_Manager.thy ===== *)
theory State_Manager
  imports Prelude
begin

text \<open>
  The program's main loop, \<open>src/managers/statemanager.py\<close>, and the states it starts with,
  \<open>src/main.py\<close>: states are put into a queue and \<open>process_states\<close> enters them one after the other.

  \<open>'f\<close> names the functions that states run. What a function does besides is the environment's: it
  may put states, set events and stop the manager in any order, while the loop waits and while a
  state runs. A task keeps the state's function it was made for.
\<close>

section \<open>States\<close>

record 'f state =
  st_name :: string
  st_func :: 'f
  st_is_coro :: bool
  st_is_blocking :: bool
  st_event :: "nat option"

definition State :: "('f \<Rightarrow> bool) \<Rightarrow> string \<Rightarrow> 'f \<Rightarrow> bool \<Rightarrow> nat option \<Rightarrow> 'f state" where
  "State is_coro name func is_blocking event_to_wait =
     \<lparr>st_name = name, st_func = func, st_is_coro = is_coro func, st_is_blocking = is_blocking, st_event = event_to_wait\<rparr>"

text \<open>
  What \<open>enter_state\<close> does after its event: it runs the function to its end, or hands it to a task or
  a thread. \<open>func_out\<close> is the outcome of a function that is run to its end: its task or another value.
\<close>

datatype 'f entered = Ran "('f option) res" | Tasked 'f | Threaded 'f

definition enter_state :: "('f option) res \<Rightarrow> 'f state \<Rightarrow> 'f entered" where
  "enter_state func_out s =
     (if \<not> st_is_blocking s then Ran func_out
      else if st_is_coro s then Tasked (st_func s) else Threaded (st_func s))"

definition ret_val :: "'f entered \<Rightarrow> ('f option) res" where
  "ret_val r = (case r of Ran out \<Rightarrow> out | Tasked f \<Rightarrow> Inr (Some f) | Threaded f \<Rightarrow> Inr None)"

section \<open>StateManager\<close>

text \<open>
  Where the loop is: at its condition, waiting for a state, in a state, or left, by its condition
  (\<open>None\<close>) or by an exception. The state \<open>None\<close> can be put as well; it has no \<open>enter_state\<close>.
\<close>

datatype 'f place = Condition | Getting | Inside "'f state" | Left "py_exn option"

record 'f state_manager =
  sm_state_queue :: "'f state option list"
  sm_close :: bool
  sm_all_tasks :: "'f list"
  sm_threads :: "'f list"
  sm_cancelled :: "'f list"
  sm_events :: "nat list"
  sm_place :: "'f place"

definition StateManager :: "'f state_manager" where
  "StateManager = \<lparr>sm_state_queue = [], sm_close = False, sm_all_tasks = [], sm_threads = [], sm_cancelled = [],
     sm_events = [], sm_place = Condition\<rparr>"

text \<open>\<open>state_queue.put(None)\<close> is not awaited, so nothing is put: the coroutine never runs.\<close>

definition signal_manager_stopping :: "'f state_manager \<Rightarrow> 'f state_manager" where
  "signal_manager_stopping m = m\<lparr>sm_close := True, sm_cancelled := sm_cancelled m @ sm_all_tasks m\<rparr>"

definition put_state :: "'f state option \<Rightarrow> 'f state_manager \<Rightarrow> 'f state_manager" where
  "put_state s m = m\<lparr>sm_state_queue := sm_state_queue m @ [s]\<rparr>"

definition put_states :: "'f state list \<Rightarrow> 'f state_manager \<Rightarrow> 'f state_manager" where
  "put_states ss m = fold (\<lambda>s. put_state (Some s)) ss m"

text \<open>
  The parts of a round of \<open>process_states\<close>: its condition, \<open>get\<close>, and the end of a state with the
  outcome of its function. A keyboard interrupt in the round leaves the program.
\<close>

definition check_condition :: "'f state_manager \<Rightarrow> 'f state_manager" where
  "check_condition m = m\<lparr>sm_place := (if sm_close m then Left None else Getting)\<rparr>"

definition get_state :: "'f state_manager \<Rightarrow> 'f state_manager" where
  "get_state m = (case sm_state_queue m of
     [] \<Rightarrow> m
   | None # q \<Rightarrow> m\<lparr>sm_state_queue := q, sm_place := Left (Some AttributeError)\<rparr>
   | Some s # q \<Rightarrow> m\<lparr>sm_state_queue := q, sm_place := Inside s\<rparr>)"

definition event_is_set :: "'f state \<Rightarrow> 'f state_manager \<Rightarrow> bool" where
  "event_is_set s m = (case st_event s of None \<Rightarrow> True | Some e \<Rightarrow> e \<in> set (sm_events m))"

definition finish_state :: "('f option) res \<Rightarrow> 'f state \<Rightarrow> 'f state_manager \<Rightarrow> 'f state_manager" where
  "finish_state func_out s m =
     (let r = enter_state func_out s;
          m1 = (case r of Threaded f \<Rightarrow> m\<lparr>sm_threads := sm_threads m @ [f]\<rparr> | _ \<Rightarrow> m)
      in case ret_val r of
           Inl e \<Rightarrow> m1\<lparr>sm_place := Left (Some (if e = KeyboardInterrupt then SystemExit else e))\<rparr>
         | Inr (Some t) \<Rightarrow> m1\<lparr>sm_all_tasks := sm_all_tasks m1 @ [t], sm_place := Condition\<rparr>
         | Inr None \<Rightarrow> m1\<lparr>sm_place := Condition\<rparr>)"

text \<open>
  The steps of the loop and of its environment, with the ghosts of what has been put (\<open>put\<close>), of
  the states entered (\<open>ent\<close>) and of how many had been when the manager was first stopped.
\<close>

record 'f ghost =
  gh_put :: "'f state option list"
  gh_entered :: "'f state option list"
  gh_at_stop :: "nat option"

inductive sm_step :: "'f state_manager \<times> 'f ghost \<Rightarrow> 'f state_manager \<times> 'f ghost \<Rightarrow> bool" where
  sm_condition: "sm_place m = Condition \<Longrightarrow> sm_step (m, g) (check_condition m, g)"
| sm_get: "sm_place m = Getting \<Longrightarrow> sm_state_queue m = s # q \<Longrightarrow>
    sm_step (m, g) (get_state m, g\<lparr>gh_entered := gh_entered g @ [s]\<rparr>)"
| sm_finish: "sm_place m = Inside s \<Longrightarrow> event_is_set s m \<Longrightarrow> sm_step (m, g) (finish_state out s m, g)"
| sm_put: "sm_step (m, g) (put_state s m, g\<lparr>gh_put := gh_put g @ [s]\<rparr>)"
| sm_event: "sm_step (m, g) (m\<lparr>sm_events := sm_events m @ [e]\<rparr>, g)"
| sm_stop: "sm_step (m, g) (signal_manager_stopping m,
    g\<lparr>gh_at_stop := (case gh_at_stop g of None \<Rightarrow> Some (length (gh_entered g)) | Some n \<Rightarrow> Some n)\<rparr>)"

definition sm_start :: "'f state_manager \<times> 'f ghost \<Rightarrow> bool" where
  "sm_start mg \<longleftrightarrow> mg = (StateManager, \<lparr>gh_put = [], gh_entered = [], gh_at_stop = None\<rparr>)"

section \<open>The order of the states\<close>

definition in_order :: "'f state_manager \<times> 'f ghost \<Rightarrow> bool" where
  "in_order mg \<longleftrightarrow> (case mg of (m, g) \<Rightarrow>
     gh_entered g @ sm_state_queue m = gh_put g \<and>
     (sm_close m \<longleftrightarrow> gh_at_stop g \<noteq> None) \<and>
     (\<forall>n. gh_at_stop g = Some n \<longrightarrow> n \<le> length (gh_entered g) \<and>
        length (gh_entered g) \<le> (if sm_place m = Getting then n else Suc n)))"

lemma in_order_get:
  assumes "in_order (m, g)" "sm_place m = Getting" "sm_state_queue m = s # q"
  shows "in_order (get_state m, g\<lparr>gh_entered := gh_entered g @ [s]\<rparr>)"
  using assms by (cases s) (auto simp: in_order_def get_state_def)

lemma finish_state_fields:
  "sm_state_queue (finish_state out s m) = sm_state_queue m" "sm_close (finish_state out s m) = sm_close m"
  "sm_place (finish_state out s m) \<noteq> Getting"
  by (auto simp: finish_state_def Let_def ret_val_def split: entered.split sum.split option.split)

lemma in_order_step:
  assumes "in_order (m, g)" "sm_step (m, g) (m', g')"
  shows "in_order (m', g')"
  using assms(2)
proof cases
  case sm_condition
  then show ?thesis using assms(1) by (auto simp: in_order_def check_condition_def)
next
  case (sm_get s q)
  then show ?thesis using in_order_get[OF assms(1)] by simp
next
  case (sm_finish s out)
  then show ?thesis
    using assms(1) by (auto simp: in_order_def finish_state_fields split: if_splits)
next
  case (sm_put s)
  then show ?thesis using assms(1) by (auto simp: in_order_def put_state_def)
next
  case (sm_event e)
  then show ?thesis using assms(1) by (simp add: in_order_def)
next
  case sm_stop
  then show ?thesis using assms(1) by (auto simp: in_order_def signal_manager_stopping_def split: option.splits)
qed

interpretation main_loop: inv_system sm_start sm_step in_order
proof unfold_locales
  show "sm_start s \<Longrightarrow> in_order s" for s
    by (auto simp: sm_start_def in_order_def StateManager_def)
  show "in_order s \<Longrightarrow> sm_step s t \<Longrightarrow> in_order t" for s t
    by (cases s; cases t) (simp add: in_order_step)
qed


text \<open>
  Stopping the manager does not end the loop: where it waits for a state it goes on waiting, since the
  \<open>None\<close> that is meant to wake it up is never put. Only a state put later lets it see the flag, and
  that state is entered first.
\<close>

lemma stopping_does_not_wake:
  assumes "sm_place m = Getting" "sm_state_queue m = []"
  shows "sm_place (signal_manager_stopping m) = Getting \<and> get_state (signal_manager_stopping m) = signal_manager_stopping m \<and>
    sm_place (get_state (put_state (Some s) (signal_manager_stopping m))) = Inside s"
proof -
  have m: "sm_state_queue (signal_manager_stopping m) = []" "sm_place (signal_manager_stopping m) = Getting"
    using assms by (simp_all add: signal_manager_stopping_def)
  then have "get_state (signal_manager_stopping m) = signal_manager_stopping m" by (simp add: get_state_def)
  moreover have "sm_place (get_state (put_state (Some s) (signal_manager_stopping m))) = Inside s"
    using m(1) by (simp add: get_state_def put_state_def)
  ultimately show ?thesis using m(2) by simp
qed

text \<open>
  The states from one place to the next with the outcomes of their functions: a run of the loop over a
  queue in which every state's event is set.
\<close>

fun process_states :: "('f option) res list \<Rightarrow> 'f state_manager \<Rightarrow> 'f state_manager" where
  "process_states [] m = m"
| "process_states (out # outs) m =
     (case sm_place (get_state (check_condition m)) of
        Inside s \<Rightarrow>
          (let m1 = finish_state out s (get_state (check_condition m))
           in if sm_place m1 = Condition then process_states outs m1 else m1)
      | _ \<Rightarrow> get_state (check_condition m))"

text \<open>The tasks that states of a list leave when their functions have these outcomes, and the threads.\<close>

definition tasks_of :: "('f state \<times> ('f option) res) list \<Rightarrow> 'f list" where
  "tasks_of ss = concat (map (\<lambda>(s, out). case enter_state out s of
     Ran (Inr (Some t)) \<Rightarrow> [t] | Tasked f \<Rightarrow> [f] | _ \<Rightarrow> []) ss)"

definition threads_of :: "'f state list \<Rightarrow> 'f list" where
  "threads_of ss = map st_func (filter (\<lambda>s. st_is_blocking s \<and> \<not> st_is_coro s) ss)"

lemma process_states_all:
  assumes "length outs = length ss" "\<forall>(s, out) \<in> set (zip ss outs). st_is_blocking s \<or> isl out = False"
    "sm_state_queue m = map Some ss" "\<not> sm_close m" "sm_place m = Condition"
  shows "process_states outs m = m\<lparr>sm_state_queue := [], sm_all_tasks := sm_all_tasks m @ tasks_of (zip ss outs),
    sm_threads := sm_threads m @ threads_of ss\<rparr>"
  using assms
proof (induction outs arbitrary: ss m)
  case Nil
  have "ss = []" using Nil.prems(1) by simp
  moreover have "sm_state_queue m = []" using Nil.prems(3) \<open>ss = []\<close> by simp
  ultimately show ?case
    by (intro state_manager.equality) (simp_all add: tasks_of_def threads_of_def del: One_nat_def)
next
  case (Cons out outs)
  then obtain s ss' where ss: "ss = s # ss'" "length outs = length ss'" by (cases ss) auto
  let ?m = "m\<lparr>sm_state_queue := map Some ss', sm_place := Inside s\<rparr>"
  have get: "get_state (check_condition m) = ?m"
    using Cons.prems(3,4) ss(1) by (simp add: get_state_def check_condition_def)
  have ok: "st_is_blocking s \<or> isl out = False" using Cons.prems(2) ss(1) by simp
  have fin: "finish_state out s ?m = m\<lparr>sm_state_queue := map Some ss',
      sm_all_tasks := sm_all_tasks m @ tasks_of [(s, out)], sm_threads := sm_threads m @ threads_of [s]\<rparr>"
    using ok Cons.prems(5)
    by (cases "st_is_blocking s"; cases "st_is_coro s"; cases "projr out"; cases out)
      (simp_all add: finish_state_def ret_val_def enter_state_def tasks_of_def threads_of_def)
  let ?m1 = "m\<lparr>sm_state_queue := map Some ss', sm_all_tasks := sm_all_tasks m @ tasks_of [(s, out)],
      sm_threads := sm_threads m @ threads_of [s]\<rparr>"
  have "process_states (out # outs) m = process_states outs ?m1"
    unfolding process_states.simps(2) get fin using Cons.prems(5) by (simp add: Let_def fin)
  also have "\<dots> = ?m1\<lparr>sm_state_queue := [], sm_all_tasks := sm_all_tasks ?m1 @ tasks_of (zip ss' outs),
      sm_threads := sm_threads ?m1 @ threads_of ss'\<rparr>"
    using Cons.prems ss by (intro Cons.IH) auto
  finally show ?case by (simp add: ss(1) tasks_of_def threads_of_def del: process_states.simps)
qed

section \<open>The states of the program\<close>

datatype main_func =
    Set_Paths | Initiate_Bootup | Load_Profiles | Print_Constants | Initiate_Page_Handle | Profile_Wait
  | Configure_Remote_Peer | Initiate_Acceptor | Initiate_Requests | Initiate_Connectivity

text \<open>\<open>inspect.iscoroutinefunction\<close> of the functions \<open>main.py\<close> names.\<close>

definition main_coro :: "main_func \<Rightarrow> bool" where
  "main_coro f \<longleftrightarrow> f \<in> {Initiate_Page_Handle, Profile_Wait, Initiate_Acceptor, Initiate_Requests, Initiate_Connectivity}"

definition initial_states :: "main_func state list" where
  "initial_states =
     [State main_coro ''set paths'' Set_Paths False None,
      State main_coro ''boot_up initiating'' Initiate_Bootup False None,
      State main_coro ''loading profiles'' Load_Profiles False None,
      State main_coro ''printing configurations'' Print_Constants False None,
      State main_coro ''launching webpage'' Initiate_Page_Handle True None,
      State main_coro ''waiting for profile choice'' Profile_Wait False None,
      State main_coro ''configuring this remote peer object'' Configure_Remote_Peer False None,
      State main_coro ''initiating comms'' Initiate_Acceptor True None,
      State main_coro ''initiating requests'' Initiate_Requests True None,
      State main_coro ''connectivity checker'' Initiate_Connectivity False None]"

definition main_initiate :: "'f state list \<Rightarrow> 'f state_manager" where
  "main_initiate states = put_states states StateManager"

lemma put_states_queue: "put_states ss m = m\<lparr>sm_state_queue := sm_state_queue m @ map Some ss\<rparr>"
  by (induction ss arbitrary: m) (simp_all add: put_states_def put_state_def)

text \<open>
  When none of the functions fails, the program comes up with the page, the acceptor and the requests
  endpoint as tasks, without a thread, and its loop waits for more states. When one fails, its
  exception ends the loop and what comes after it is not entered.
\<close>

lemma start_up:
  assumes "length outs = length initial_states" "\<forall>out \<in> set outs. out = Inr None"
  shows "\<exists>m. process_states outs (main_initiate initial_states) = m \<and> sm_state_queue m = [] \<and>
    sm_all_tasks m = [Initiate_Page_Handle, Initiate_Acceptor, Initiate_Requests] \<and> sm_threads m = [] \<and>
    sm_place (get_state (check_condition m)) = Getting"
proof -
  have outs: "outs = replicate (length initial_states) (Inr None)"
    using assms by (metis replicate_length_same)
  have "process_states outs (main_initiate initial_states) =
      (main_initiate initial_states)\<lparr>sm_state_queue := [],
        sm_all_tasks := sm_all_tasks (main_initiate initial_states) @ tasks_of (zip initial_states outs),
        sm_threads := sm_threads (main_initiate initial_states) @ threads_of initial_states\<rparr>"
    using assms by (intro process_states_all) (auto simp: main_initiate_def put_states_queue StateManager_def dest!: set_zip_rightD)
  then show ?thesis
    unfolding outs
    by (simp add: main_initiate_def put_states_queue StateManager_def tasks_of_def threads_of_def initial_states_def
        State_def main_coro_def enter_state_def get_state_def check_condition_def)
qed

lemma failed_state_ends_loop:
  assumes "sm_state_queue m = Some s # q" "\<not> sm_close m" "sm_place m = Condition" "\<not> st_is_blocking s" "e \<noteq> KeyboardInterrupt"
  shows "sm_place (process_states (Inl e # outs) m) = Left (Some e) \<and> sm_state_queue (process_states (Inl e # outs) m) = q"
  using assms by (simp add: get_state_def check_condition_def finish_state_def enter_state_def ret_val_def Let_def)


end
