(* ===== verification/Sockets.thy ===== *)
theory Sockets
  imports Prelude "HOL-Library.Word"
begin

text \<open>
  The sockets of \<open>src/avails/connect.py\<close>: the class \<open>Socket\<close>, the two protocols that make sockets, the
  multicast options, and the two listening sockets of the program, the acceptor's
  (\<open>src/core/acceptor.py\<close>) and the requests endpoint's (\<open>src/core/requests.py\<close>).

  A socket is what the calls on it have made of it. What the operating system answers is an argument:
  the addresses of a name, and the outcomes of \<open>bind\<close> and of \<open>setsockopt\<close>. Timeouts are rationals,
  \<open>Some 0\<close> being a non-blocking socket and \<open>None\<close> a blocking one.
\<close>

section \<open>Sockets\<close>

datatype family = AF_INET | AF_INET6
datatype sock_kind = SOCK_STREAM | SOCK_DGRAM
datatype sock_opt =
    SO_BROADCAST | IP_MULTICAST_TTL | IP_MULTICAST_LOOP | IP_ADD_MEMBERSHIP
  | IPV6_MULTICAST_LOOP | IPV6_MULTICAST_HOPS | IPV6_MULTICAST_IF | IPV6_JOIN_GROUP

datatype opt_value = OInt int | OBytes "8 word list"

text \<open>An address with its flow and scope, which are 0 for IPv4.\<close>

record sock_addr =
  sa_host :: string
  sa_port :: nat
  sa_scope :: nat

record socket =
  sk_family :: family
  sk_kind :: sock_kind
  sk_timeout :: "rat option"
  sk_loop :: "nat option"
  sk_bound :: "sock_addr option"
  sk_backlog :: "int option"
  sk_peer :: "sock_addr option"
  sk_opts :: "(sock_opt \<times> opt_value) list"

definition Socket :: "family \<Rightarrow> sock_kind \<Rightarrow> socket" where
  "Socket fam kind = \<lparr>sk_family = fam, sk_kind = kind, sk_timeout = None, sk_loop = None, sk_bound = None,
     sk_backlog = None, sk_peer = None, sk_opts = []\<rparr>"

definition set_loop :: "nat \<Rightarrow> socket \<Rightarrow> socket" where
  "set_loop loop s = s\<lparr>sk_loop := Some loop\<rparr>"

definition remove_loop :: "socket \<Rightarrow> socket" where
  "remove_loop s = s\<lparr>sk_loop := None\<rparr>"

definition setblocking :: "bool \<Rightarrow> socket \<Rightarrow> socket" where
  "setblocking flag s = s\<lparr>sk_timeout := (if flag then None else Some 0)\<rparr>"

definition sock_bind :: "(sock_addr \<Rightarrow> unit res) \<Rightarrow> sock_addr \<Rightarrow> socket \<Rightarrow> socket res" where
  "sock_bind bind_ok a s = map_sum id (\<lambda>_. s\<lparr>sk_bound := Some a\<rparr>) (bind_ok a)"

text \<open>\<open>listen(None)\<close> is a \<open>TypeError\<close>; datagram sockets cannot listen.\<close>

definition listen :: "int option \<Rightarrow> socket \<Rightarrow> socket res" where
  "listen backlog s = (case backlog of
     None \<Rightarrow> Inl TypeError
   | Some n \<Rightarrow> if sk_kind s = SOCK_DGRAM then Inl OSError else Inr (s\<lparr>sk_backlog := Some (max n 0)\<rparr>))"

text \<open>
  \<open>accept\<close>: the new socket has the family and the type of the listening one and its event loop.
  \<open>default_timeout\<close> is \<open>socket.getdefaulttimeout()\<close>.
\<close>

definition accept :: "rat option \<Rightarrow> sock_addr \<Rightarrow> socket \<Rightarrow> socket \<times> sock_addr" where
  "accept default_timeout a s =
     (let c = (Socket (sk_family s) (sk_kind s))\<lparr>sk_timeout := default_timeout, sk_peer := Some a\<rparr>;
          c = (if default_timeout = None \<and> sk_timeout s \<noteq> None \<and> sk_timeout s \<noteq> Some 0 then setblocking True c else c);
          c = (case sk_loop s of None \<Rightarrow> c | Some l \<Rightarrow> set_loop l c)
      in (c, a))"

text \<open>The asynchronous methods go through the loop of the socket.\<close>

definition via_loop :: "(nat \<Rightarrow> 'a res) \<Rightarrow> socket \<Rightarrow> 'a res" where
  "via_loop call s = (case sk_loop s of None \<Rightarrow> Inl AttributeError | Some l \<Rightarrow> call l)"

section \<open>TCPProtocol and UDPProtocol\<close>

definition TCP_create_async_sock :: "nat \<Rightarrow> family \<Rightarrow> socket" where
  "TCP_create_async_sock loop fam = set_loop loop (setblocking False (Socket fam SOCK_STREAM))"

definition TCP_create_sync_sock :: "family \<Rightarrow> socket" where
  "TCP_create_sync_sock fam = Socket fam SOCK_STREAM"

definition TCP_create_async_server_sock ::
    "(sock_addr \<Rightarrow> unit res) \<Rightarrow> nat \<Rightarrow> sock_addr \<Rightarrow> family \<Rightarrow> int option \<Rightarrow> socket res" where
  "TCP_create_async_server_sock bind_ok loop bind_address fam backlog =
     res_bind (sock_bind bind_ok bind_address (Socket fam SOCK_STREAM)) (\<lambda>s.
       listen backlog (set_loop loop (setblocking False s)))"

definition TCP_create_sync_server_sock ::
    "(sock_addr \<Rightarrow> unit res) \<Rightarrow> sock_addr \<Rightarrow> family \<Rightarrow> int option \<Rightarrow> socket res" where
  "TCP_create_sync_server_sock bind_ok bind_address fam backlog =
     res_bind (sock_bind bind_ok bind_address (Socket fam SOCK_STREAM)) (listen backlog)"

definition UDP_create_async_sock :: "nat \<Rightarrow> family \<Rightarrow> socket" where
  "UDP_create_async_sock loop fam = set_loop loop (setblocking False (Socket fam SOCK_DGRAM))"

definition UDP_create_sync_sock :: "family \<Rightarrow> socket" where
  "UDP_create_sync_sock fam = Socket fam SOCK_DGRAM"

definition UDP_create_async_server_sock ::
    "(sock_addr \<Rightarrow> unit res) \<Rightarrow> nat \<Rightarrow> sock_addr \<Rightarrow> family \<Rightarrow> int option \<Rightarrow> socket res" where
  "UDP_create_async_server_sock bind_ok loop bind_address fam backlog =
     sock_bind bind_ok bind_address (set_loop loop (setblocking False (Socket fam SOCK_DGRAM)))"

definition UDP_create_sync_server_sock ::
    "(sock_addr \<Rightarrow> unit res) \<Rightarrow> sock_addr \<Rightarrow> family \<Rightarrow> int option \<Rightarrow> socket res" where
  "UDP_create_sync_server_sock bind_ok bind_address fam backlog =
     res_bind (sock_bind bind_ok bind_address (Socket fam SOCK_DGRAM)) (listen backlog)"

text \<open>\<open>getaddrinfo\<close> answers with families and addresses or raises; it never returns an empty list.\<close>

type_synonym addr_info = "(family \<times> sock_addr) list res"

definition UDP_create_connection_async :: "addr_info \<Rightarrow> unit res \<Rightarrow> nat \<Rightarrow> socket res" where
  "UDP_create_connection_async infos connect_ok loop =
     res_bind infos (\<lambda>is. case is of
        [] \<Rightarrow> Inl IndexError
      | (fam, a) # _ \<Rightarrow> map_sum id (\<lambda>_. (UDP_create_async_sock loop fam)\<lparr>sk_peer := Some a\<rparr>) connect_ok)"

section \<open>Multicast\<close>

definition setsockopt :: "(sock_opt \<Rightarrow> unit res) \<Rightarrow> sock_opt \<Rightarrow> opt_value \<Rightarrow> socket \<Rightarrow> socket res" where
  "setsockopt opt_ok opt v s = map_sum id (\<lambda>_. s\<lparr>sk_opts := AList.update opt v (sk_opts s)\<rparr>) (opt_ok opt)"

text \<open>
  \<open>grp\<close> and \<open>local\<close> are the addresses as bytes (\<open>inet_aton\<close>, \<open>inet_pton\<close>). \<open>struct.pack("4sl", ...)\<close>
  is native: four bytes of padding and an eight-byte \<open>long\<close>, here of a 64-bit system.
\<close>

definition membership_request :: "bool \<Rightarrow> 8 word list \<Rightarrow> 8 word list res \<Rightarrow> 8 word list res" where
  "membership_request is_windows grp local =
     (if is_windows then map_sum id (\<lambda>l. grp @ l) local else Inr (grp @ replicate 4 0 @ replicate 8 0))"

definition ipv4_multicast_socket_helper ::
    "(sock_opt \<Rightarrow> unit res) \<Rightarrow> bool \<Rightarrow> 8 word list res \<Rightarrow> 8 word list res \<Rightarrow> int \<Rightarrow> int \<Rightarrow> bool \<Rightarrow> socket \<Rightarrow> socket res" where
  "ipv4_multicast_socket_helper opt_ok is_windows grp local loop_back ttl add_membership s =
     res_bind (setsockopt opt_ok IP_MULTICAST_TTL (OInt ttl) s) (\<lambda>s.
     res_bind (setsockopt opt_ok IP_MULTICAST_LOOP (OInt loop_back) s) (\<lambda>s.
       if \<not> add_membership then Inr s
       else res_bind grp (\<lambda>g. res_bind (membership_request is_windows g local) (\<lambda>mreq.
              setsockopt opt_ok IP_ADD_MEMBERSHIP (OBytes mreq) s))))"

text \<open>\<open>getsockname\<close> of an IPv4 socket has two parts, and the four names of the assignment do not fit.\<close>

definition ipv6_multicast_socket_helper ::
    "(sock_opt \<Rightarrow> unit res) \<Rightarrow> 8 word list res \<Rightarrow> int \<Rightarrow> bool \<Rightarrow> int \<Rightarrow> socket \<Rightarrow> socket res" where
  "ipv6_multicast_socket_helper opt_ok grp loop_back add_membership hops s =
     res_bind (setsockopt opt_ok IPV6_MULTICAST_LOOP (OInt loop_back) s) (\<lambda>s.
     res_bind (setsockopt opt_ok IPV6_MULTICAST_HOPS (OInt hops) s) (\<lambda>s.
       if sk_family s = AF_INET then Inl ValueError
       else let interface_id = (case sk_bound s of None \<Rightarrow> 0 | Some a \<Rightarrow> sa_scope a) in
       res_bind (setsockopt opt_ok IPV6_MULTICAST_IF (OInt (int interface_id)) s) (\<lambda>s.
         if \<not> add_membership then Inr s
         else res_bind grp (\<lambda>g.
           setsockopt opt_ok IPV6_JOIN_GROUP (OBytes (g @ map (\<lambda>i. of_nat (interface_id div 256 ^ i)) [0..<4])) s))))"

section \<open>The listening sockets\<close>

text \<open>\<open>anext(use.get_addr_info(...))\<close>.\<close>

definition first_addr_info :: "addr_info \<Rightarrow> (family \<times> sock_addr) res" where
  "first_addr_info infos = res_bind infos (\<lambda>is. case is of [] \<Rightarrow> Inl StopAsyncIteration | i # _ \<Rightarrow> Inr i)"

definition create_listen_socket ::
    "(sock_addr \<Rightarrow> unit res) \<Rightarrow> (sock_opt \<Rightarrow> unit res) \<Rightarrow> bool \<Rightarrow> bool \<Rightarrow> 8 word list res \<Rightarrow> 8 word list res \<Rightarrow>
     addr_info \<Rightarrow> nat \<Rightarrow> socket res" where
  "create_listen_socket bind_ok opt_ok using_ip_v4 is_windows grp local infos loop =
     res_bind (first_addr_info infos) (\<lambda>(fam, a).
     res_bind (UDP_create_async_server_sock bind_ok loop a fam None) (\<lambda>s.
       if using_ip_v4
       then res_bind (setsockopt opt_ok SO_BROADCAST (OInt 1) s) (\<lambda>s.
              ipv4_multicast_socket_helper opt_ok is_windows grp local 0 1 True s)
       else ipv6_multicast_socket_helper opt_ok grp 0 True 1 s))"

definition acceptor_start_socket ::
    "(sock_addr \<Rightarrow> unit res) \<Rightarrow> bool \<Rightarrow> family \<Rightarrow> addr_info \<Rightarrow> nat \<Rightarrow> socket res" where
  "acceptor_start_socket bind_ok tcp ip_version infos loop =
     (case first_addr_info infos of
        Inl e \<Rightarrow> Inl (if e = StopAsyncIteration then RuntimeError else e)
      | Inr (_, a) \<Rightarrow>
          (if tcp then TCP_create_async_server_sock bind_ok loop a ip_version (Some 4)
           else UDP_create_async_server_sock bind_ok loop a ip_version (Some 4)))"

section \<open>Properties\<close>

text \<open>What the event loop needs of a socket it waits for: non-blocking, with the loop.\<close>

definition loop_ready :: "nat \<Rightarrow> socket \<Rightarrow> bool" where
  "loop_ready loop s \<longleftrightarrow> sk_timeout s = Some 0 \<and> sk_loop s = Some loop"

lemma set_loop_ready [simp]: "loop_ready l (set_loop l (setblocking False s))"
  by (simp add: loop_ready_def set_loop_def setblocking_def)

lemma setsockopt_keeps:
  assumes "setsockopt opt_ok opt v s = Inr s'"
  shows "s' = s\<lparr>sk_opts := sk_opts s'\<rparr>" "map_of (sk_opts s') = (map_of (sk_opts s))(opt \<mapsto> v)"
  using assms by (auto simp: setsockopt_def update_conv')

lemma TCP_server_socket:
  "TCP_create_async_server_sock bind_ok loop a fam backlog =
     (case bind_ok a of
        Inl e \<Rightarrow> Inl e
      | Inr _ \<Rightarrow> (case backlog of None \<Rightarrow> Inl TypeError | Some n \<Rightarrow>
          Inr (set_loop loop (setblocking False (Socket fam SOCK_STREAM))\<lparr>sk_bound := Some a, sk_backlog := Some (max n 0)\<rparr>)))"
  by (auto simp: TCP_create_async_server_sock_def sock_bind_def listen_def set_loop_def setblocking_def Socket_def
      split: sum.split option.split)

text \<open>The defaults do not work: no server socket can be made without a backlog, and a synchronous UDP one never.\<close>

lemma default_backlog_fails:
  "\<exists>e. TCP_create_async_server_sock bind_ok loop a fam None = Inl e"
  "\<exists>e. TCP_create_sync_server_sock bind_ok a fam None = Inl e"
  "\<exists>e. UDP_create_sync_server_sock bind_ok a fam backlog = Inl e"
  by (cases "bind_ok a"; cases backlog;
      simp add: TCP_create_async_server_sock_def TCP_create_sync_server_sock_def UDP_create_sync_server_sock_def
        sock_bind_def listen_def Socket_def)+

text \<open>
  The two sockets the program listens on are fit for its event loop whenever they come up: they are
  non-blocking and carry the loop; the acceptor's is a stream socket bound to the resolved address that
  listens with its backlog of four, and every connection it accepts carries the loop as well; the
  requests socket is a datagram socket bound to its address that may broadcast and has joined the
  multicast group, without hearing its own messages.
\<close>

theorem listening_sockets_ready:
  assumes "first_addr_info infos = Inr (fam, a)"
  shows "(acceptor_start_socket bind_ok True ip_version infos loop = Inr s \<longrightarrow>
      loop_ready loop s \<and> sk_kind s = SOCK_STREAM \<and> sk_family s = ip_version \<and> sk_bound s = Some a \<and> sk_backlog s = Some 4 \<and>
      (\<forall>t b. sk_loop (fst (accept t b s)) = Some loop \<and> sk_kind (fst (accept t b s)) = SOCK_STREAM)) \<and>
    (create_listen_socket bind_ok opt_ok True is_windows grp local infos loop = Inr r \<longrightarrow>
      loop_ready loop r \<and> sk_kind r = SOCK_DGRAM \<and> sk_family r = fam \<and> sk_bound r = Some a \<and>
      map_of (sk_opts r) SO_BROADCAST = Some (OInt 1) \<and> map_of (sk_opts r) IP_MULTICAST_LOOP = Some (OInt 0) \<and>
      (\<exists>l. map_of (sk_opts r) IP_ADD_MEMBERSHIP = Some (OBytes (projr grp @ l))))"
  using assms
  by (auto simp: acceptor_start_socket_def TCP_server_socket loop_ready_def set_loop_def setblocking_def Socket_def
      accept_def Let_def create_listen_socket_def UDP_create_async_server_sock_def sock_bind_def
      ipv4_multicast_socket_helper_def membership_request_def setsockopt_def update_conv'
      split: sum.splits option.splits if_splits)

theorem listening_sockets_ready_witness:
  "\<exists>s r. acceptor_start_socket (\<lambda>a. Inr ()) True AF_INET (Inr [(AF_INET, \<lparr>sa_host = ''h'', sa_port = 1, sa_scope = 0\<rparr>)]) 5 = Inr s \<and>
     loop_ready 5 s \<and>
     create_listen_socket (\<lambda>a. Inr ()) (\<lambda>opt. Inr ()) True False (Inr [239, 1, 11, 11]) (Inl OSError)
       (Inr [(AF_INET, \<lparr>sa_host = ''h'', sa_port = 1, sa_scope = 0\<rparr>)]) 5 = Inr r \<and> loop_ready 5 r"
proof -
  let ?a = "\<lparr>sa_host = ''h'', sa_port = 1, sa_scope = 0\<rparr>"
  let ?i = "Inr [(AF_INET, ?a)] :: addr_info"
  have i: "first_addr_info ?i = Inr (AF_INET, ?a)" by (simp add: first_addr_info_def)
  obtain s where s: "acceptor_start_socket (\<lambda>a. Inr ()) True AF_INET ?i 5 = Inr s"
    using i by (simp add: acceptor_start_socket_def TCP_server_socket)
  obtain r where r: "create_listen_socket (\<lambda>a. Inr ()) (\<lambda>opt. Inr ()) True False (Inr [239, 1, 11, 11]) (Inl OSError) ?i 5 = Inr r"
    using i by (simp add: create_listen_socket_def UDP_create_async_server_sock_def sock_bind_def setsockopt_def
        ipv4_multicast_socket_helper_def membership_request_def)
  show ?thesis
    using listening_sockets_ready[OF i, of "\<lambda>a. Inr ()" AF_INET 5 s "\<lambda>opt. Inr ()" False "Inr [239, 1, 11, 11]" "Inl OSError" r]
      s r by blast
qed

text \<open>A requests socket of an IPv4 address cannot be set up while the program takes itself to use IPv6.\<close>

lemma ipv6_helper_on_ipv4:
  assumes "sk_family s = AF_INET" "\<And>opt. opt_ok opt = Inr ()"
  shows "ipv6_multicast_socket_helper opt_ok grp loop_back add_membership hops s = Inl ValueError"
  using assms by (simp add: ipv6_multicast_socket_helper_def setsockopt_def)

end
