(* ===== verification/Profiles.thy ===== *)
theory Profiles
  imports Remote_Peer
begin

text \<open>
  User profiles and the configuration file: \<open>src/managers/profilemanager.py\<close>,
  \<open>src/webpage_handlers/handleprofiles.py\<close> and the part of \<open>src/configurations/bootup.py\<close> and
  \<open>configure.py\<close> that reads and writes the configuration, over the part of Python's \<open>configparser\<close>
  they use.

  A configuration file is what a reader sees of it: sections of options. The text in between is not
  modelled; it gives back what was written for section names, option names and values on one line,
  without surrounding blanks, and for option names without \<open>=\<close> and \<open>:\<close> and not starting like a comment.
  Names of profile files are plain names in the profiles directory. The clock is an argument.
\<close>

section \<open>configparser\<close>

type_synonym options = "(string, string option) pydict"
type_synonym config = "(string, options) pydict"

text \<open>Values that reach a parser: strings, integers, \<open>None\<close>, and other objects by their \<open>str()\<close>.\<close>

datatype setting = SNone | SStr string | SInt int | SOther string

definition lower_char :: "char \<Rightarrow> char" where
  "lower_char c = (if 65 \<le> (of_char c :: nat) \<and> (of_char c :: nat) \<le> 90 then char_of ((of_char c :: nat) + 32) else c)"

text \<open>\<open>optionxform\<close>.\<close>

definition lower :: "string \<Rightarrow> string" where
  "lower s = map lower_char s"

fun str_of_int :: "int \<Rightarrow> string" where
  "str_of_int i = (if i < 0 then CHR ''-'' # str_of_nat (nat (- i)) else str_of_nat (nat i))"

fun setting_str :: "setting \<Rightarrow> string option" where
  "setting_str SNone = None"
| "setting_str (SStr s) = Some s"
| "setting_str (SInt i) = Some (str_of_int i)"
| "setting_str (SOther s) = Some s"

text \<open>\<open>%(name)s\<close> at the start of a string, after the percent sign and the parenthesis: the name and the rest.\<close>

definition match_ref :: "string \<Rightarrow> (string \<times> string) option" where
  "match_ref s =
     (case dropWhile (\<lambda>c. c \<noteq> CHR '')'') s of
        _ # c # rest \<Rightarrow>
          if c = CHR ''s'' \<and> takeWhile (\<lambda>c. c \<noteq> CHR '')'') s \<noteq> []
          then Some (takeWhile (\<lambda>c. c \<noteq> CHR '')'') s, rest) else None
      | _ \<Rightarrow> None)"

lemma match_ref_shorter: "match_ref s = Some (n, rest) \<Longrightarrow> length rest < length s"
proof -
  assume "match_ref s = Some (n, rest)"
  then have "\<exists>c d. dropWhile (\<lambda>c. c \<noteq> CHR '')'') s = c # d # rest"
    by (auto simp: match_ref_def split: list.splits if_splits)
  then show ?thesis
    using length_dropWhile_le[of "\<lambda>c. c \<noteq> CHR '')''" s] by auto
qed

text \<open>\<open>BasicInterpolation.before_set\<close>: doubled percent signs go first, then the references; none may be left.\<close>

fun drop_doubled :: "string \<Rightarrow> string" where
  "drop_doubled (c # d # s) = (if c = CHR ''%'' \<and> d = CHR ''%'' then drop_doubled s else c # drop_doubled (d # s))"
| "drop_doubled s = s"

function has_percent :: "string \<Rightarrow> bool" where
  "has_percent [] = False"
| "has_percent (c # s) =
     (if c \<noteq> CHR ''%'' then has_percent s
      else case s of
        [] \<Rightarrow> True
      | d # t \<Rightarrow> if d \<noteq> CHR ''('' then True
               else (case match_ref t of None \<Rightarrow> True | Some (n, rest) \<Rightarrow> has_percent rest))"
  by pat_completeness auto

termination has_percent
  by (relation "measure length") (auto dest: match_ref_shorter)

definition before_set :: "string \<Rightarrow> string res" where
  "before_set v = (if has_percent (drop_doubled v) then Inl ValueError else Inr v)"

text \<open>
  \<open>BasicInterpolation.before_get\<close>; \<open>m\<close> are the options of the section, \<open>d\<close> the nested references that the
  depth limit of ten still allows.
\<close>

function interpolate :: "nat \<Rightarrow> options \<Rightarrow> string \<Rightarrow> string res" where
  "interpolate d m [] = Inr []"
| "interpolate d m (c # s) =
     (if c \<noteq> CHR ''%'' then map_sum id ((#) c) (interpolate d m s)
      else case s of
        [] \<Rightarrow> Inl ConfigError
      | e # t \<Rightarrow>
          if e = CHR ''%'' then map_sum id ((#) CHR ''%'') (interpolate d m t)
          else if e \<noteq> CHR ''('' then Inl ConfigError
          else (case match_ref t of
                  None \<Rightarrow> Inl ConfigError
                | Some (n, rest) \<Rightarrow>
                    (case dget m (lower n) of
                       None \<Rightarrow> Inl ConfigError
                     | Some None \<Rightarrow> Inl TypeError
                     | Some (Some v) \<Rightarrow>
                         (if CHR ''%'' \<notin> set v then map_sum id ((@) v) (interpolate d m rest)
                          else if d = 0 then Inl ConfigError
                          else case interpolate (d - 1) m v of
                            Inl x \<Rightarrow> Inl x
                          | Inr w \<Rightarrow> map_sum id ((@) w) (interpolate d m rest)))))"
  by pat_completeness auto

termination interpolate
  by (relation "measures [\<lambda>(d, m, s). d, \<lambda>(d, m, s). length s]") (auto dest: match_ref_shorter)

declare interpolate.simps(2) [simp del] has_percent.simps(2) [simp del]

text \<open>\<open>config[section] = settings\<close>: keys are lower-cased and must stay distinct, values become text.\<close>

fun read_options :: "bool \<Rightarrow> (string, setting) pydict \<Rightarrow> options \<Rightarrow> options res" where
  "read_options allow_no_value [] acc = Inr acc"
| "read_options allow_no_value ((k, v) # kvs) acc =
     (if dmem (lower k) acc then Inl ConfigError
      else case setting_str v of
        None \<Rightarrow> if allow_no_value then read_options allow_no_value kvs (dset (lower k) None acc) else Inl TypeError
      | Some t \<Rightarrow>
          (case before_set t of
             Inl e \<Rightarrow> Inl e
           | Inr w \<Rightarrow> read_options allow_no_value kvs (dset (lower k) (Some w) acc)))"

type_synonym profile_data = "(string, (string, setting) pydict) pydict"

fun read_sections :: "profile_data \<Rightarrow> config \<Rightarrow> config res" where
  "read_sections [] acc = Inr acc"
| "read_sections ((sec, kvs) # rest) acc =
     (case read_options False kvs [] of
        Inl e \<Rightarrow> Inl e
      | Inr opts \<Rightarrow> read_sections rest (dset sec opts acc))"

text \<open>\<open>config.items(section)\<close>, option by option.\<close>

fun interpolated :: "options \<Rightarrow> options \<Rightarrow> (string, setting) pydict res" where
  "interpolated m [] = Inr []"
| "interpolated m ((k, None) # kvs) = map_sum id ((#) (k, SNone)) (interpolated m kvs)"
| "interpolated m ((k, Some v) # kvs) =
     (case interpolate 9 m v of
        Inl e \<Rightarrow> Inl e
      | Inr w \<Rightarrow> map_sum id ((#) (k, SStr w)) (interpolated m kvs))"

fun all_items :: "config \<Rightarrow> profile_data res" where
  "all_items [] = Inr []"
| "all_items ((sec, opts) # rest) =
     (case interpolated opts opts of
        Inl e \<Rightarrow> Inl e
      | Inr kvs \<Rightarrow> map_sum id ((#) (sec, kvs)) (all_items rest))"

section \<open>Profiles\<close>

text \<open>
  The profile files by name, the configuration file and \<open>_main_config\<close> in memory. Profile objects are
  shared between \<open>PROFILE_LIST\<close> and the current profile, so they live in a store (\<open>ps_objs\<close>) and are
  referred to by their index in it.
\<close>

record profile =
  pr_file :: string
  pr_data :: profile_data

record profiles =
  ps_files :: "(string, config) pydict"
  ps_config :: config
  ps_main :: config
  ps_objs :: "profile list"
  ps_list :: "nat list"
  ps_current :: "nat option"

text \<open>Reading a file lower-cases the option names.\<close>

definition config_read :: "config \<Rightarrow> config" where
  "config_read c = map (\<lambda>(sec, opts). (sec, map (\<lambda>(k, v). (lower k, v)) opts)) c"

text \<open>A file that does not exist is skipped by \<open>read\<close>; options without a value do not parse.\<close>

definition load_profile_data :: "(string, config) pydict \<Rightarrow> string \<Rightarrow> profile_data res" where
  "load_profile_data fs file =
     (case dget fs file of
        None \<Rightarrow> Inr []
      | Some c \<Rightarrow>
          if list_ex (\<lambda>(sec, opts). list_ex (\<lambda>(k, v). v = None) opts) c then Inl ConfigError
          else all_items (config_read c))"

definition match_pattern :: "profile_data \<Rightarrow> bool" where
  "match_pattern d =
     (case (dget d ''SERVER'', dget d ''USER'') of
        (Some sv, Some us) \<Rightarrow> dmem ''ip'' sv \<and> dmem ''port'' sv \<and> dmem ''name'' us \<and> dmem ''id'' us
      | _ \<Rightarrow> False)"

definition get_profile_data :: "(string, config) pydict \<Rightarrow> string \<Rightarrow> profile_data res" where
  "get_profile_data fs file =
     (case load_profile_data fs file of
        Inl e \<Rightarrow> Inl e
      | Inr d \<Rightarrow> if match_pattern d then Inr d else Inl LookupError)"

definition ProfileManager :: "string \<Rightarrow> profiles \<Rightarrow> nat res \<times> profiles" where
  "ProfileManager file st =
     (case get_profile_data (ps_files st) file of
        Inl e \<Rightarrow> (Inl e, st)
      | Inr d \<Rightarrow> (Inr (length (ps_objs st)), st\<lparr>ps_objs := ps_objs st @ [\<lparr>pr_file = file, pr_data = d\<rparr>]\<rparr>))"

definition data_item :: "profile_data \<Rightarrow> string \<Rightarrow> string \<Rightarrow> setting res" where
  "data_item d sec k = res_bind (dindex d sec) (\<lambda>kvs. dindex kvs k)"

definition username :: "profile \<Rightarrow> setting res" where
  "username p = data_item (pr_data p) ''USER'' ''name''"

definition profile_id :: "profile \<Rightarrow> setting res" where
  "profile_id p = data_item (pr_data p) ''USER'' ''id''"

text \<open>\<open>__uniquify\<close>, with the time in tenths of a second, and the file name made of it.\<close>

definition uniquify :: "setting \<Rightarrow> nat \<Rightarrow> string" where
  "uniquify user now = (case setting_str user of None \<Rightarrow> ''None'' | Some s \<Rightarrow> s) @ str_of_nat now"

definition profile_file :: "setting \<Rightarrow> nat \<Rightarrow> string" where
  "profile_file user now = uniquify user now @ ''.ini''"

definition write_to_main_config :: "string \<Rightarrow> profiles \<Rightarrow> unit res \<times> profiles" where
  "write_to_main_config file st =
     (case dget (ps_main st) ''USER_PROFILES'' of
        None \<Rightarrow> (Inl ConfigError, st)
      | Some opts \<Rightarrow>
          (let c = dset ''USER_PROFILES'' (dset (lower file) None opts) (ps_main st)
           in (Inr (), st\<lparr>ps_main := c, ps_config := c\<rparr>)))"

definition remove_from_main_config :: "string \<Rightarrow> profiles \<Rightarrow> unit res \<times> profiles" where
  "remove_from_main_config key st =
     (case dget (ps_main st) ''USER_PROFILES'' of
        None \<Rightarrow> (Inl ConfigError, st)
      | Some opts \<Rightarrow>
          (let c = dset ''USER_PROFILES'' (ddel (lower key) opts) (ps_main st)
           in (Inr (), st\<lparr>ps_main := c, ps_config := c\<rparr>)))"

definition write_selected_profile :: "string \<Rightarrow> profiles \<Rightarrow> profiles" where
  "write_selected_profile file st =
     (let c = ddel ''SELECTED_PROFILE'' (ps_main st) @ [(''SELECTED_PROFILE'', [(lower file, None)])]
      in st\<lparr>ps_main := c, ps_config := c\<rparr>)"

definition save_profiles :: "nat \<Rightarrow> profiles \<Rightarrow> unit res \<times> profiles" where
  "save_profiles i st =
     (case read_sections (pr_data (ps_objs st ! i)) [] of
        Inl e \<Rightarrow> (Inl e, st)
      | Inr c \<Rightarrow> (Inr (), st\<lparr>ps_files := dset (pr_file (ps_objs st ! i)) c (ps_files st)\<rparr>))"

definition set_obj :: "nat \<Rightarrow> profile \<Rightarrow> profiles \<Rightarrow> profiles" where
  "set_obj i p st = st\<lparr>ps_objs := (ps_objs st)[i := p]\<rparr>"

definition merge :: "(string, setting) pydict \<Rightarrow> (string, setting) pydict \<Rightarrow> (string, setting) pydict" where
  "merge old new = fold (\<lambda>(k, v). dset k v) new old"

definition edit_profile ::
    "nat \<Rightarrow> nat \<Rightarrow> string \<Rightarrow> (string, setting) pydict \<Rightarrow> profiles \<Rightarrow> unit res \<times> profiles" where
  "edit_profile now i config_header new_settings st =
     (let p = ps_objs st ! i in
      case username p of
        Inl e \<Rightarrow> (Inl e, st)
      | Inr prev_username \<Rightarrow>
          (let old = (case dget (pr_data p) config_header of None \<Rightarrow> [] | Some kvs \<Rightarrow> kvs);
               p1 = p\<lparr>pr_data := dset config_header (merge old new_settings) (pr_data p)\<rparr>;
               st1 = set_obj i p1 st
           in case username p1 of
                Inl e \<Rightarrow> (Inl e, st1)
              | Inr user \<Rightarrow>
                  if user = prev_username then save_profiles i st1
                  else let new_file = profile_file user now in
                    case dget (ps_files st1) (pr_file p1) of
                      None \<Rightarrow> (Inl FileNotFoundError, st1)
                    | Some c \<Rightarrow>
                        (let st2 = st1\<lparr>ps_files := (if new_file = pr_file p1 then ps_files st1
                                      else dset new_file c (ddel (pr_file p1) (ps_files st1)))\<rparr>
                         in case remove_from_main_config (pr_file p1) st2 of
                              (Inl e, st3) \<Rightarrow> (Inl e, st3)
                            | (Inr _, st3) \<Rightarrow>
                                (case write_to_main_config new_file st3 of
                                   (Inl e, st4) \<Rightarrow> (Inl e, st4)
                                 | (Inr _, st4) \<Rightarrow> save_profiles i (set_obj i (p1\<lparr>pr_file := new_file\<rparr>) st4)))))"

definition add_profile :: "nat \<Rightarrow> setting \<Rightarrow> profile_data \<Rightarrow> profiles \<Rightarrow> unit res \<times> profiles" where
  "add_profile now profile_name settings st =
     (let file = profile_file profile_name now in
      case read_sections settings [] of
        Inl e \<Rightarrow> (Inl e, st)
      | Inr c \<Rightarrow>
          (case write_to_main_config file (st\<lparr>ps_files := dset file c (ps_files st)\<rparr>) of
             (Inl e, st1) \<Rightarrow> (Inl e, st1)
           | (Inr _, st1) \<Rightarrow>
               (case ProfileManager file st1 of
                  (Inl e, st2) \<Rightarrow> (Inl e, st2)
                | (Inr i, st2) \<Rightarrow> (Inr (), st2\<lparr>ps_list := ps_list st2 @ [i]\<rparr>))))"

definition delete_profile :: "string \<Rightarrow> profiles \<Rightarrow> unit res \<times> profiles" where
  "delete_profile file st = remove_from_main_config file (st\<lparr>ps_files := ddel file (ps_files st)\<rparr>)"

definition prev_selected_profile_file_name :: "profiles \<Rightarrow> string res" where
  "prev_selected_profile_file_name st =
     (case dget (ps_main st) ''SELECTED_PROFILE'' of
        None \<Rightarrow> Inl KeyError
      | Some [] \<Rightarrow> Inl StopIteration
      | Some ((k, v) # _) \<Rightarrow> Inr k)"

definition DEFAULT_PROFILE_NAME :: string where "DEFAULT_PROFILE_NAME = ''default_profile.ini''"

text \<open>\<open>all_profiles\<close>: the data of every listed profile and which one carries the mark \<open>selected\<close>.\<close>

definition all_profiles :: "profiles \<Rightarrow> ((string, profile_data \<times> bool) pydict) res" where
  "all_profiles st =
     (let d = fold (\<lambda>i. dset (pr_file (ps_objs st ! i)) (pr_data (ps_objs st ! i), False)) (ps_list st) []
      in case prev_selected_profile_file_name st of
           Inl e \<Rightarrow> Inl e
         | Inr prev \<Rightarrow>
             (let prev = (if dmem prev d then prev else DEFAULT_PROFILE_NAME)
              in case dget d prev of
                   None \<Rightarrow> Inl KeyError
                 | Some (data, _) \<Rightarrow> Inr (dset prev (data, True) d)))"

text \<open>The loop of \<open>load_profiles_to_program\<close> over a copy of the option names.\<close>

fun load_each :: "string list \<Rightarrow> profiles \<Rightarrow> unit res \<times> profiles" where
  "load_each [] st = (Inr (), st)"
| "load_each (pid # pids) st =
     (case ProfileManager pid st of
        (Inr i, st1) \<Rightarrow> load_each pids (st1\<lparr>ps_list := ps_list st1 @ [i]\<rparr>)
      | (Inl LookupError, st1) \<Rightarrow>
          (case delete_profile pid st1 of
             (Inl e, st2) \<Rightarrow> (Inl e, st2)
           | (Inr _, st2) \<Rightarrow> load_each pids st2)
      | (Inl e, st1) \<Rightarrow> (Inl e, st1))"

definition load_profiles_to_program :: "bool \<Rightarrow> profiles \<Rightarrow> unit res \<times> profiles" where
  "load_profiles_to_program path_exists st =
     (if \<not> path_exists then (Inl OSError, st)
      else let st1 = st\<lparr>ps_main := config_read (ps_config st)\<rparr>
           in case dget (ps_main st1) ''USER_PROFILES'' of
                None \<Rightarrow> (Inl KeyError, st1)
              | Some opts \<Rightarrow> load_each (dkeys opts) st1)"

definition refresh_profile_list :: "bool \<Rightarrow> profiles \<Rightarrow> unit res \<times> profiles" where
  "refresh_profile_list path_exists st = load_profiles_to_program path_exists (st\<lparr>ps_list := []\<rparr>)"

definition get_profile_from_profile_file_name :: "string \<Rightarrow> profiles \<Rightarrow> nat option" where
  "get_profile_from_profile_file_name file st = find (\<lambda>i. pr_file (ps_objs st ! i) = file) (ps_list st)"

definition set_current_profile :: "nat \<Rightarrow> profiles \<Rightarrow> profiles" where
  "set_current_profile i st = write_selected_profile (pr_file (ps_objs st ! i)) (st\<lparr>ps_current := Some i\<rparr>)"

section \<open>The page's changes to the profiles\<close>

text \<open>\<open>int(x)\<close> of what the page sends: an integer or a string of decimal digits.\<close>

definition setting_int :: "setting \<Rightarrow> setting res" where
  "setting_int v = (case v of
     SInt i \<Rightarrow> Inr (SInt i)
   | SStr t \<Rightarrow> map_sum id (\<lambda>n. SInt (int n)) (int_of_str t)
   | _ \<Rightarrow> Inl TypeError)"

fun delete_all :: "string list \<Rightarrow> profiles \<Rightarrow> unit res \<times> profiles" where
  "delete_all [] st = (Inr (), st)"
| "delete_all (file # files) st =
     (case delete_profile file st of
        (Inl e, st1) \<Rightarrow> (Inl e, st1)
      | (Inr _, st1) \<Rightarrow> delete_all files st1)"

fun edit_all :: "nat \<Rightarrow> nat \<Rightarrow> profile_data \<Rightarrow> profiles \<Rightarrow> unit res \<times> profiles" where
  "edit_all now i [] st = (Inr (), st)"
| "edit_all now i ((header, content) # rest) st =
     (case edit_profile now i header content st of
        (Inl e, st1) \<Rightarrow> (Inl e, st1)
      | (Inr _, st1) \<Rightarrow> edit_all now i rest st1)"

definition add_from_page :: "nat \<Rightarrow> profile_data \<Rightarrow> profiles \<Rightarrow> unit res \<times> profiles" where
  "add_from_page now settings st =
     (case res_bind (data_item settings ''USER'' ''id'') setting_int of
        Inl e \<Rightarrow> (Inl e, st)
      | Inr i \<Rightarrow>
          (let settings1 = dset ''USER'' (dset ''id'' i (the (dget settings ''USER''))) settings
           in case data_item settings1 ''USER'' ''name'' of
                Inl e \<Rightarrow> (Inl e, st)
              | Inr profile_name \<Rightarrow> add_profile now profile_name settings1 st))"

text \<open>The times at which the profiles are handled are an argument, one for each.\<close>

fun apply_profiles :: "nat list \<Rightarrow> (string, profile_data) pydict \<Rightarrow> profiles \<Rightarrow> unit res \<times> profiles" where
  "apply_profiles clock [] st = (Inr (), st)"
| "apply_profiles clock ((file, settings) # rest) st =
     (let now = (case clock of [] \<Rightarrow> 0 | t # _ \<Rightarrow> t)
      in case (case get_profile_from_profile_file_name file st of
                 None \<Rightarrow> add_from_page now settings st
               | Some i \<Rightarrow> edit_all now i settings st) of
           (Inl e, st1) \<Rightarrow> (Inl e, st1)
         | (Inr _, st1) \<Rightarrow> apply_profiles (tl clock) rest st1)"

definition configure_further_profile_data ::
    "nat list \<Rightarrow> (string, profile_data) pydict \<Rightarrow> profiles \<Rightarrow> unit res \<times> profiles" where
  "configure_further_profile_data clock profiles_data st =
     (case all_profiles st of
        Inl e \<Rightarrow> (Inl e, st)
      | Inr d \<Rightarrow>
          (case delete_all (filter (\<lambda>n. \<not> dmem n profiles_data) (dkeys d)) st of
             (Inl e, st1) \<Rightarrow> (Inl e, st1)
           | (Inr _, st1) \<Rightarrow> apply_profiles clock profiles_data st1))"

definition align_profiles ::
    "nat list \<Rightarrow> ((string, profile_data \<times> bool) pydict \<Rightarrow> (string, profile_data) pydict) \<Rightarrow> profiles \<Rightarrow> unit res \<times> profiles" where
  "align_profiles clock page st =
     (case all_profiles st of
        Inl e \<Rightarrow> (Inl e, st)
      | Inr d \<Rightarrow>
          (case configure_further_profile_data clock (page d) st of
             (Inl e, st1) \<Rightarrow> (Inl e, st1)
           | (Inr _, st1) \<Rightarrow> refresh_profile_list True st1))"

text \<open>\<open>ProfileManager.__eq__\<close> with a dictionary.\<close>

definition profile_eq_dict :: "profile \<Rightarrow> profile_data \<Rightarrow> bool res" where
  "profile_eq_dict p other =
     res_bind (profile_id p) (\<lambda>i. res_bind (data_item other ''USER'' ''id'') (\<lambda>i'.
       if i \<noteq> i' then Inr False
       else res_bind (username p) (\<lambda>u. res_bind (data_item other ''USER'' ''name'') (\<lambda>u'.
         if u \<noteq> u' then Inr False
         else res_bind (data_item (pr_data p) ''SERVER'' ''ip'') (\<lambda>a.
           res_bind (data_item other ''SERVER'' ''ip'') (\<lambda>a'. Inr (a = a')))))))"

fun find_selected :: "profile_data \<Rightarrow> nat list \<Rightarrow> profiles \<Rightarrow> nat option res" where
  "find_selected content [] st = Inr None"
| "find_selected content (i # is) st =
     (case profile_eq_dict (ps_objs st ! i) content of
        Inl e \<Rightarrow> Inl e
      | Inr b \<Rightarrow> if b then Inr (Some i) else find_selected content is st)"

text \<open>
  \<open>set_selected_profile\<close>. When no profile matches, the message itself is taken for the profile: it has
  no file name, and the selection is gone from the file while an empty section stays in memory.
\<close>

definition set_selected_profile :: "profile_data \<Rightarrow> profiles \<Rightarrow> unit res \<times> profiles" where
  "set_selected_profile content st =
     (case find_selected content (ps_list st) st of
        Inl e \<Rightarrow> (Inl e, st)
      | Inr (Some i) \<Rightarrow> (Inr (), set_current_profile i st)
      | Inr None \<Rightarrow>
          (let c = ddel ''SELECTED_PROFILE'' (ps_main st)
           in (Inl AttributeError, st\<lparr>ps_current := None, ps_main := c @ [(''SELECTED_PROFILE'', [])], ps_config := c\<rparr>)))"

section \<open>Start-up\<close>

definition write_default_configurations :: config where
  "write_default_configurations =
     [(''NERD_OPTIONS'', [(''this_port'', Some ''48221''), (''page_port'', Some ''12260''), (''ip_version'', Some ''4''),
        (''protocol'', Some ''tcp''), (''req_port'', Some ''35623''), (''page_serve_port'', Some ''40000'')]),
      (''USER_PROFILES'', [(''admin'', None)]), (''SELECTED_PROFILE'', [(''default_profile.ini'', None)])]"

definition write_default_profile :: "profiles \<Rightarrow> unit res \<times> profiles" where
  "write_default_profile st =
     (let st1 = st\<lparr>ps_files := dset DEFAULT_PROFILE_NAME
           [(''USER'', [(''name'', Some ''new user''), (''id'', Some ''1234'')]),
            (''SERVER'', [(''port'', Some ''45000''), (''ip'', Some ''0.0.0.0''), (''id'', Some ''0'')])] (ps_files st)\<rparr>;
          c = config_read (ps_config st)
      in case dget c ''USER_PROFILES'' of
           None \<Rightarrow> (Inl ConfigError, st1)
         | Some opts \<Rightarrow> (Inr (), st1\<lparr>ps_config := dset ''USER_PROFILES'' (dset DEFAULT_PROFILE_NAME None opts) c\<rparr>))"

text \<open>Versions are compared as decimal fractions: digits, or digits, a dot and digits.\<close>

definition float_of_str :: "string \<Rightarrow> rat res" where
  "float_of_str t =
     (let w = takeWhile (\<lambda>c. c \<noteq> CHR ''.'') t; f = drop (Suc (length w)) t
      in case int_of_str w of
           Inl e \<Rightarrow> Inl e
         | Inr n \<Rightarrow>
             if length w = length t then Inr (of_nat n)
             else (case int_of_str f of
                     Inl e \<Rightarrow> Inl e
                   | Inr m \<Rightarrow> Inr (of_nat n + of_nat m / 10 ^ length f)))"

definition upper :: "string \<Rightarrow> string" where
  "upper s = map (\<lambda>c. if 97 \<le> (of_char c :: nat) \<and> (of_char c :: nat) \<le> 122 then char_of ((of_char c :: nat) - 32) else c) s"

record constants =
  cn_port_this :: nat
  cn_port_req :: nat
  cn_port_page :: nat
  cn_page_serve_port :: nat
  cn_tcp :: bool
  cn_ipv6 :: bool
  cn_versions :: "(string, rat) pydict"

definition get_value :: "config \<Rightarrow> string \<Rightarrow> string \<Rightarrow> string res" where
  "get_value c sec opt =
     (case dget c sec of
        None \<Rightarrow> Inl ConfigError
      | Some opts \<Rightarrow>
          (case dget opts (lower opt) of
             None \<Rightarrow> Inl ConfigError
           | Some None \<Rightarrow> Inl TypeError
           | Some (Some v) \<Rightarrow> interpolate 9 opts v))"

definition getint :: "config \<Rightarrow> string \<Rightarrow> string \<Rightarrow> nat res" where
  "getint c sec opt = res_bind (get_value c sec opt) int_of_str"

text \<open>\<open>config_map[sec][opt]\<close>: a missing section or option is a \<open>KeyError\<close> here.\<close>

definition get_item :: "config \<Rightarrow> string \<Rightarrow> string \<Rightarrow> string res" where
  "get_item c sec opt =
     (case dget c sec of
        None \<Rightarrow> Inl KeyError
      | Some opts \<Rightarrow> if dmem (lower opt) opts then get_value c sec opt else Inl KeyError)"

fun versions_of :: "options \<Rightarrow> options \<Rightarrow> (string, rat) pydict \<Rightarrow> (string, rat) pydict res" where
  "versions_of m [] acc = Inr acc"
| "versions_of m ((k, None) # kvs) acc = Inl TypeError"
| "versions_of m ((k, Some v) # kvs) acc =
     (case res_bind (interpolate 9 m v) float_of_str of
        Inl e \<Rightarrow> Inl e
      | Inr r \<Rightarrow> versions_of m kvs (dset (upper k) r acc))"

text \<open>\<open>set_constants\<close>: the constants and the returned flag, which says that IPv6 was not refused.\<close>

definition set_constants :: "bool \<Rightarrow> config \<Rightarrow> (constants \<times> bool) res" where
  "set_constants has_ipv6 c =
     res_bind (getint c ''NERD_OPTIONS'' ''this_port'') (\<lambda>this.
     res_bind (getint c ''NERD_OPTIONS'' ''req_port'') (\<lambda>req.
     res_bind (getint c ''NERD_OPTIONS'' ''page_port'') (\<lambda>page.
     res_bind (getint c ''NERD_OPTIONS'' ''page_serve_port'') (\<lambda>serve.
     res_bind (get_item c ''NERD_OPTIONS'' ''protocol'') (\<lambda>protocol.
     res_bind (get_item c ''NERD_OPTIONS'' ''ip_version'') (\<lambda>ip.
       case dget c ''VERSIONS'' of
         None \<Rightarrow> Inl KeyError
       | Some opts \<Rightarrow>
           res_bind (versions_of opts opts []) (\<lambda>vs.
             Inr (\<lparr>cn_port_this = this, cn_port_req = req, cn_port_page = page, cn_page_serve_port = serve,
                   cn_tcp = (protocol = ''tcp''), cn_ipv6 = (ip = ''6'' \<and> has_ipv6), cn_versions = vs\<rparr>,
                  \<not> (ip = ''6'' \<and> \<not> has_ipv6)))))))))"

text \<open>
  \<open>initiate_bootup\<close> up to the constants. Reading a missing file (\<open>None\<close>) raises nothing, so the
  defaults are never written.
\<close>

definition bootup_config :: "bool \<Rightarrow> config option \<Rightarrow> profiles \<Rightarrow> (constants \<times> bool) res \<times> profiles" where
  "bootup_config has_ipv6 file st =
     (let config_map = (case file of None \<Rightarrow> [] | Some c \<Rightarrow> config_read c);
          st0 = st\<lparr>ps_config := (case file of None \<Rightarrow> [] | Some c \<Rightarrow> c)\<rparr>
      in case (if dmem DEFAULT_PROFILE_NAME (ps_files st0) then (Inr (), st0) else write_default_profile st0) of
           (Inl e, st1) \<Rightarrow> (Inl e, st1)
         | (Inr _, st1) \<Rightarrow>
             (case dget config_map ''USER_PROFILES'' of
                None \<Rightarrow> (Inl KeyError, st1)
              | Some opts \<Rightarrow>
                  (let c = (if dmem DEFAULT_PROFILE_NAME opts then config_map
                            else dset ''USER_PROFILES'' (dset DEFAULT_PROFILE_NAME None opts) config_map)
                   in (set_constants has_ipv6 c, st1\<lparr>ps_config := c\<rparr>))))"

section \<open>What is written is read again\<close>

lemma interpolate_plain: "CHR ''%'' \<notin> set v \<Longrightarrow> interpolate d m v = Inr v"
  by (induction v) (auto simp: interpolate.simps)

lemma drop_doubled_plain: "CHR ''%'' \<notin> set v \<Longrightarrow> drop_doubled v = v"
  by (induction v rule: drop_doubled.induct) auto

lemma has_percent_plain: "CHR ''%'' \<notin> set v \<Longrightarrow> \<not> has_percent v"
  by (induction v) (auto simp: has_percent.simps)

lemma before_set_plain [simp]: "CHR ''%'' \<notin> set v \<Longrightarrow> before_set v = Inr v"
  by (simp add: before_set_def drop_doubled_plain has_percent_plain)

text \<open>Options that keep their meaning in a file, and their text.\<close>

definition storable :: "(string, setting) pydict \<Rightarrow> bool" where
  "storable kvs \<longleftrightarrow> distinct (map fst kvs) \<and>
     list_all (\<lambda>(k, v). lower k = k \<and> (case setting_str v of None \<Rightarrow> False | Some t \<Rightarrow> CHR ''%'' \<notin> set t)) kvs"

definition option_texts :: "(string, setting) pydict \<Rightarrow> options" where
  "option_texts kvs = map (\<lambda>(k, v). (k, setting_str v)) kvs"

definition texted :: "profile_data \<Rightarrow> profile_data" where
  "texted d = map (\<lambda>(sec, kvs). (sec, map (\<lambda>(k, v). (k, SStr (the (setting_str v)))) kvs)) d"

definition storable_data :: "profile_data \<Rightarrow> bool" where
  "storable_data d \<longleftrightarrow> distinct (map fst d) \<and> list_all (\<lambda>(sec, kvs). storable kvs) d"

lemma read_options_storable:
  "storable kvs \<Longrightarrow> set (map fst kvs) \<inter> set (dkeys acc) = {} \<Longrightarrow>
   read_options False kvs acc = Inr (acc @ option_texts kvs)"
proof (induction kvs arbitrary: acc)
  case (Cons kv kvs)
  obtain k v where kv: "kv = (k, v)" by (cases kv)
  obtain t where t: "setting_str v = Some t" "CHR ''%'' \<notin> set t" "lower k = k"
    using Cons.prems(1) kv by (auto simp: storable_def split: option.splits)
  have new: "\<not> dmem k acc" using Cons.prems(2) kv by (auto simp: dmem_def)
  have "storable kvs" "set (map fst kvs) \<inter> set (dkeys (acc @ [(k, Some t)])) = {}"
    using Cons.prems kv by (auto simp: storable_def dkeys_def)
  from Cons.IH[OF this] show ?case
    using kv t new by (simp add: dset_new option_texts_def)
qed (simp add: option_texts_def)

lemma read_sections_storable:
  "storable_data d \<Longrightarrow> set (map fst d) \<inter> set (dkeys acc) = {} \<Longrightarrow>
   read_sections d acc = Inr (acc @ map (\<lambda>(sec, kvs). (sec, option_texts kvs)) d)"
proof (induction d arbitrary: acc)
  case (Cons sk d)
  obtain sec kvs where sk: "sk = (sec, kvs)" by (cases sk)
  have opts: "read_options False kvs [] = Inr (option_texts kvs)"
    using read_options_storable[of kvs "[]"] Cons.prems(1) sk by (simp add: storable_data_def dkeys_def)
  have new: "\<not> dmem sec acc" using Cons.prems(2) sk by (auto simp: dmem_def)
  have "storable_data d" "set (map fst d) \<inter> set (dkeys (acc @ [(sec, option_texts kvs)])) = {}"
    using Cons.prems sk by (auto simp: storable_data_def dkeys_def)
  from Cons.IH[OF this] show ?case
    using sk opts new by (simp add: dset_new)
qed simp

lemma interpolated_texts:
  "storable kvs \<Longrightarrow> interpolated m (option_texts kvs) = Inr (map (\<lambda>(k, v). (k, SStr (the (setting_str v)))) kvs)"
  by (induction kvs) (auto simp: storable_def option_texts_def interpolate_plain split: option.splits)

lemma all_items_texts:
  "storable_data d \<Longrightarrow> all_items (map (\<lambda>(sec, kvs). (sec, option_texts kvs)) d) = Inr (texted d)"
  by (induction d) (auto simp: storable_data_def texted_def interpolated_texts)

lemma config_read_texts:
  "storable_data d \<Longrightarrow> config_read (map (\<lambda>(sec, kvs). (sec, option_texts kvs)) d) = map (\<lambda>(sec, kvs). (sec, option_texts kvs)) d"
  by (auto simp: storable_data_def storable_def config_read_def option_texts_def list_all_iff) fastforce

text \<open>A profile file that has been written from storable data loads as their texts.\<close>

lemma load_written:
  assumes "storable_data d" "dget fs file = Some (map (\<lambda>(sec, kvs). (sec, option_texts kvs)) d)"
  shows "load_profile_data fs file = Inr (texted d)"
proof -
  have "\<not> list_ex (\<lambda>(sec, opts). list_ex (\<lambda>(k, v). v = None) opts) (map (\<lambda>(sec, kvs). (sec, option_texts kvs)) d)"
    using assms(1)
    by (force simp: list_ex_iff storable_data_def storable_def option_texts_def list_all_iff split: option.splits)
  then show ?thesis
    using assms by (simp add: load_profile_data_def config_read_texts all_items_texts)
qed

lemma dget_texted: "dget (texted d) sec = map_option (map (\<lambda>(k, v). (k, SStr (the (setting_str v))))) (dget d sec)"
  by (induction d) (auto simp: texted_def)

lemma dmem_texts: "dmem k (map (\<lambda>(k, v). (k, SStr (the (setting_str v)))) kvs) = dmem k kvs"
  by (force simp: dmem_def dkeys_def)

lemma match_pattern_texted: "match_pattern (texted d) = match_pattern d"
  by (simp add: match_pattern_def dget_texted dmem_texts split: option.split)

section \<open>Loading\<close>

text \<open>The profiles that end up in the list: the listed names whose files have the required keys.\<close>

definition loadable :: "(string, config) pydict \<Rightarrow> string \<Rightarrow> bool" where
  "loadable fs file \<longleftrightarrow> (\<exists>d. load_profile_data fs file = Inr d)"

definition listed :: "profiles \<Rightarrow> profile list" where
  "listed st = map ((!) (ps_objs st)) (ps_list st)"

definition refs_ok :: "profiles \<Rightarrow> bool" where
  "refs_ok st \<longleftrightarrow> list_all (\<lambda>i. i < length (ps_objs st)) (ps_list st)"

lemma load_profile_data_ddel: "file \<noteq> other \<Longrightarrow> load_profile_data (ddel other fs) file = load_profile_data fs file"
  by (simp add: load_profile_data_def)

lemma load_each_ok:
  assumes "distinct pids" "list_all (loadable (ps_files st)) pids" "dmem ''USER_PROFILES'' (ps_main st)" "refs_ok st"
    "ps_main st = ps_config st"
  shows "\<exists>st'. load_each pids st = (Inr (), st') \<and> refs_ok st' \<and> ps_main st' = ps_config st' \<and>
    listed st' = listed st @ map (\<lambda>f. \<lparr>pr_file = f, pr_data = projr (load_profile_data (ps_files st) f)\<rparr>)
      (filter (\<lambda>f. match_pattern (projr (load_profile_data (ps_files st) f))) pids) \<and>
    (\<exists>opts. dget (ps_main st') ''USER_PROFILES'' = Some opts \<and>
      (\<forall>k. dmem k opts \<longleftrightarrow> dmem k (the (dget (ps_main st) ''USER_PROFILES'')) \<and>
        (\<forall>f \<in> set pids. \<not> match_pattern (projr (load_profile_data (ps_files st) f)) \<longrightarrow> k \<noteq> lower f)))"
  using assms
proof (induction pids arbitrary: st)
  case Nil
  then show ?case by (auto simp: dmem_iff)
next
  case (Cons f pids)
  obtain d where d: "load_profile_data (ps_files st) f = Inr d"
    using Cons.prems(2) by (auto simp: loadable_def)
  obtain opts where opts: "dget (ps_main st) ''USER_PROFILES'' = Some opts"
    using Cons.prems(3) by (auto simp: dmem_iff)
  show ?case
  proof (cases "match_pattern d")
    case True
    let ?st = "st\<lparr>ps_objs := ps_objs st @ [\<lparr>pr_file = f, pr_data = d\<rparr>], ps_list := ps_list st @ [length (ps_objs st)]\<rparr>"
    have pm: "ProfileManager f st = (Inr (length (ps_objs st)), st\<lparr>ps_objs := ps_objs st @ [\<lparr>pr_file = f, pr_data = d\<rparr>]\<rparr>)"
      using d True by (simp add: ProfileManager_def get_profile_data_def)
    have lst: "listed ?st = listed st @ [\<lparr>pr_file = f, pr_data = d\<rparr>]" "refs_ok ?st"
      using Cons.prems(4) by (auto simp: listed_def refs_ok_def list_all_iff nth_append)
    have "\<exists>st'. load_each pids ?st = (Inr (), st') \<and> refs_ok st' \<and> ps_main st' = ps_config st' \<and>
      listed st' = listed ?st @ map (\<lambda>f. \<lparr>pr_file = f, pr_data = projr (load_profile_data (ps_files st) f)\<rparr>)
        (filter (\<lambda>f. match_pattern (projr (load_profile_data (ps_files st) f))) pids) \<and>
      (\<exists>opts. dget (ps_main st') ''USER_PROFILES'' = Some opts \<and>
        (\<forall>k. dmem k opts \<longleftrightarrow> dmem k (the (dget (ps_main st) ''USER_PROFILES'')) \<and>
          (\<forall>f \<in> set pids. \<not> match_pattern (projr (load_profile_data (ps_files st) f)) \<longrightarrow> k \<noteq> lower f)))"
      using Cons.IH[of ?st] Cons.prems lst(2) by simp
    then show ?thesis using pm lst(1) d True by auto
  next
    case False
    let ?c = "dset ''USER_PROFILES'' (ddel (lower f) opts) (ps_main st)"
    let ?st = "st\<lparr>ps_files := ddel f (ps_files st), ps_main := ?c, ps_config := ?c\<rparr>"
    have pm: "ProfileManager f st = (Inl LookupError, st)" "delete_profile f st = (Inr (), ?st)"
      using d False opts
      by (simp_all add: ProfileManager_def get_profile_data_def delete_profile_def remove_from_main_config_def Let_def)
    have same: "load_profile_data (ddel f (ps_files st)) g = load_profile_data (ps_files st) g" if "g \<in> set pids" for g
      using that Cons.prems(1) by (auto intro: load_profile_data_ddel)
    have "\<exists>st'. load_each pids ?st = (Inr (), st') \<and> refs_ok st' \<and> ps_main st' = ps_config st' \<and>
      listed st' = listed ?st @ map (\<lambda>f. \<lparr>pr_file = f, pr_data = projr (load_profile_data (ps_files ?st) f)\<rparr>)
        (filter (\<lambda>f. match_pattern (projr (load_profile_data (ps_files ?st) f))) pids) \<and>
      (\<exists>opts. dget (ps_main st') ''USER_PROFILES'' = Some opts \<and>
        (\<forall>k. dmem k opts \<longleftrightarrow> dmem k (the (dget (ps_main ?st) ''USER_PROFILES'')) \<and>
          (\<forall>f \<in> set pids. \<not> match_pattern (projr (load_profile_data (ps_files ?st) f)) \<longrightarrow> k \<noteq> lower f)))"
      using Cons.prems same by (intro Cons.IH) (auto simp: loadable_def list_all_iff refs_ok_def)
    moreover have "map (\<lambda>f. \<lparr>pr_file = f, pr_data = projr (load_profile_data (ps_files ?st) f)\<rparr>)
        (filter (\<lambda>f. match_pattern (projr (load_profile_data (ps_files ?st) f))) pids) =
      map (\<lambda>f. \<lparr>pr_file = f, pr_data = projr (load_profile_data (ps_files st) f)\<rparr>)
        (filter (\<lambda>f. match_pattern (projr (load_profile_data (ps_files st) f))) pids)"
      using same by (auto cong: filter_cong)
    moreover have "listed ?st = listed st" by (simp add: listed_def)
    ultimately show ?thesis using pm d False opts same by auto
  qed
qed

section \<open>Adding a profile\<close>

text \<open>
  What the parser keeps of the configuration it holds: sections are distinct, and so are the options of
  each, which are in lower case. Reading such a file back changes nothing.
\<close>

definition config_ok :: "config \<Rightarrow> bool" where
  "config_ok c \<longleftrightarrow> dict_wf c \<and> list_all (\<lambda>(sec, opts). dict_wf opts \<and> list_all (\<lambda>k. lower k = k) (dkeys opts)) c"

lemma lower_lower [simp]: "lower (lower s) = lower s"
proof -
  have "lower_char (lower_char c) = lower_char c" for c
    by (cases "65 \<le> (of_char c :: nat) \<and> (of_char c :: nat) \<le> 90") (auto simp: lower_char_def)
  then show ?thesis by (simp add: lower_def comp_def)
qed

lemma config_read_ok: "config_ok c \<Longrightarrow> config_read c = c"
proof -
  assume ok: "config_ok c"
  have "map (\<lambda>(k, v). (lower k, v)) opts = opts" if "(sec, opts) \<in> set c" for sec opts
    using ok that by (intro map_idI) (force simp: config_ok_def list_all_iff dkeys_def)
  then show ?thesis unfolding config_read_def by (intro map_idI) (auto simp del: map_eq_conv)
qed

lemma config_ok_section:
  "config_ok c \<Longrightarrow> dget c sec = Some opts \<Longrightarrow> dict_wf opts \<and> list_all (\<lambda>k. lower k = k) (dkeys opts)"
  by (fastforce simp: config_ok_def list_all_iff dest!: map_of_SomeD)

lemma config_ok_set:
  assumes "config_ok c" "dict_wf opts" "list_all (\<lambda>k. lower k = k) (dkeys opts)"
  shows "config_ok (dset sec opts c)"
proof -
  have "dict_wf os \<and> list_all (\<lambda>k. lower k = k) (dkeys os)" if "(sec', os) \<in> set (dset sec opts c)" for sec' os
    using that assms(1,2,3) set_dict_dget[of "dset sec opts c" sec' os]
    by (auto simp: config_ok_def split: if_splits dest: config_ok_section[OF assms(1)])
  then show ?thesis using assms(1) by (auto simp: config_ok_def list_all_iff)
qed

lemma write_to_main_config_ok:
  assumes "config_ok (ps_main st)" "dget (ps_main st) ''USER_PROFILES'' = Some opts"
  shows "\<exists>c. write_to_main_config file st = (Inr (), st\<lparr>ps_main := c, ps_config := c\<rparr>) \<and> config_ok c \<and>
    dget c ''USER_PROFILES'' = Some (dset (lower file) None opts)"
  using assms config_ok_section[OF assms]
  by (auto simp: write_to_main_config_def Let_def list_all_iff dkeys_def update_keys intro!: config_ok_set)

text \<open>The list after a reload: the listed names whose files have the required keys, in the order of the file.\<close>

lemma reload_listed:
  assumes ok: "config_ok (ps_config st)" and opts: "dget (ps_config st) ''USER_PROFILES'' = Some opts"
    and files: "list_all (loadable (ps_files st)) (dkeys opts)"
  shows "\<exists>st'. refresh_profile_list True st = (Inr (), st') \<and>
    listed st' = map (\<lambda>f. \<lparr>pr_file = f, pr_data = projr (load_profile_data (ps_files st) f)\<rparr>)
      (filter (\<lambda>f. match_pattern (projr (load_profile_data (ps_files st) f))) (dkeys opts)) \<and>
    (\<exists>opts'. dget (ps_config st') ''USER_PROFILES'' = Some opts' \<and>
      (\<forall>k. dmem k opts' \<longrightarrow> dmem k opts \<and> match_pattern (projr (load_profile_data (ps_files st) k))))"
proof -
  let ?st = "st\<lparr>ps_list := [], ps_main := config_read (ps_config st)\<rparr>"
  have main: "ps_main ?st = ps_config st" using config_read_ok[OF ok] by simp
  have keys: "distinct (dkeys opts)" "list_all (\<lambda>k. lower k = k) (dkeys opts)"
    using config_ok_section[OF ok opts] by (simp_all add: dict_wf_def dkeys_def)
  have run: "refresh_profile_list True st = load_each (dkeys opts) ?st"
    using main opts by (simp add: refresh_profile_list_def load_profiles_to_program_def Let_def)
  have "dmem ''USER_PROFILES'' (ps_main ?st)" using main opts by (simp add: dmem_iff)
  from load_each_ok[OF keys(1), of ?st] files main this
  obtain st' opts' where st': "load_each (dkeys opts) ?st = (Inr (), st')" "ps_main st' = ps_config st'"
      "listed st' = listed ?st @ map (\<lambda>f. \<lparr>pr_file = f, pr_data = projr (load_profile_data (ps_files ?st) f)\<rparr>)
        (filter (\<lambda>f. match_pattern (projr (load_profile_data (ps_files ?st) f))) (dkeys opts))"
      "dget (ps_main st') ''USER_PROFILES'' = Some opts'"
      and mem: "\<And>k. dmem k opts' \<longleftrightarrow> dmem k (the (dget (ps_main ?st) ''USER_PROFILES'')) \<and>
        (\<forall>f \<in> set (dkeys opts). \<not> match_pattern (projr (load_profile_data (ps_files ?st) f)) \<longrightarrow> k \<noteq> lower f)"
    by (auto simp: refs_ok_def)
  have "dmem k opts \<and> match_pattern (projr (load_profile_data (ps_files st) k))" if "dmem k opts'" for k
    using that mem[of k] main opts keys(2) by (auto simp: list_all_iff dmem_def)
  then show ?thesis using run st' by (auto simp: listed_def)
qed

text \<open>
  Adding a profile with data that fits a file: the file is written, its name is entered in the
  configuration, in lower case, and the list gains a profile with the texts of the data.
\<close>

lemma add_profile_written:
  fixes name :: setting and now :: nat
  assumes "storable_data d" "match_pattern d" "config_ok (ps_main st)" "refs_ok st"
    "dget (ps_main st) ''USER_PROFILES'' = Some opts"
  defines "file \<equiv> profile_file name now"
  shows "\<exists>st'. add_profile now name d st = (Inr (), st') \<and> refs_ok st' \<and>
    listed st' = listed st @ [\<lparr>pr_file = file, pr_data = texted d\<rparr>] \<and>
    ps_files st' = dset file (map (\<lambda>(sec, kvs). (sec, option_texts kvs)) d) (ps_files st) \<and>
    ps_main st' = ps_config st' \<and> config_ok (ps_config st') \<and>
    dget (ps_config st') ''USER_PROFILES'' = Some (dset (lower file) None opts)"
proof -
  let ?c = "map (\<lambda>(sec, kvs). (sec, option_texts kvs)) d"
  let ?fs = "dset file ?c (ps_files st)"
  have sections: "read_sections d [] = Inr ?c"
    using read_sections_storable[OF assms(1), of "[]"] by (simp add: dkeys_def)
  obtain c where c: "write_to_main_config file (st\<lparr>ps_files := ?fs\<rparr>) = (Inr (), st\<lparr>ps_files := ?fs, ps_main := c, ps_config := c\<rparr>)"
    "config_ok c" "dget c ''USER_PROFILES'' = Some (dset (lower file) None opts)"
    using write_to_main_config_ok[of "st\<lparr>ps_files := ?fs\<rparr>" opts "file"] assms(3,5) by auto
  have load: "get_profile_data ?fs file = Inr (texted d)"
    using load_written[OF assms(1), of ?fs "file"] assms(2) by (simp add: get_profile_data_def match_pattern_texted)
  show ?thesis
    using sections c load assms(4) unfolding file_def[symmetric]
    by (auto simp: add_profile_def Let_def ProfileManager_def listed_def refs_ok_def nth_append list_all_iff
        simp flip: file_def)
qed

lemma load_profile_data_dset: "file \<noteq> other \<Longrightarrow> load_profile_data (dset other c fs) file = load_profile_data fs file"
  by (simp add: load_profile_data_def)


definition bob_data :: profile_data where
  "bob_data = [(''USER'', [(''name'', SStr ''bob''), (''id'', SInt 7)]), (''SERVER'', [(''ip'', SStr ''10.0.0.1''), (''port'', SInt 45)])]"

definition no_profiles :: profiles where
  "no_profiles = \<lparr>ps_files = [], ps_config = [(''USER_PROFILES'', [])], ps_main = [(''USER_PROFILES'', [])],
     ps_objs = [], ps_list = [], ps_current = None\<rparr>"

lemma bob_data_ok: "storable_data bob_data" "match_pattern bob_data"
  by (code_simp, code_simp)

lemma no_profiles_ok:
  "config_ok (ps_main no_profiles)" "refs_ok no_profiles" "dget (ps_main no_profiles) ''USER_PROFILES'' = Some []"
  by (simp_all add: no_profiles_def config_ok_def refs_ok_def dict_wf_def dkeys_def)


text \<open>
  A profile whose file name contains a capital letter is added and listed, but the configuration
  holds its name in lower case: when the list is next read from the disk no file has that name, so the
  profile is taken for an incomplete one. It is no longer listed and its entry is removed from the
  configuration.
\<close>

theorem capital_profile_lost:
  assumes "storable_data d" "match_pattern d" "config_ok (ps_main st)" "refs_ok st"
    "dget (ps_main st) ''USER_PROFILES'' = Some opts" "list_all (loadable (ps_files st)) (dkeys opts)"
    "lower (profile_file name now) \<noteq> profile_file name now"
    "dget (ps_files st) (lower (profile_file name now)) = None"
  shows "\<exists>st' st''. add_profile now name d st = (Inr (), st') \<and>
    \<lparr>pr_file = profile_file name now, pr_data = texted d\<rparr> \<in> set (listed st') \<and>
    refresh_profile_list True st' = (Inr (), st'') \<and>
    (\<forall>p \<in> set (listed st''). lower (pr_file p) \<noteq> lower (profile_file name now)) \<and>
    (\<exists>opts'. dget (ps_config st'') ''USER_PROFILES'' = Some opts' \<and> \<not> dmem (lower (profile_file name now)) opts')"
proof -
  let ?f = "profile_file name now"
  let ?os = "dset (lower ?f) None opts"
  from add_profile_written[OF assms(1-5), where now = now and name = name]
  obtain st' where st': "add_profile now name d st = (Inr (), st')"
    "listed st' = listed st @ [\<lparr>pr_file = ?f, pr_data = texted d\<rparr>]"
    "ps_files st' = dset ?f (map (\<lambda>(sec, kvs). (sec, option_texts kvs)) d) (ps_files st)"
    "config_ok (ps_config st')" "dget (ps_config st') ''USER_PROFILES'' = Some ?os"
    by auto
  have low: "lower k = k" if "dmem k ?os" for k
    using config_ok_section[OF st'(4,5)] that by (auto simp: list_all_iff dmem_def)
  have gone: "load_profile_data (ps_files st') (lower ?f) = Inr []"
    using st'(3) assms(7,8) by (simp add: load_profile_data_def)
  have "loadable (ps_files st') f" if "dmem f ?os" for f
  proof (cases "f = lower ?f")
    case True
    then show ?thesis using gone by (auto simp: loadable_def)
  next
    case False
    then have "f \<in> set (dkeys opts)" "f \<noteq> ?f" using that low[OF that] assms(7) by (auto simp flip: dmem_def)
    then show ?thesis using st'(3) assms(6) by (auto simp: loadable_def list_all_iff load_profile_data_dset)
  qed
  then have "list_all (loadable (ps_files st')) (dkeys ?os)" by (simp add: list_all_iff dmem_def)
  from reload_listed[OF st'(4,5) this]
  obtain st'' opts' where st'': "refresh_profile_list True st' = (Inr (), st'')"
    "listed st'' = map (\<lambda>f. \<lparr>pr_file = f, pr_data = projr (load_profile_data (ps_files st') f)\<rparr>)
      (filter (\<lambda>f. match_pattern (projr (load_profile_data (ps_files st') f))) (dkeys ?os))"
    "dget (ps_config st'') ''USER_PROFILES'' = Some opts'"
    "\<forall>k. dmem k opts' \<longrightarrow> dmem k ?os \<and> match_pattern (projr (load_profile_data (ps_files st') k))"
    by auto
  have bad: "\<not> match_pattern (projr (load_profile_data (ps_files st') (lower ?f)))"
    by (simp add: gone match_pattern_def)
  then have "\<forall>p \<in> set (listed st''). lower (pr_file p) \<noteq> lower ?f"
    using st''(2) low by (auto simp: dmem_def)
  then show ?thesis using st' st''(1,3,4) bad by auto
qed

theorem capital_profile_lost_witness:
  "\<exists>st' st''. add_profile 17 (SStr ''Bob'') bob_data no_profiles = (Inr (), st') \<and>
    \<lparr>pr_file = profile_file (SStr ''Bob'') 17, pr_data = texted bob_data\<rparr> \<in> set (listed st') \<and>
    refresh_profile_list True st' = (Inr (), st'') \<and>
    (\<forall>p \<in> set (listed st''). lower (pr_file p) \<noteq> lower (profile_file (SStr ''Bob'') 17))"
proof -
  have "lower (profile_file (SStr ''Bob'') 17) \<noteq> profile_file (SStr ''Bob'') 17" by code_simp
  moreover have "dget (ps_files no_profiles) (lower (profile_file (SStr ''Bob'') 17)) = None"
    by (simp add: no_profiles_def)
  ultimately show ?thesis
    using capital_profile_lost[OF bob_data_ok no_profiles_ok, of "SStr ''Bob''" 17] by (auto simp: dkeys_def)
qed

text \<open>
  Start-up without a configuration file always fails, and the defaults the program has for that case
  would not do either: they have no versions.
\<close>

lemma bootup_without_config:
  "\<exists>e st'. bootup_config has_ipv6 None st = (Inl e, st') \<and> (e = KeyError \<or> e = ConfigError)"
  by (auto simp: bootup_config_def write_default_profile_def config_read_def Let_def)

lemma defaults_lack_versions: "set_constants has_ipv6 write_default_configurations = Inl KeyError"
proof -
  have int: "\<exists>n. getint write_default_configurations ''NERD_OPTIONS'' opt = Inr n"
    if "get_value write_default_configurations ''NERD_OPTIONS'' opt = Inr v" "v \<noteq> []" "list_all is_digit v" for opt v
    using that by (simp add: getint_def int_of_str_def)
  have "get_value write_default_configurations ''NERD_OPTIONS'' ''this_port'' = Inr ''48221''"
    "get_value write_default_configurations ''NERD_OPTIONS'' ''req_port'' = Inr ''35623''"
    "get_value write_default_configurations ''NERD_OPTIONS'' ''page_port'' = Inr ''12260''"
    "get_value write_default_configurations ''NERD_OPTIONS'' ''page_serve_port'' = Inr ''40000''"
    and texts: "get_item write_default_configurations ''NERD_OPTIONS'' ''protocol'' = Inr ''tcp''"
    "get_item write_default_configurations ''NERD_OPTIONS'' ''ip_version'' = Inr ''4''"
    "dget write_default_configurations ''VERSIONS'' = None"
    by code_simp+
  note ports = this(1-4)
  have "list_all is_digit ''48221''" "list_all is_digit ''35623''" "list_all is_digit ''12260''" "list_all is_digit ''40000''"
    by code_simp+
  from int[OF ports(1) _ this(1)] int[OF ports(2) _ this(2)] int[OF ports(3) _ this(3)] int[OF ports(4) _ this(4)]
  show ?thesis using texts by (auto simp: set_constants_def)
qed

end
