(* ===== verification/Start_Up.thy ===== *)
theory Start_Up
  imports Profiles Files Useables
begin

text \<open>
  The part of start-up that finds the program's address, its ports and its own peer object:
  \<open>src/configurations/bootup.py\<close> and \<open>configure.py\<close>, over the address parsers of Python's \<open>ipaddress\<close>.

  The answers of the operating system, of the shell commands and of the web service are fields of
  \<open>net_env\<close>. The digest of the kademlia package is an argument.
\<close>

section \<open>IP addresses\<close>

datatype ip_address = IPv4 nat | IPv6 nat "string option"

definition octet :: "string \<Rightarrow> nat res" where
  "octet t = (case int_of_str t of
     Inl e \<Rightarrow> Inl AddressValueError
   | Inr n \<Rightarrow> if length t > 3 \<or> (hd t = CHR ''0'' \<and> length t > 1) \<or> n > 255 then Inl AddressValueError else Inr n)"

fun octets :: "string list \<Rightarrow> nat \<Rightarrow> nat res" where
  "octets [] acc = Inr acc"
| "octets (t # ts) acc = res_bind (octet t) (\<lambda>n. octets ts (256 * acc + n))"

definition IPv4Address :: "string \<Rightarrow> ip_address res" where
  "IPv4Address t =
     (if CHR ''/'' \<in> set t \<or> length (split_on CHR ''.'' t) \<noteq> 4 then Inl AddressValueError
      else map_sum id IPv4 (octets (split_on CHR ''.'' t) 0))"

definition hex_val :: "char \<Rightarrow> nat option" where
  "hex_val c = (let n = (of_char c :: nat) in
     if 48 \<le> n \<and> n \<le> 57 then Some (n - 48)
     else if 97 \<le> n \<and> n \<le> 102 then Some (n - 87)
     else if 65 \<le> n \<and> n \<le> 70 then Some (n - 55) else None)"

definition hextet :: "string \<Rightarrow> nat res" where
  "hextet t = (if t = [] \<or> length t > 4 \<or> list_ex (\<lambda>c. hex_val c = None) t then Inl AddressValueError
     else Inr (foldl (\<lambda>a c. 16 * a + the (hex_val c)) 0 t))"

fun hextets :: "string list \<Rightarrow> nat \<Rightarrow> nat res" where
  "hextets [] acc = Inr acc"
| "hextets (t # ts) acc = res_bind (hextet t) (\<lambda>n. hextets ts (65536 * acc + n))"

definition hex_digit :: "nat \<Rightarrow> char" where
  "hex_digit n = char_of (if n < 10 then 48 + n else 87 + n)"

definition hex4 :: "nat \<Rightarrow> string" where
  "hex4 n = map hex_digit [n div 4096 mod 16, n div 256 mod 16, n div 16 mod 16, n mod 16]"

text \<open>An IPv4 address at the end counts as two parts.\<close>

definition expand_v4_suffix :: "string list \<Rightarrow> (string list) res" where
  "expand_v4_suffix parts =
     (if CHR ''.'' \<notin> set (last parts) then Inr parts
      else case IPv4Address (last parts) of
        Inr (IPv4 n) \<Rightarrow> Inr (butlast parts @ [hex4 (n div 65536), hex4 n])
      | _ \<Rightarrow> Inl AddressValueError)"

definition ipv6_int :: "string \<Rightarrow> nat res" where
  "ipv6_int t =
     (if t = [] \<or> length (split_on CHR '':'' t) < 3 then Inl AddressValueError
      else res_bind (expand_v4_suffix (split_on CHR '':'' t)) (\<lambda>parts.
        if length parts > 9 then Inl AddressValueError
        else let gaps = filter (\<lambda>i. parts ! i = []) [1..<length parts - 1]
        in if length gaps > 1 then Inl AddressValueError
        else if gaps = [] then
          (if length parts \<noteq> 8 \<or> hd parts = [] \<or> last parts = [] then Inl AddressValueError else hextets parts 0)
        else let k = hd gaps;
                 hi = (if hd parts = [] then k - 1 else k);
                 lo = (if last parts = [] then length parts - k - 2 else length parts - k - 1)
        in if (hd parts = [] \<and> hi \<noteq> 0) \<or> (last parts = [] \<and> lo \<noteq> 0) \<or> hi + lo > 7 then Inl AddressValueError
        else res_bind (hextets (take hi parts) 0) (\<lambda>n.
             hextets (drop (length parts - lo) parts) (n * 65536 ^ (8 - hi - lo)))))"

definition IPv6Address :: "string \<Rightarrow> ip_address res" where
  "IPv6Address t =
     (let addr = takeWhile (\<lambda>c. c \<noteq> CHR ''%'') t; scope = drop (Suc (length addr)) t
      in if CHR ''/'' \<in> set t \<or> (length addr < length t \<and> (scope = [] \<or> CHR ''%'' \<in> set scope)) then Inl AddressValueError
      else map_sum id (\<lambda>n. IPv6 n (if length addr < length t then Some scope else None)) (ipv6_int addr))"

definition is_loopback :: "ip_address \<Rightarrow> bool" where
  "is_loopback a = (case a of IPv4 n \<Rightarrow> n div 2 ^ 24 = 127 | IPv6 n _ \<Rightarrow> n = 1)"

definition is_link_local :: "ip_address \<Rightarrow> bool" where
  "is_link_local a = (case a of IPv4 n \<Rightarrow> n div 2 ^ 16 = 43518 | IPv6 n _ \<Rightarrow> n div 2 ^ 118 = 1018)"

section \<open>Finding the own address\<close>

datatype api_answer = Api_Ip "string option" | Api_Http_Error | Api_Json_Error | Api_Other py_exn
datatype platform = Windows | Darwin | Linux | Other_Platform

record net_env =
  ne_platform :: platform
  ne_has_ipv6 :: bool
  ne_v4_sockname :: "string res"
  ne_host_by_name :: "string res"
  ne_hostname_I :: string
  ne_v6_infos :: "string list"
  ne_ip_addr_show :: "string res"
  ne_api64 :: api_answer
  ne_v6_of_host :: "string res"

definition get_v4 :: "net_env \<Rightarrow> ip_address res" where
  "get_v4 env =
     (case ne_v4_sockname env of
        Inr config_ip \<Rightarrow> IPv4Address config_ip
      | Inl e \<Rightarrow>
          if \<not> is_OSError e then Inl e
          else res_bind (ne_host_by_name env) (\<lambda>config_ip.
            IPv4Address (if ne_platform env \<in> {Darwin, Linux} then ne_hostname_I env else config_ip)))"

text \<open>\<open>line.split()\<close>.\<close>

definition blank :: "char \<Rightarrow> bool" where
  "blank c \<longleftrightarrow> (of_char c :: nat) \<in> {9, 10, 11, 12, 13, 28, 29, 30, 31, 32}"

fun words_from :: "string \<Rightarrow> string \<Rightarrow> string list" where
  "words_from w [] = (if w = [] then [] else [w])"
| "words_from w (c # s) =
     (if blank c then (if w = [] then words_from [] s else w # words_from [] s) else words_from (w @ [c]) s)"

fun v6_of_lines :: "string list \<Rightarrow> (string list) res" where
  "v6_of_lines [] = Inr []"
| "v6_of_lines (line # lines) =
     (if sublist ''inet6'' line \<and> \<not> sublist ''::1'' line
      then (case words_from [] line of
              _ # w # _ \<Rightarrow> map_sum id ((#) (hd (split_on CHR ''/'' w))) (v6_of_lines lines)
            | _ \<Rightarrow> Inl IndexError)
      else v6_of_lines lines)"

text \<open>\<open>None\<close> when the command or the reading of its output fails.\<close>

definition get_v6_from_shell :: "net_env \<Rightarrow> (ip_address option) res" where
  "get_v6_from_shell env =
     (case res_bind (ne_ip_addr_show env) (\<lambda>out. v6_of_lines (split_on (CHR 0x0A) out)) of
        Inl e \<Rightarrow> Inr None
      | Inr [] \<Rightarrow> Inl IndexError
      | Inr (t # _) \<Rightarrow> map_sum id Some (IPv6Address t))"

definition get_v6_from_api64 :: "net_env \<Rightarrow> ip_address res" where
  "get_v6_from_api64 env =
     (case ne_api64 env of
        Api_Ip None \<Rightarrow> IPv6Address ''::1''
      | Api_Ip (Some t) \<Rightarrow> IPv6Address t
      | Api_Other e \<Rightarrow> Inl e
      | _ \<Rightarrow> res_bind (ne_v6_of_host env) IPv6Address)"

fun first_link_local :: "string list \<Rightarrow> ip_address res" where
  "first_link_local [] = IPv6Address ''::1''"
| "first_link_local (t # ts) = res_bind (IPv6Address t) (\<lambda>a. if is_link_local a then Inr a else first_link_local ts)"

text \<open>On a platform that is none of the three the function returns \<open>None\<close>.\<close>

definition get_v6 :: "net_env \<Rightarrow> (ip_address option) res" where
  "get_v6 env =
     (case ne_platform env of
        Windows \<Rightarrow> map_sum id Some (first_link_local (ne_v6_infos env))
      | Other_Platform \<Rightarrow> Inr None
      | _ \<Rightarrow> res_bind (get_v6_from_shell env) (\<lambda>a.
          case a of Some a \<Rightarrow> Inr (Some a) | None \<Rightarrow> map_sum id Some (get_v6_from_api64 env)))"

definition get_ip :: "bool \<Rightarrow> net_env \<Rightarrow> ip_address res" where
  "get_ip ipv6 env =
     (if \<not> ipv6 \<or> \<not> ne_has_ipv6 env then get_v4 env
      else res_bind (get_v6 env) (\<lambda>p. case p of
        None \<Rightarrow> Inl AttributeError
      | Some primary_ip \<Rightarrow>
          if \<not> is_loopback primary_ip then Inr primary_ip
          else res_bind (get_v4 env) (\<lambda>secondary_ip.
            Inr (if is_loopback secondary_ip then primary_ip else secondary_ip))))"

section \<open>Ports\<close>

fun valid_ports :: "(nat \<Rightarrow> addr res) \<Rightarrow> nat list \<Rightarrow> (nat list) res" where
  "valid_ports bind [] = Inr []"
| "valid_ports bind (port # ports) =
     res_bind (is_port_empty bind port) (\<lambda>a.
     res_bind (case a of Some _ \<Rightarrow> Inr port | None \<Rightarrow> get_free_port bind) (\<lambda>p.
       map_sum id ((#) p) (valid_ports bind ports)))"

definition validate_ports :: "(nat \<Rightarrow> addr res) \<Rightarrow> constants \<Rightarrow> constants res" where
  "validate_ports bind c =
     map_sum id (\<lambda>ps. c\<lparr>cn_port_this := ps ! 0, cn_port_page := ps ! 1, cn_port_req := ps ! 2\<rparr>)
       (valid_ports bind [cn_port_this c, cn_port_page c, cn_port_req c])"

text \<open>The rest of \<open>initiate_bootup\<close>: the address (IPv6 addresses turn the program to IPv6) and the ports.\<close>

definition bootup_network :: "net_env \<Rightarrow> (ip_address \<Rightarrow> nat \<Rightarrow> addr res) \<Rightarrow> constants \<Rightarrow> (constants \<times> ip_address) res" where
  "bootup_network env bind c =
     res_bind (get_ip (cn_ipv6 c) env) (\<lambda>ip_addr.
       let c1 = (case ip_addr of IPv6 _ _ \<Rightarrow> c\<lparr>cn_ipv6 := True\<rparr> | IPv4 _ \<Rightarrow> c)
       in case validate_ports (bind ip_addr) c1 of
            Inl e \<Rightarrow> Inl (if is_OSError e then RuntimeError else e)
          | Inr c2 \<Rightarrow> Inr (c2, ip_addr))"

section \<open>The own peer object\<close>

definition setting_value :: "setting \<Rightarrow> pyval" where
  "setting_value v = (case v of SNone \<Rightarrow> PNone | SStr t \<Rightarrow> PStr t | SInt i \<Rightarrow> PInt i | SOther t \<Rightarrow> PStr t)"

definition make_this_remote_peer :: "(setting \<Rightarrow> bytes) \<Rightarrow> string \<Rightarrow> constants \<Rightarrow> profiles \<Rightarrow> remote_peer res" where
  "make_this_remote_peer digest this_ip c st =
     (case ps_current st of
        None \<Rightarrow> Inl AttributeError
      | Some i \<Rightarrow>
          res_bind (profile_id (ps_objs st ! i)) (\<lambda>pid.
          res_bind (username (ps_objs st ! i)) (\<lambda>u.
            RemotePeer_init (digest pid) (setting_value u) this_ip
              (PInt (int (cn_port_this c))) (PInt (int (cn_port_req c))) (PInt 1))))"

section \<open>Properties\<close>

lemma octets_Inl: "list_ex (\<lambda>t. octet t = Inl AddressValueError) ts \<Longrightarrow> octets ts acc = Inl AddressValueError"
proof (induction ts arbitrary: acc)
  case (Cons t ts)
  then show ?case by (cases "octet t") (auto simp: octet_def split: sum.splits if_splits)
qed simp

lemma split_on_snoc: "split_on c (xs @ [d]) = (if c = d then split_on c xs @ [[]]
    else butlast (split_on c xs) @ [last (split_on c xs) @ [d]])"
proof (induction xs)
  case (Cons x xs)
  have "split_on c xs \<noteq> []" by (induction xs) (auto split: list.split)
  then show ?case using Cons by (auto split: list.split)
qed simp

text \<open>
  \<open>hostname -I\<close> ends each address with a blank, which no IPv4 address may have: without a route the
  program does not start on Linux, whatever its address.
\<close>

lemma hostname_address_refused: "IPv4Address (t @ '' '') = Inl AddressValueError"
proof -
  have "octet (w @ '' '') = Inl AddressValueError" for w
  proof -
    have "\<not> is_digit CHR 0x20" by (simp add: is_digit_def)
    then have "\<not> list_all is_digit (w @ '' '')" by simp
    then show ?thesis by (simp add: octet_def int_of_str_def)
  qed
  then have "list_ex (\<lambda>t. octet t = Inl AddressValueError) (split_on CHR ''.'' (t @ '' ''))"
    by (simp add: split_on_snoc)
  from octets_Inl[OF this] show ?thesis by (simp add: IPv4Address_def)
qed

lemma offline_start_fails:
  assumes "ne_v4_sockname env = Inl e" "is_OSError e" "ne_host_by_name env = Inr ip" "ne_platform env = Linux"
    "ne_hostname_I env = t @ '' ''"
  shows "bootup_network env bind (c\<lparr>cn_ipv6 := False\<rparr>) = Inl AddressValueError"
  using assms by (simp add: bootup_network_def get_ip_def get_v4_def hostname_address_refused)

text \<open>A Linux host without IPv6 addresses does not reach the second way of finding one.\<close>

lemma v6_of_lines_none: "list_all (\<lambda>l. \<not> sublist ''inet6'' l \<or> sublist ''::1'' l) ls \<Longrightarrow> v6_of_lines ls = Inr []"
  by (induction ls) auto

lemma no_v6_address_fails:
  assumes "ne_platform env = Linux" "ne_ip_addr_show env = Inr out"
    "list_all (\<lambda>l. \<not> sublist ''inet6'' l \<or> sublist ''::1'' l) (split_on CHR 0x0A out)"
  shows "get_v6 env = Inl IndexError"
  using assms v6_of_lines_none[OF assms(3)] by (simp add: get_v6_def get_v6_from_shell_def)

text \<open>
  A port that is kept could be bound when it was checked, any other one is the port the system gave.
  When it gives none the start ends with \<open>IndexError\<close>, not with the \<open>RuntimeError\<close> the caller makes of
  an \<open>OSError\<close>.
\<close>

lemma valid_ports_checked:
  "valid_ports bind ports = Inr ps \<Longrightarrow> length ps = length ports \<and>
     (\<forall>i < length ports. (ps ! i = ports ! i \<and> (\<exists>a. bind (ports ! i) = Inr a)) \<or> (\<exists>a. bind 0 = Inr a \<and> ps ! i = snd a))"
proof (induction ports arbitrary: ps)
  case (Cons port ports)
  then obtain a p ps' where a: "is_port_empty bind port = Inr a"
      "(case a of Some _ \<Rightarrow> Inr port | None \<Rightarrow> get_free_port bind) = Inr p" "valid_ports bind ports = Inr ps'" "ps = p # ps'"
    by auto
  have "(p = port \<and> (\<exists>a. bind port = Inr a)) \<or> (\<exists>a. bind 0 = Inr a \<and> p = snd a)"
    using a(1,2) by (auto simp: is_port_empty_def get_free_port_def split: option.splits sum.splits if_splits)
  then show ?case using Cons.IH[OF a(3)] a(4) by (auto simp: less_Suc_eq_0_disj)
qed simp

lemma no_free_port:
  assumes "bind (cn_port_this c) = Inl e" "bind 0 = Inl e'" "is_OSError e" "is_OSError e'"
  shows "validate_ports bind c = Inl IndexError"
  using assms by (simp add: validate_ports_def is_port_empty_def get_free_port_def)

end
