(* ===== verification/Interfaces.thy ===== *)
theory Interfaces
  imports Start_Up Sockets
begin

text \<open>
  The listing of network interfaces: \<open>src/configurations/_interfaces_linux.py\<close>,
  \<open>_interfaces_windows.py\<close> and the cache in \<open>interfaces.py\<close>.

  The two libraries the code calls through \<open>ctypes\<close> are arguments: the list \<open>getifaddrs\<close> makes, and
  the answers of \<open>GetAdaptersAddresses\<close>. The C structures are records with the fields the code reads.
  \<open>inet_ntop\<close> for version 6 is an argument as well.
\<close>

section \<open>C structures\<close>

text \<open>
  A \<open>sockaddr\<close> with the tuple_names of the structure its family says it is: the address bytes as they are
  in memory, and for version 6 the scope. Other families are kept by their number.
\<close>

datatype c_sockaddr = Sockaddr_in "byte list" | Sockaddr_in6 "byte list" nat | Sockaddr_other nat

definition c_family :: "c_sockaddr \<Rightarrow> family option" where
  "c_family a = (case a of Sockaddr_in b \<Rightarrow> Some AF_INET | Sockaddr_in6 b s \<Rightarrow> Some AF_INET6 | Sockaddr_other n \<Rightarrow> None)"

record ifaddr =
  ifa_name :: "string option"
  ifa_flags :: "32 word"
  ifa_addr :: "c_sockaddr option"

definition IFF_LOOPBACK :: "32 word" where "IFF_LOOPBACK = 0x8"
definition IFF_RUNNING :: "32 word" where "IFF_RUNNING = 0x40"

text \<open>\<open>socket.inet_ntoa\<close> of the four bytes that \<open>struct.pack("I", ...)\<close> gives back.\<close>

definition inet_ntoa :: "byte list \<Rightarrow> string" where
  "inet_ntoa b = concat (map (\<lambda>x. str_of_nat (unat x) @ ''.'') (butlast b)) @ str_of_nat (unat (last b))"

section \<open>IPAddress\<close>

text \<open>
  The named tuple of \<open>src/avails/connect.py\<close>; calling it with keywords, as both listings do, is a
  \<open>TypeError\<close> for a keyword that is not one of its fields, whose names are \<open>tuple_names\<close>.
\<close>

record if_address =
  ia_ip :: string
  ia_scope :: int
  ia_if_name :: "string option"
  ia_friendly_name :: "string option"

definition IPAddress_fields :: "string list" where
  "IPAddress_fields = [''ip'', ''scoped_id'', ''if_name'', ''friendly_name'']"

definition IPAddress :: "string list \<Rightarrow> string \<Rightarrow> int \<Rightarrow> string option \<Rightarrow> string option \<Rightarrow> if_address res" where
  "IPAddress tuple_names ip scope_id if_name friendly_name =
     (if set tuple_names = {''ip'', ''scope_id'', ''if_name'', ''friendly_name''}
      then Inr \<lparr>ia_ip = ip, ia_scope = scope_id, ia_if_name = if_name, ia_friendly_name = friendly_name\<rparr>
      else Inl TypeError)"

section \<open>Linux\<close>

text \<open>The loop over the list of \<open>getifaddrs\<close>; \<open>None\<close> is the pointer that is null.\<close>

definition ifaddr_skipped :: "ifaddr \<Rightarrow> bool" where
  "ifaddr_skipped iface \<longleftrightarrow>
     (case ifa_addr iface of None \<Rightarrow> True | Some a \<Rightarrow>
       c_family a = None \<or> and (ifa_flags iface) IFF_LOOPBACK \<noteq> 0 \<or> and (ifa_flags iface) IFF_RUNNING = 0)"

definition linux_address ::
    "(byte list \<Rightarrow> string) \<Rightarrow> string list \<Rightarrow> family \<Rightarrow> ifaddr \<Rightarrow> (if_address option) res" where
  "linux_address inet_ntop6 tuple_names address_family iface =
     (if ifaddr_skipped iface then Inr None
      else case ifa_addr iface of
        Some (Sockaddr_in b) \<Rightarrow>
          if address_family = AF_INET
          then map_sum id Some (IPAddress tuple_names (inet_ntoa b) (- 1) (ifa_name iface) (ifa_name iface)) else Inr None
      | Some (Sockaddr_in6 b scope) \<Rightarrow>
          if address_family = AF_INET6
          then map_sum id Some (IPAddress tuple_names (inet_ntop6 b) (int scope) (ifa_name iface) (ifa_name iface)) else Inr None
      | _ \<Rightarrow> Inr None)"

fun linux_loop ::
    "(byte list \<Rightarrow> string) \<Rightarrow> string list \<Rightarrow> family \<Rightarrow> ifaddr list \<Rightarrow> if_address list res" where
  "linux_loop inet_ntop6 tuple_names fam [] = Inr []"
| "linux_loop inet_ntop6 tuple_names fam (p # ps) =
     res_bind (linux_address inet_ntop6 tuple_names fam p) (\<lambda>r.
       map_sum id (\<lambda>rs. case r of None \<Rightarrow> rs | Some a \<Rightarrow> a # rs) (linux_loop inet_ntop6 tuple_names fam ps))"

text \<open>\<open>Inl ()\<close> is a call of \<open>getifaddrs\<close> that fails.\<close>

definition linux_get_interfaces ::
    "(byte list \<Rightarrow> string) \<Rightarrow> string list \<Rightarrow> family \<Rightarrow> unit + ifaddr list \<Rightarrow> if_address list res" where
  "linux_get_interfaces inet_ntop6 tuple_names fam ifap =
     (case ifap of Inl _ \<Rightarrow> Inl OSError | Inr ps \<Rightarrow> linux_loop inet_ntop6 tuple_names fam ps)"

section \<open>Windows\<close>

definition LOOP_BACK_TYPE :: nat where "LOOP_BACK_TYPE = 24"
definition ERROR_SUCCESS :: nat where "ERROR_SUCCESS = 0"
definition ERROR_BUFFER_OVERFLOW :: nat where "ERROR_BUFFER_OVERFLOW = 111"

record adapter =
  ad_AdapterName :: "string option"
  ad_FriendlyName :: "string option"
  ad_unicast :: "c_sockaddr list"
  ad_IfType :: nat
  ad_OperStatus :: int

text \<open>
  \<open>get_adapters\<close>: the successive return values of the API, with the adapters it has written when it
  succeeds; \<open>None\<close> when the answers end before the loop does. A call that reports a buffer overflow is
  repeated.
\<close>

fun get_adapters :: "(nat \<times> adapter list) list \<Rightarrow> (adapter list res) option" where
  "get_adapters [] = None"
| "get_adapters ((ret_val, adapters) # answers) =
     (if ret_val = ERROR_SUCCESS then Some (Inr adapters)
      else if ret_val = ERROR_BUFFER_OVERFLOW then get_adapters answers
      else Some (Inl OSError))"

text \<open>The loop over the unicast addresses of an adapter: the last one of the family stays.\<close>

fun unicast_loop ::
    "(byte list \<Rightarrow> string) \<Rightarrow> family \<Rightarrow> c_sockaddr list \<Rightarrow> string \<times> int \<Rightarrow> string \<times> int" where
  "unicast_loop inet_ntop6 fam [] acc = acc"
| "unicast_loop inet_ntop6 fam (ua # uas) (ip, scope_id) =
     unicast_loop inet_ntop6 fam uas
       (case ua of
          Sockaddr_in b \<Rightarrow> if fam = AF_INET then (inet_ntoa b, scope_id) else (ip, scope_id)
        | Sockaddr_in6 b scope \<Rightarrow> if fam = AF_INET6 then (inet_ntop6 b, int scope) else (ip, scope_id)
        | Sockaddr_other n \<Rightarrow> (ip, scope_id))"

fun windows_loop :: "(byte list \<Rightarrow> string) \<Rightarrow> string list \<Rightarrow> family \<Rightarrow> adapter list \<Rightarrow> if_address list res" where
  "windows_loop inet_ntop6 tuple_names fam [] = Inr []"
| "windows_loop inet_ntop6 tuple_names fam (ad # ads) =
     (if ad_IfType ad = LOOP_BACK_TYPE \<or> ad_OperStatus ad \<noteq> 1 then windows_loop inet_ntop6 tuple_names fam ads
      else case unicast_loop inet_ntop6 fam (ad_unicast ad) ('''', - 1) of
        (ip, scope_id) \<Rightarrow>
          res_bind (IPAddress tuple_names ip scope_id (ad_AdapterName ad) (ad_FriendlyName ad)) (\<lambda>res.
            map_sum id ((#) res) (windows_loop inet_ntop6 tuple_names fam ads)))"

definition windows_get_interfaces ::
    "(byte list \<Rightarrow> string) \<Rightarrow> string list \<Rightarrow> family \<Rightarrow> (nat \<times> adapter list) list \<Rightarrow> (if_address list res) option" where
  "windows_get_interfaces inet_ntop6 tuple_names fam answers =
     map_option (\<lambda>r. res_bind r (windows_loop inet_ntop6 tuple_names fam)) (get_adapters answers)"

section \<open>The cache\<close>

text \<open>\<open>_if_info\<close> is the state; \<open>listing\<close> is what the platform's \<open>get_interfaces\<close> does.\<close>

definition reset_interfaces :: "if_address list res \<Rightarrow> if_address list option \<Rightarrow> unit res \<times> if_address list option" where
  "reset_interfaces listing info = (case listing of Inl e \<Rightarrow> (Inl e, info) | Inr is \<Rightarrow> (Inr (), Some is))"

definition get_ip_with_ifname :: "string option \<Rightarrow> if_address list option \<Rightarrow> if_address res" where
  "get_ip_with_ifname if_name info = (case info of
     None \<Rightarrow> Inl TypeError
   | Some is \<Rightarrow> (case List.find (\<lambda>a. ia_if_name a = if_name) is of None \<Rightarrow> Inl ValueError | Some a \<Rightarrow> Inr a))"

definition get_ip_with_ip :: "string \<Rightarrow> if_address list option \<Rightarrow> if_address res" where
  "get_ip_with_ip ip_addr info = (case info of
     None \<Rightarrow> Inl TypeError
   | Some is \<Rightarrow> (case List.find (\<lambda>a. ia_ip a = ip_addr) is of None \<Rightarrow> Inl ValueError | Some a \<Rightarrow> Inr a))"

definition get_interfaces :: "if_address list res \<Rightarrow> if_address list option \<Rightarrow> if_address list res \<times> if_address list option" where
  "get_interfaces listing info = (case info of
     Some is \<Rightarrow> (Inr is, info)
   | None \<Rightarrow> (case reset_interfaces listing info of
       (Inl e, info') \<Rightarrow> (Inl e, info')
     | (Inr _, info') \<Rightarrow> (Inr (the info'), info')))"

section \<open>Properties\<close>

text \<open>What a listing is for: the addresses of the family on running interfaces that are not the loopback.\<close>

definition wanted :: "family \<Rightarrow> ifaddr \<Rightarrow> bool" where
  "wanted fam p \<longleftrightarrow> \<not> ifaddr_skipped p \<and> (case ifa_addr p of None \<Rightarrow> False | Some a \<Rightarrow> c_family a = Some fam)"

definition shown :: "(byte list \<Rightarrow> string) \<Rightarrow> ifaddr \<Rightarrow> if_address" where
  "shown inet_ntop6 p = (case ifa_addr p of
     Some (Sockaddr_in6 b scope) \<Rightarrow> \<lparr>ia_ip = inet_ntop6 b, ia_scope = int scope, ia_if_name = ifa_name p, ia_friendly_name = ifa_name p\<rparr>
   | Some (Sockaddr_in b) \<Rightarrow> \<lparr>ia_ip = inet_ntoa b, ia_scope = - 1, ia_if_name = ifa_name p, ia_friendly_name = ifa_name p\<rparr>
   | _ \<Rightarrow> \<lparr>ia_ip = [], ia_scope = - 1, ia_if_name = None, ia_friendly_name = None\<rparr>)"

lemma IPAddress_misnamed: "IPAddress IPAddress_fields ip scope name friendly = Inl TypeError"
proof -
  have "''scope_id'' \<notin> set IPAddress_fields" by (simp add: IPAddress_fields_def)
  then show ?thesis by (auto simp: IPAddress_def)
qed

lemma linux_address_wanted:
  "linux_address inet_ntop6 names fam p =
     (if \<not> wanted fam p then Inr None
      else if set names = {''ip'', ''scope_id'', ''if_name'', ''friendly_name''} then Inr (Some (shown inet_ntop6 p))
      else Inl TypeError)"
  by (cases fam) (auto simp: linux_address_def wanted_def shown_def c_family_def ifaddr_skipped_def IPAddress_def
      split: option.split c_sockaddr.split)

lemma linux_loop_wanted:
  "linux_loop inet_ntop6 names fam ps =
     (if set names = {''ip'', ''scope_id'', ''if_name'', ''friendly_name''} \<or> filter (wanted fam) ps = []
      then Inr (map (shown inet_ntop6) (filter (wanted fam) ps)) else Inl TypeError)"
  by (induction ps) (simp_all add: linux_address_wanted)

text \<open>
  The listing of interfaces fails wherever there is something to list: both forms build an address
  with the keyword \<open>scope_id\<close>, but the field of the tuple is called \<open>scoped_id\<close>, so the first running
  interface with an address of the family raises \<open>TypeError\<close> and the cache stays empty, while a host
  without any gets the empty list. With the field named as it is used, the listing is exactly the
  addresses of the family on running interfaces other than the loopback, in the order of the system.
\<close>

theorem interfaces_listed:
  assumes "set names = {''ip'', ''scope_id'', ''if_name'', ''friendly_name''}"
  shows "linux_get_interfaces inet_ntop6 IPAddress_fields fam (Inr ps) =
      (if list_ex (wanted fam) ps then Inl TypeError else Inr []) \<and>
    linux_get_interfaces inet_ntop6 names fam (Inr ps) = Inr (map (shown inet_ntop6) (filter (wanted fam) ps)) \<and>
    (list_ex (wanted fam) ps \<longrightarrow> get_interfaces (linux_get_interfaces inet_ntop6 IPAddress_fields fam (Inr ps)) None = (Inl TypeError, None))"
proof -
  have "''scope_id'' \<notin> set IPAddress_fields" by (simp add: IPAddress_fields_def)
  then have "set IPAddress_fields \<noteq> {''ip'', ''scope_id'', ''if_name'', ''friendly_name''}" by auto
  moreover have "list_ex (wanted fam) ps \<longleftrightarrow> filter (wanted fam) ps \<noteq> []"
    by (auto simp: list_ex_iff filter_empty_conv)
  ultimately show ?thesis
    using assms by (simp add: linux_get_interfaces_def linux_loop_wanted get_interfaces_def reset_interfaces_def)
qed

theorem interfaces_listed_witness:
  "linux_get_interfaces (\<lambda>b. ''fe80::1'') IPAddress_fields AF_INET
     (Inr [\<lparr>ifa_name = Some ''eth0'', ifa_flags = 0x43, ifa_addr = Some (Sockaddr_in [10, 0, 0, 7])\<rparr>]) = Inl TypeError \<and>
   linux_get_interfaces (\<lambda>b. ''fe80::1'') IPAddress_fields AF_INET
     (Inr [\<lparr>ifa_name = Some ''lo'', ifa_flags = 0x49, ifa_addr = Some (Sockaddr_in [127, 0, 0, 1])\<rparr>]) = Inr []"
proof -
  have w: "list_ex (wanted AF_INET) [\<lparr>ifa_name = Some ''eth0'', ifa_flags = 0x43, ifa_addr = Some (Sockaddr_in [10, 0, 0, 7])\<rparr>]"
    "\<not> list_ex (wanted AF_INET) [\<lparr>ifa_name = Some ''lo'', ifa_flags = 0x49, ifa_addr = Some (Sockaddr_in [127, 0, 0, 1])\<rparr>]"
    by (simp_all add: wanted_def ifaddr_skipped_def c_family_def IFF_LOOPBACK_def IFF_RUNNING_def)
  have "set [''ip'', ''scope_id'', ''if_name'', ''friendly_name''] = {''ip'', ''scope_id'', ''if_name'', ''friendly_name''}" by simp
  from interfaces_listed[OF this, THEN conjunct1] w show ?thesis by simp
qed

lemma windows_loop_fails:
  "list_ex (\<lambda>ad. ad_IfType ad \<noteq> LOOP_BACK_TYPE \<and> ad_OperStatus ad = 1) ads \<Longrightarrow>
   windows_loop inet_ntop6 IPAddress_fields fam ads = Inl TypeError"
  by (induction ads) (auto simp: IPAddress_misnamed split: prod.split)

text \<open>The text of an address is read back as that address, so what is listed can be configured.\<close>

lemma length_str_of_nat: "n < 1000 \<Longrightarrow> length (str_of_nat n) \<le> 3"
  by (simp add: str_of_nat.simps[of n] str_of_nat.simps[of "n div 10"] str_of_nat.simps[of "n div 10 div 10"])

lemma digit_char_zero:
  assumes "d < 10"
  shows "digit_char d = CHR ''0'' \<longleftrightarrow> d = 0"
proof
  assume "digit_char d = CHR ''0''"
  then have "digit_val (digit_char d) = digit_val CHR ''0''" by simp
  then show "d = 0" using assms by (simp add: digit_val_def of_char_digit)
next
  have "digit_char 0 = CHR ''0''" by code_simp
  moreover assume "d = 0"
  ultimately show "digit_char d = CHR ''0''" by simp
qed

lemma str_of_nat_no_leading_zero: "10 \<le> n \<Longrightarrow> hd (str_of_nat n) \<noteq> CHR ''0''"
proof (induction n rule: str_of_nat.induct)
  case (1 n)
  have "str_of_nat n = str_of_nat (n div 10) @ [digit_char (n mod 10)]"
    using 1(2) by (simp add: str_of_nat.simps[of n])
  moreover have "hd (str_of_nat (n div 10)) \<noteq> CHR ''0''"
  proof (cases "n div 10 < 10")
    case True
    then show ?thesis using 1(2) by (simp add: str_of_nat.simps[of "n div 10"] digit_char_zero)
  next
    case False
    then show ?thesis using 1 by simp
  qed
  ultimately show ?case using str_of_nat_digits[of "n div 10"] by simp
qed

lemma octet_str_of_nat:
  assumes "n \<le> 255"
  shows "octet (str_of_nat n) = Inr n"
proof -
  have "\<not> (hd (str_of_nat n) = CHR ''0'' \<and> 1 < length (str_of_nat n))"
    using str_of_nat_no_leading_zero[of n] by (cases "n < 10") (auto simp: str_of_nat.simps[of n])
  then show ?thesis
    using assms length_str_of_nat[of n] by (auto simp: octet_def)
qed

lemma dot_not_digit: "CHR ''.'' \<notin> set (str_of_nat n)"
  using str_of_nat_digits[of n] by (auto simp: list_all_iff is_digit_def)

lemma inet_ntoa_roundtrip:
  "IPv4Address (inet_ntoa [a, b, c, d]) =
     Inr (IPv4 (256 * (256 * (256 * unat a + unat b) + unat c) + unat d))"
proof -
  have le: "unat (x :: byte) \<le> 255" for x using unsigned_less[of x, where 'a = nat] by simp
  have slash: "CHR ''/'' \<notin> set (inet_ntoa [a, b, c, d])"
    by (simp add: inet_ntoa_def str_of_nat_no_slash)
  have "split_on CHR ''.'' (inet_ntoa [a, b, c, d]) = map (\<lambda>x. str_of_nat (unat x)) [a, b, c, d]"
    by (simp add: inet_ntoa_def split_on_sep split_on_plain dot_not_digit)
  then show ?thesis using slash by (simp add: IPv4Address_def octet_str_of_nat le)
qed

lemma listing_kept: "get_interfaces listing (Some is) = (Inr is, Some is)"
  by (simp add: get_interfaces_def)

lemma named_interface_found:
  "get_ip_with_ifname n (Some is) = Inr a \<Longrightarrow> a \<in> set is \<and> ia_if_name a = n"
  by (auto simp: get_ip_with_ifname_def find_Some_iff split: option.splits)

end
