(* ===== verification/Dialogs.thy ===== *)
theory Dialogs
  imports Start_Up
begin

text \<open>
  The dialogs in which the user picks files and directories: \<open>src/avails/dialogs.py\<close>, and
  \<open>open_file_selector\<close> of \<open>src/managers/filemanager.py\<close>.

  The program that shows the dialog is run by \<open>subprocess\<close>: its return code and what it prints are
  arguments. \<open>zenity\<close> prints the selected names with the separator it is given between them and a
  newline at the end; there is no shell in between, so it gets the separator as it is in the code.
\<close>

section \<open>Strings\<close>

text \<open>\<open>s.strip()\<close>.\<close>

definition py_strip :: "string \<Rightarrow> string" where
  "py_strip s = rev (dropWhile blank (rev (dropWhile blank s)))"

text \<open>\<open>s.split(sep)\<close> for a separator of several characters.\<close>

function split_seq :: "string \<Rightarrow> string \<Rightarrow> string list" where
  "split_seq sep [] = [[]]"
| "split_seq sep (c # s) =
     (if sep \<noteq> [] \<and> take (length sep) (c # s) = sep then [] # split_seq sep (drop (length sep) (c # s))
      else case split_seq sep s of [] \<Rightarrow> [[c]] | p # ps \<Rightarrow> (c # p) # ps)"
  by pat_completeness auto
termination by (relation "measure (\<lambda>(sep, s). length s)") (auto simp: length_greater_0_conv)

text \<open>\<open>os.path.dirname\<close>: up to the last slash, without the slashes before it unless there is nothing else.\<close>

definition dirname :: "string \<Rightarrow> string" where
  "dirname p =
     (let head = rev (dropWhile (\<lambda>c. c \<noteq> CHR ''/'') (rev p))
      in if list_all (\<lambda>c. c = CHR ''/'') head then head else rev (dropWhile (\<lambda>c. c = CHR ''/'') (rev head)))"

section \<open>FileExplorerDialog\<close>

record ran =
  returncode :: int
  stdout :: string

text \<open>The separator argument of the command line, after \<open>--separator=\<close>.\<close>

definition zenity_separator :: string where
  "zenity_separator = [CHR 0x22, CHR 0x0A, CHR 0x22]"

definition zenity_files_command :: "string \<Rightarrow> string list" where
  "zenity_files_command recent_dir =
     [''zenity'', ''--file-selection'', ''--multiple'', ''--separator='' @ zenity_separator,
      ''--title='' @ [CHR 0x22] @ ''Select files'' @ [CHR 0x22], ''--filename='' @ recent_dir @ ''/'']"

definition zenity_dir_command :: "string \<Rightarrow> string list" where
  "zenity_dir_command recent_dir =
     [''zenity'', ''--file-selection'', ''--directory'',
      ''--title='' @ [CHR 0x22] @ ''Select directory'' @ [CHR 0x22], ''--filename='' @ recent_dir @ ''/'']"

definition selected :: "platform \<Rightarrow> ran \<Rightarrow> string list" where
  "selected pl result =
     (if returncode result \<noteq> 0 then []
      else if pl = Darwin then split_seq '', '' (py_strip (stdout result))
      else split_on (CHR 0x0A) (py_strip (stdout result)))"

definition open_file_dialog_window :: "platform \<Rightarrow> ran \<Rightarrow> string \<Rightarrow> string list \<times> string" where
  "open_file_dialog_window pl result recent_dir =
     (let files = selected pl result in (files, case files of [] \<Rightarrow> recent_dir | f # _ \<Rightarrow> dirname f))"

definition open_directory_dialog_window :: "platform \<Rightarrow> ran \<Rightarrow> string \<Rightarrow> string \<times> string" where
  "open_directory_dialog_window pl result recent_dir =
     (let directory = (if returncode result = 0 then py_strip (stdout result) else []);
          directory = (if pl = Windows then last (split_on (CHR 0x0A) (py_strip directory)) else directory)
      in (directory, if directory = [] then recent_dir else directory))"

section \<open>TkDialogs\<close>

definition tk_open_file_dialog_window :: "string list \<Rightarrow> string \<Rightarrow> string list \<times> string" where
  "tk_open_file_dialog_window files recent_dir = (files, case files of [] \<Rightarrow> recent_dir | f # _ \<Rightarrow> dirname f)"

definition tk_open_directory_dialog_window :: "string \<Rightarrow> string \<Rightarrow> string \<times> string" where
  "tk_open_directory_dialog_window directory recent_dir =
     (directory, if directory = [] then recent_dir else directory)"

text \<open>\<open>get_dialog_handler\<close>: the module sets \<open>tk\<close> to \<open>False\<close> after importing it.\<close>

datatype dialogs = TkDialogs | FileExplorerDialog

definition get_dialog_handler :: "bool \<Rightarrow> dialogs" where
  "get_dialog_handler tk = (if tk then TkDialogs else FileExplorerDialog)"

section \<open>\<open>open_file_selector\<close>\<close>

definition open_file_selector :: "platform \<Rightarrow> ran \<Rightarrow> string \<Rightarrow> string list \<times> string" where
  "open_file_selector pl result recent_dir =
     (case open_file_dialog_window pl result recent_dir of
        (files, recent) \<Rightarrow>
          (if list_ex (\<lambda>f. f \<noteq> []) files \<and> hd files = ''.'' then [] else files, recent))"

section \<open>Properties\<close>

text \<open>What \<open>zenity\<close> prints: the names with the separator between them, and a newline.\<close>

fun print_names :: "string \<Rightarrow> string list \<Rightarrow> string" where
  "print_names sep [] = []"
| "print_names sep [n] = n"
| "print_names sep (n # ns) = n @ sep @ print_names sep ns"

definition printed :: "string \<Rightarrow> string list \<Rightarrow> ran" where
  "printed sep names = \<lparr>returncode = 0, stdout = print_names sep names @ [CHR 0x0A]\<rparr>"

definition unpadded :: "string \<Rightarrow> bool" where
  "unpadded n \<longleftrightarrow> n \<noteq> [] \<and> \<not> blank (hd n) \<and> \<not> blank (last n) \<and> CHR 0x0A \<notin> set n"

text \<open>The names as they come out: a quotation mark at every end that touches the separator.\<close>

fun quoted :: "string \<Rightarrow> string list \<Rightarrow> string list" where
  "quoted pre [] = []"
| "quoted pre [n] = [pre @ n]"
| "quoted pre (n # ns) = (pre @ n @ [CHR 0x22]) # quoted [CHR 0x22] ns"

lemma py_strip_line:
  assumes "s \<noteq> []" "\<not> blank (hd s)" "\<not> blank (last s)"
  shows "py_strip (s @ [CHR 0x0A]) = s"
proof -
  have "dropWhile blank (s @ [CHR 0x0A]) = s @ [CHR 0x0A]"
    using assms(1,2) by (cases s) auto
  moreover have "blank (CHR 0x0A)" by (simp add: blank_def)
  moreover have "dropWhile blank (rev s) = rev s"
    using assms(1,3) by (cases s rule: rev_cases) auto
  ultimately show ?thesis by (simp add: py_strip_def)
qed

lemma print_names_ends:
  assumes "names \<noteq> []" "list_all unpadded names"
  shows "print_names sep names \<noteq> [] \<and> hd (print_names sep names) = hd (hd names) \<and>
    last (print_names sep names) = last (last names)"
  using assms by (induction sep names rule: print_names.induct) (auto simp: unpadded_def)

lemma printed_stripped:
  assumes "names \<noteq> []" "list_all unpadded names"
  shows "py_strip (stdout (printed sep names)) = print_names sep names"
proof -
  have "unpadded (hd names)" "unpadded (last names)"
    using assms by (auto simp: list_all_iff)
  then show ?thesis
    using print_names_ends[OF assms, of sep] by (simp add: printed_def unpadded_def py_strip_line)
qed

lemma split_quoted:
  "names \<noteq> [] \<Longrightarrow> list_all unpadded names \<Longrightarrow> CHR 0x0A \<notin> set pre \<Longrightarrow>
   split_on (CHR 0x0A) (pre @ print_names zenity_separator names) = quoted pre names"
proof (induction pre names rule: quoted.induct)
  case (2 pre n)
  then show ?case by (simp add: unpadded_def split_on_plain)
next
  case (3 pre n m ns)
  have "split_on (CHR 0x0A) ((pre @ n @ [CHR 0x22]) @ CHR 0x0A # [CHR 0x22] @ print_names zenity_separator (m # ns)) =
      (pre @ n @ [CHR 0x22]) # quoted [CHR 0x22] (m # ns)"
    using 3 by (subst split_on_sep) (simp_all add: unpadded_def)
  then show ?case by (simp add: zenity_separator_def)
qed simp

lemma split_lines:
  "names \<noteq> [] \<Longrightarrow> list_all unpadded names \<Longrightarrow> split_on (CHR 0x0A) (print_names [CHR 0x0A] names) = names"
  by (induction "[CHR 0x0A]" names rule: print_names.induct) (auto simp: unpadded_def split_on_plain split_on_sep)

lemma quoted_differs: "1 < length names \<Longrightarrow> quoted [] names \<noteq> names"
  by (cases names rule: remdups_adj.cases) auto



text \<open>
  Cancelling the dialog on Windows, where the script ends normally and prints nothing, selects one file
  with an empty name.
\<close>

lemma cancelled_selects_nothing:
  "returncode r \<noteq> 0 \<Longrightarrow> open_file_selector pl r recent = ([], recent)"
  "open_file_selector Windows \<lparr>returncode = 0, stdout = []\<rparr> recent = ([[]], [])"
  by (simp_all add: open_file_selector_def open_file_dialog_window_def selected_def py_strip_def dirname_def)

lemma explorer_always: "get_dialog_handler False = FileExplorerDialog"
  by (simp add: get_dialog_handler_def)

end
