(* ===== verification/Connect_Server.thy ===== *)
theory Connect_Server
  imports Remote_Peer Useables
begin

text \<open>
  Joining the network through a server: \<open>src/core/connectserver.py\<close>. No module imports it; the program
  finds its first peers by discovery.

  A connection is the outcome of connecting: the stream of what the other end sends, or the exception.
\<close>

section \<open>The list of users\<close>

definition SERVER_OK :: bytes where "SERVER_OK = map of_char ''connect accepted''"
definition REDIRECT :: bytes where "REDIRECT = map of_char ''redirect        ''"
definition REQ_FOR_LIST :: bytes where "REQ_FOR_LIST = map of_char ''list of users  ''"

text \<open>
  \<open>get_initial_list\<close>: a peer is loaded and then awaited; awaiting an object that is no awaitable is a
  \<open>TypeError\<close>. \<open>awaitable\<close> says whether \<open>load_from\<close> gives one; it is a plain class method.
\<close>

fun get_initial_list ::
    "bool \<Rightarrow> (bytes \<Rightarrow> remote_peer res) \<Rightarrow> nat \<Rightarrow> remote_peer list \<Rightarrow> stream \<Rightarrow> remote_peer list res \<times> stream" where
  "get_initial_list awaitable load_from 0 ping_queue s = (Inr ping_queue, s)"
| "get_initial_list awaitable load_from (Suc n) ping_queue s =
     (case Wire_receive_async True s of
        (Inl e, s') \<Rightarrow> (Inl e, s')
      | (Inr raw_data, s') \<Rightarrow>
          (case load_from raw_data of
             Inl e \<Rightarrow> (Inl e, s')
           | Inr p \<Rightarrow> if awaitable then get_initial_list awaitable load_from n (ping_queue @ [p]) s' else (Inl TypeError, s')))"

definition get_list_from ::
    "bool \<Rightarrow> (bytes \<Rightarrow> remote_peer res) \<Rightarrow> stream \<Rightarrow> remote_peer list res \<times> stream" where
  "get_list_from awaitable load_from s =
     (case arecv 8 s of
        (Inl e, s') \<Rightarrow> (Inl e, s')
      | (Inr raw_length, s') \<Rightarrow>
          (case unpack_Q raw_length of
             Inl e \<Rightarrow> (Inl e, s')
           | Inr len \<Rightarrow> get_initial_list awaitable load_from len [] s'))"

text \<open>
  \<open>list_from_forward_control\<close> and \<open>list_error_handler\<close>, which asks the first known peer:
  \<open>StopIteration\<close> that leaves a coroutine becomes \<open>RuntimeError\<close>.
\<close>

definition list_from_forward_control ::
    "bool \<Rightarrow> (bytes \<Rightarrow> remote_peer res) \<Rightarrow> (remote_peer \<Rightarrow> stream res) \<Rightarrow> remote_peer \<Rightarrow> remote_peer list res" where
  "list_from_forward_control awaitable load_from dial list_owner =
     res_bind (dial list_owner) (\<lambda>conn.
     res_bind (Wire_send_async REQ_FOR_LIST) (\<lambda>_. fst (get_list_from awaitable load_from conn)))"

definition list_error_handler ::
    "bool \<Rightarrow> (bytes \<Rightarrow> remote_peer res) \<Rightarrow> (remote_peer \<Rightarrow> stream res) \<Rightarrow> remote_peer list \<Rightarrow> remote_peer list res" where
  "list_error_handler awaitable load_from dial known_peers = (case known_peers of
     [] \<Rightarrow> Inl RuntimeError
   | req_peer # _ \<Rightarrow> list_from_forward_control awaitable load_from dial req_peer)"

section \<open>The connection to the server\<close>

text \<open>
  The retry loop of \<open>setup_server_connection\<close>: one round for each timeout; only a \<open>TimeoutError\<close> is
  retried, \<open>KeyboardInterrupt\<close> gives up, every other exception leaves. The result comes with the sum
  of the pauses, for which the loop sleeps with \<open>time.sleep\<close>, blocking the event loop.
\<close>

fun server_loop :: "(nat \<Rightarrow> stream res) \<Rightarrow> nat \<Rightarrow> rat list \<Rightarrow> rat \<Rightarrow> stream option res \<times> rat" where
  "server_loop dial i [] slept = (Inr None, slept)"
| "server_loop dial i (t # ts) slept = (case dial i of
     Inr conn \<Rightarrow> (Inr (Some conn), slept)
   | Inl e \<Rightarrow>
       if e = TimeoutError then server_loop dial (Suc i) ts (slept + t)
       else if e = KeyboardInterrupt then (Inr None, slept) else (Inl e, slept))"

text \<open>\<open>sent\<close> is the outcome of sending this peer's own object on the new connection.\<close>

definition setup_server_connection :: "(nat \<Rightarrow> stream res) \<Rightarrow> unit res \<Rightarrow> stream option res" where
  "setup_server_connection dial sent =
     res_bind (fst (server_loop dial 0 (timeouts_for (1 / 10) 2 5 (nat MAX_RETIRES)) 0)) (\<lambda>conn. case conn of
       None \<Rightarrow> Inr None
     | Some s \<Rightarrow> (case sent of Inr _ \<Rightarrow> Inr (Some s) | Inl e \<Rightarrow> if is_OSError e then Inr None else Inl e))"

text \<open>
  \<open>initiate_connection\<close>: the outer option is the returned \<open>True\<close>/\<open>False\<close> or \<open>None\<close>; the peers received
  come with it.
\<close>

definition initiate_connection ::
    "bool \<Rightarrow> (bytes \<Rightarrow> remote_peer res) \<Rightarrow> (nat \<Rightarrow> stream res) \<Rightarrow> (remote_peer \<Rightarrow> stream res) \<Rightarrow> unit res \<Rightarrow>
     (bool option \<times> remote_peer list) res" where
  "initiate_connection awaitable load_from dial dial_peer sent =
     res_bind (setup_server_connection dial sent) (\<lambda>conn. case conn of
       None \<Rightarrow> Inr (Some False, [])
     | Some s \<Rightarrow>
         (case Wire_receive_async True s of
            (Inl e, s') \<Rightarrow> Inl e
          | (Inr answer, s') \<Rightarrow>
              if answer = SERVER_OK then map_sum id (\<lambda>ps. (Some True, ps)) (fst (get_list_from awaitable load_from s'))
              else if answer = REDIRECT then
                (case Wire_receive_async True s' of
                   (Inl e, s2) \<Rightarrow> Inl e
                 | (Inr raw_data, s2) \<Rightarrow>
                     res_bind (load_from raw_data) (\<lambda>owner.
                       map_sum id (\<lambda>ps. (Some True, ps)) (list_from_forward_control awaitable load_from dial_peer owner)))
              else Inr (None, [])))"

text \<open>\<open>send_quit_status_to_server\<close>: this peer is marked offline whether or not the server hears of it.\<close>

definition send_quit_status_to_server :: "unit res \<Rightarrow> unit res \<Rightarrow> remote_peer \<Rightarrow> bool \<times> remote_peer" where
  "send_quit_status_to_server dialled sent this_peer =
     (case res_bind dialled (\<lambda>_. sent) of Inr _ \<Rightarrow> True | Inl e \<Rightarrow> False, this_peer\<lparr>rp_status := PInt 0\<rparr>)"

section \<open>Properties\<close>

lemma initial_list_empty:
  "fst (get_initial_list False load_from n ps s) = Inr qs \<Longrightarrow> n = 0 \<and> qs = ps"
  by (cases n) (auto split: prod.splits sum.splits)

lemma list_from_empty: "fst (get_list_from False load_from s) = Inr ps \<Longrightarrow> ps = []"
  by (auto simp: get_list_from_def split: prod.splits sum.splits dest: initial_list_empty)

lemma forward_empty:
  "list_from_forward_control False load_from dial owner = Inr ps \<Longrightarrow> ps = []"
  by (auto simp: list_from_forward_control_def dest: list_from_empty)

text \<open>
  No peer is ever learnt from a server: each user of its list is awaited as if loading were a
  coroutine, which is a \<open>TypeError\<close>, so joining succeeds only with an empty list, whatever the
  server or the peer it redirects to sends. And the server is tried again only after timeouts: a refused
  connection, or any other error than a timeout, ends the attempt at once.
\<close>

theorem server_list_never_loaded:
  "initiate_connection False load_from dial dial_peer sent = Inr (r, ps) \<Longrightarrow> ps = []"
proof -
  assume run: "initiate_connection False load_from dial dial_peer sent = Inr (r, ps)"
  then obtain conn where conn: "setup_server_connection dial sent = Inr conn"
    by (auto simp: initiate_connection_def)
  show "ps = []"
  proof (cases conn)
    case None
    then show ?thesis using run conn by (simp add: initiate_connection_def)
  next
    case (Some s)
    obtain answer s' where a: "Wire_receive_async True s = (Inr answer, s')"
      using run conn Some by (cases "Wire_receive_async True s"; cases "fst (Wire_receive_async True s)")
        (auto simp: initiate_connection_def)
    show ?thesis
      using run conn Some a
      by (cases "Wire_receive_async True s'"; cases "fst (Wire_receive_async True s')")
        (auto simp: initiate_connection_def split: if_splits dest: list_from_empty forward_empty)
  qed
qed

theorem server_refusal_not_retried:
  assumes "dial 0 = Inl e" "e \<noteq> TimeoutError" "e \<noteq> KeyboardInterrupt"
  shows "initiate_connection aw load_from dial dial_peer sent = Inl e"
proof -
  have "timeouts_for (1 / 10) 2 5 (nat MAX_RETIRES) = 1 / 10 # timeouts_for (1 / 5) 2 5 6"
    by (simp add: MAX_RETIRES_def numeral_nat(3)[symmetric] del: nat_numeral) (simp add: eval_nat_numeral)
  then show ?thesis using assms
    by (simp add: initiate_connection_def setup_server_connection_def del: nat_numeral)
qed

text \<open>Were loading awaitable, every user the server announces would arrive, in order.\<close>

lemma unsplit_pending: "unsplit (s\<lparr>pending := x\<rparr>) \<longleftrightarrow> unsplit s"
  by (simp add: unsplit_def)

lemma initial_list_complete:
  assumes "unsplit s" "pending s = concat (map frame raws) @ rest" "list_all (\<lambda>b. frameable b \<and> load_from b = Inr (f b)) raws"
  shows "get_initial_list True load_from (length raws) ps s = (Inr (ps @ map f raws), s\<lparr>pending := rest\<rparr>)"
  using assms
proof (induction raws arbitrary: ps s)
  case (Cons b raws)
  let ?more = "concat (map frame raws) @ rest"
  have "arecv 4 s = (Inr (be_encode 4 (length b)), s\<lparr>pending := b @ ?more\<rparr>)"
    using Cons.prems by (simp del: drop_append take_append)
  then have "Wire_receive_async True s = (Inr b, s\<lparr>pending := ?more\<rparr>)"
    using Cons.prems by (simp add: Wire_receive_async_def unsplit_pending)
  moreover have "unsplit (s\<lparr>pending := ?more\<rparr>)" using Cons.prems(1) by (simp add: unsplit_def)
  ultimately show ?case using Cons.IH[of "s\<lparr>pending := ?more\<rparr>" "ps @ [f b]"] Cons.prems by simp
qed simp

end
