(* ===== verification/Process_Manager.thy ===== *)
theory Process_Manager
  imports Call_Context Remote_Peer
begin

text \<open>
  Handing tasks to threads and to worker processes: \<open>src/managers/processmanager.py\<close> and the task
  handles of \<open>src/core/handles.py\<close>. The module says that it is no longer in use.

  What \<open>multiprocessing\<close> does is modelled as it is documented: queues are first in, first out,
  \<open>Queue.get\<close> and \<open>Event.wait\<close> block, a manager has an attribute for each class registered with it.
  \<open>registered\<close> is the list of the classes registered with \<open>ProcessManager\<close>; only \<open>register_classes\<close>
  registers any, and nothing calls it, so as the program stands the list is empty.
\<close>

section \<open>Task handles\<close>

definition FILE :: string where "FILE = ''FileTaskHandle''"
definition DIRECTORY :: string where "DIRECTORY = ''DirectoryTaskHandle''"

record task_handle = th_handle_id :: pyval

text \<open>\<open>start\<close> of a handle returns \<open>NotImplemented\<close>; \<open>Result v\<close> is any other result.\<close>

datatype task_result = NotImplemented | Result pyval

definition TaskHandle_start :: "task_handle \<Rightarrow> task_result" where
  "TaskHandle_start h = NotImplemented"

definition TaskHandle_call :: "task_handle \<Rightarrow> task_result" where
  "TaskHandle_call h = TaskHandle_start h"

definition set_ident :: "pyval \<Rightarrow> task_handle \<Rightarrow> task_handle" where
  "set_ident v h = h\<lparr>th_handle_id := v\<rparr>"

text \<open>
  \<open>handle_classes[code](handle_id, *args, **kwargs)\<close>. \<open>FileTaskHandle\<close> inherits the constructor of
  \<open>TaskHandle\<close>, which takes nothing but the id (\<open>TaskHandle\<close> is not an \<open>ABC\<close>, so its abstract methods
  do not prevent the construction); \<open>DirectoryTaskHandle\<close> is wrapped in \<open>NotInUse\<close>.
\<close>

definition make_handle :: "string \<Rightarrow> pyval \<Rightarrow> pyval list \<Rightarrow> (string \<times> pyval) list \<Rightarrow> task_handle res" where
  "make_handle code handle_id args kwargs =
     (if code = FILE then (if args = [] \<and> kwargs = [] then Inr \<lparr>th_handle_id = handle_id\<rparr> else Inl TypeError)
      else if code = DIRECTORY then NotInUse_call (handle_id, args, kwargs)
      else Inl KeyError)"

record handle_repr =
  hr_handle_code :: string
  hr_args :: "pyval list"
  hr_kwargs :: "(string \<times> pyval) list"

definition register_classes :: "string list \<Rightarrow> string list" where
  "register_classes registered = registered @ [FILE, DIRECTORY]"

text \<open>
  What a worker makes of a task: the proxy's id, or the exception; \<open>pid\<close> is the worker's id, \<open>n\<close> what
  its \<open>id_factory\<close> yields.
\<close>

definition worker_handle :: "string list \<Rightarrow> nat \<Rightarrow> nat \<Rightarrow> handle_repr \<Rightarrow> pyval res" where
  "worker_handle registered pid n task =
     (if hr_handle_code task \<notin> set registered then Inl AttributeError
      else map_sum id th_handle_id (make_handle (hr_handle_code task)
        (PStr (str_of_nat pid @ ''/'' @ str_of_nat n)) (hr_args task) (hr_kwargs task)))"

section \<open>ProcessStore and \<open>submit\<close>\<close>

datatype stored_handle = OwnHandle task_handle | ProxyHandle pyval nat

text \<open>
  \<open>ps_running\<close> are the handles whose call the thread pool has not finished, \<open>ps_processes\<close> the loads
  of the worker processes by id, \<open>ps_futures\<close> the number of futures made for proxies.
\<close>

record process_store =
  ps_main_thread_load :: int
  ps_handles :: "(pyval, stored_handle) pydict"
  ps_next_id :: nat
  ps_running :: "pyval list"
  ps_processes :: "(nat, nat) pydict"
  ps_task_queue :: "handle_repr list"
  ps_futures :: nat

definition ProcessStore :: process_store where
  "ProcessStore = \<lparr>ps_main_thread_load = 0, ps_handles = [], ps_next_id = 0, ps_running = [], ps_processes = [],
     ps_task_queue = [], ps_futures = 0\<rparr>"

definition STORE_MAX_LOAD :: int where "STORE_MAX_LOAD = 3"

definition increment_load :: "process_store \<Rightarrow> process_store" where
  "increment_load p = p\<lparr>ps_main_thread_load := ps_main_thread_load p + 1\<rparr>"

definition decrement_load :: "process_store \<Rightarrow> process_store" where
  "decrement_load p = p\<lparr>ps_main_thread_load := ps_main_thread_load p - 1\<rparr>"

definition add_handle :: "pyval \<Rightarrow> stored_handle \<Rightarrow> process_store \<Rightarrow> process_store" where
  "add_handle handle_id h p = p\<lparr>ps_handles := dset handle_id h (ps_handles p)\<rparr>"

definition get_handle :: "pyval \<Rightarrow> process_store \<Rightarrow> stored_handle option" where
  "get_handle handle_id p = dget (ps_handles p) handle_id"

definition start_process :: "nat \<Rightarrow> process_store \<Rightarrow> process_store" where
  "start_process new_pid p = p\<lparr>ps_processes := dset new_pid 0 (ps_processes p)\<rparr>"

definition check_process :: "nat \<Rightarrow> process_store \<Rightarrow> process_store" where
  "check_process new_pid p =
     (if list_ex (\<lambda>(_, ld). int ld < STORE_MAX_LOAD) (ps_processes p) then p else start_process new_pid p)"

text \<open>
  \<open>submit\<close>, with the id of the process it may start and the worker that takes a queued task: its id and
  its counter. A call that waits for ever for the proxy of a task \<open>Hangs\<close>: it runs in the event loop's
  thread, which then does nothing else.
\<close>

datatype outcome = Returned pyval | Raised py_exn | Hangs

definition submit_task ::
    "string list \<Rightarrow> nat \<Rightarrow> nat \<times> nat \<Rightarrow> string \<Rightarrow> pyval list \<Rightarrow> (string \<times> pyval) list \<Rightarrow>
     process_store \<Rightarrow> outcome \<times> process_store" where
  "submit_task registered new_pid taker code args kwargs p =
     (if ps_main_thread_load p < STORE_MAX_LOAD then
        (let p1 = increment_load p in
         if code \<noteq> FILE \<and> code \<noteq> DIRECTORY then (Raised KeyError, p1)
         else
           (let handle_id = PInt (int (ps_next_id p1)); p2 = p1\<lparr>ps_next_id := Suc (ps_next_id p1)\<rparr>
            in case make_handle code handle_id args kwargs of
                 Inl e \<Rightarrow> (Raised e, p2)
               | Inr h \<Rightarrow>
                   (Returned handle_id,
                    (add_handle handle_id (OwnHandle (set_ident handle_id h)) p2)\<lparr>ps_running := ps_running p2 @ [handle_id]\<rparr>)))
      else
        (let p1 = check_process new_pid p; task = \<lparr>hr_handle_code = code, hr_args = args, hr_kwargs = kwargs\<rparr>
         in case worker_handle registered (fst taker) (snd taker) task of
              Inl e \<Rightarrow> (Hangs, p1\<lparr>ps_task_queue := ps_task_queue p1 @ [task]\<rparr>)
            | Inr ident \<Rightarrow>
                (Returned ident, (add_handle ident (ProxyHandle ident (ps_futures p1)) p1)\<lparr>ps_futures := Suc (ps_futures p1),
                   ps_processes := dset (fst taker) (Suc (case dget (ps_processes p1) (fst taker) of None \<Rightarrow> 0 | Some l \<Rightarrow> l))
                     (ps_processes p1)\<rparr>)))"

text \<open>The thread pool finishes a handle: the future's callback.\<close>

definition pool_done :: "pyval \<Rightarrow> process_store \<Rightarrow> process_store" where
  "pool_done h p = decrement_load (p\<lparr>ps_running := remove1 h (ps_running p)\<rparr>)"

section \<open>The result watcher\<close>

text \<open>
  \<open>result_watcher\<close> over what comes on the result queue (\<open>None\<close> ends it): a pair of a handle's id and
  its result completes the handle's future. It is a daemon thread, so an exception ends it without
  anybody noticing. The futures that are done are those in \<open>futs\<close>.
\<close>

datatype watcher = Watching | Stopped | Died py_exn

definition unpack_pair :: "task_result \<Rightarrow> (pyval \<times> pyval) res" where
  "unpack_pair r = (case r of
     NotImplemented \<Rightarrow> Inl TypeError
   | Result v \<Rightarrow> (case py_iter v of None \<Rightarrow> Inl TypeError | Some [a, b] \<Rightarrow> Inr (a, b) | Some _ \<Rightarrow> Inl ValueError))"

definition watch_result ::
    "(pyval, stored_handle) pydict \<Rightarrow> task_result \<Rightarrow> (nat, pyval) pydict \<Rightarrow> (nat, pyval) pydict res" where
  "watch_result handle_references r futs =
     res_bind (unpack_pair r) (\<lambda>(handle_identifier, value).
       case dget handle_references handle_identifier of
         None \<Rightarrow> Inl (case handle_identifier of PList xs \<Rightarrow> TypeError | PDict d \<Rightarrow> TypeError | _ \<Rightarrow> KeyError)
       | Some (OwnHandle h) \<Rightarrow> Inl TypeError
       | Some (ProxyHandle i f) \<Rightarrow> if dmem f futs then Inl InvalidStateError else Inr (dset f value futs))"

fun result_watcher ::
    "(pyval, stored_handle) pydict \<Rightarrow> task_result option list \<Rightarrow> (nat, pyval) pydict \<Rightarrow> watcher \<times> (nat, pyval) pydict" where
  "result_watcher hs [] futs = (Watching, futs)"
| "result_watcher hs (None # q) futs = (Stopped, futs)"
| "result_watcher hs (Some r # q) futs =
     (case watch_result hs r futs of Inl e \<Rightarrow> (Died e, futs) | Inr futs' \<Rightarrow> result_watcher hs q futs')"

section \<open>A worker process\<close>

datatype phase = Checking | Waiting | Taking | Finished | Failed py_exn

definition WORKER_MAX_LOAD :: int where "WORKER_MAX_LOAD = 5"

text \<open>
  \<open>pc_running\<close> are the handles whose future is pending, \<open>pc_results\<close> and \<open>pc_proxies\<close> what it has put on
  the two queues. The event \<open>task_wait_check\<close> is set only together with its clearing, so it is no
  state: setting it releases the thread that waits.
\<close>

record process_control =
  pc_ident :: nat
  pc_load :: int
  pc_next_id :: nat
  pc_proceed :: bool
  pc_phase :: phase
  pc_running :: "pyval list"
  pc_results :: "task_result list"
  pc_proxies :: "pyval list"

definition ProcessControl :: "nat \<Rightarrow> process_control" where
  "ProcessControl ident = \<lparr>pc_ident = ident, pc_load = 0, pc_next_id = 0, pc_proceed = True, pc_phase = Checking,
     pc_running = [], pc_results = [], pc_proxies = []\<rparr>"

text \<open>\<open>run\<close> in two steps: \<open>__load_check\<close>, and what follows the arrival of a task.\<close>

definition load_check :: "process_control \<Rightarrow> process_control" where
  "load_check c = c\<lparr>pc_phase := (if WORKER_MAX_LOAD \<le> pc_load c then Waiting else Taking)\<rparr>"

definition take_task :: "string list \<Rightarrow> handle_repr option \<Rightarrow> process_control \<Rightarrow> process_control" where
  "take_task registered detail c = (case detail of
     None \<Rightarrow> c\<lparr>pc_phase := Finished\<rparr>
   | Some task \<Rightarrow>
       (case worker_handle registered (pc_ident c) (pc_next_id c) task of
          Inl e \<Rightarrow> c\<lparr>pc_phase := Failed e\<rparr>
        | Inr ident \<Rightarrow> c\<lparr>pc_next_id := Suc (pc_next_id c), pc_load := pc_load c + 1, pc_proxies := pc_proxies c @ [ident],
            pc_running := pc_running c @ [ident], pc_phase := (if pc_proceed c then Checking else Finished)\<rparr>))"

definition may_be_trigger_task_receiver :: "process_control \<Rightarrow> process_control" where
  "may_be_trigger_task_receiver c =
     (if WORKER_MAX_LOAD \<le> pc_load c \<and> pc_phase c = Waiting then c\<lparr>pc_phase := Taking\<rparr> else c)"

text \<open>\<open>submit_result\<close>, the callback of a future: the result alone is put on the queue, without the id.\<close>

definition submit_result :: "pyval \<Rightarrow> task_result \<Rightarrow> process_control \<Rightarrow> process_control" where
  "submit_result ident r c =
     may_be_trigger_task_receiver (c\<lparr>pc_running := remove1 ident (pc_running c), pc_results := pc_results c @ [r],
       pc_load := pc_load c - 1\<rparr>)"

definition control_stop :: "process_control \<Rightarrow> process_control" where
  "control_stop c = c\<lparr>pc_proceed := False\<rparr>"

text \<open>The worker's thread, its thread pool and the two queues in any order.\<close>

datatype worker_event = LoadCheck | Task "handle_repr option" | TaskEnds pyval task_result | Stop

fun worker_enabled :: "worker_event \<Rightarrow> process_control \<Rightarrow> bool" where
  "worker_enabled LoadCheck c \<longleftrightarrow> pc_phase c = Checking"
| "worker_enabled (Task d) c \<longleftrightarrow> pc_phase c = Taking"
| "worker_enabled (TaskEnds h r) c \<longleftrightarrow> h \<in> set (pc_running c)"
| "worker_enabled Stop c \<longleftrightarrow> True"

fun worker_exec :: "string list \<Rightarrow> worker_event \<Rightarrow> process_control \<Rightarrow> process_control" where
  "worker_exec registered LoadCheck c = load_check c"
| "worker_exec registered (Task d) c = take_task registered d c"
| "worker_exec registered (TaskEnds h r) c = submit_result h r c"
| "worker_exec registered Stop c = control_stop c"

inductive worker_step :: "string list \<Rightarrow> process_control \<Rightarrow> process_control \<Rightarrow> bool" for registered where
  worker_event: "worker_enabled ev c \<Longrightarrow> worker_step registered c (worker_exec registered ev c)"

inductive_cases worker_stepE: "worker_step registered c c'"

definition worker_inv :: "process_control \<Rightarrow> bool" where
  "worker_inv c \<longleftrightarrow> pc_load c = int (length (pc_running c)) \<and> pc_load c \<le> WORKER_MAX_LOAD \<and>
     (pc_phase c = Taking \<longrightarrow> pc_load c < WORKER_MAX_LOAD)"

section \<open>Properties\<close>

lemma worker_exec_inv:
  assumes "worker_inv c" "worker_enabled ev c"
  shows "worker_inv (worker_exec registered ev c)"
proof (cases ev)
  case (Task d)
  then show ?thesis
    using assms by (auto simp: worker_inv_def take_task_def split: option.split sum.split)
next
  case (TaskEnds h r)
  then obtain n where "length (pc_running c) = Suc n"
    using assms(2) by (cases "pc_running c") auto
  then show ?thesis
    using TaskEnds assms by (auto simp: worker_inv_def submit_result_def may_be_trigger_task_receiver_def length_remove1)
qed (use assms in \<open>auto simp: worker_inv_def load_check_def control_stop_def\<close>)

interpretation worker: inv_system "\<lambda>c. c = ProcessControl ident" "worker_step registered" worker_inv
  for ident registered
proof unfold_locales
  show "c = ProcessControl ident \<Longrightarrow> worker_inv c" for c
    by (simp add: worker_inv_def ProcessControl_def WORKER_MAX_LOAD_def)
  show "worker_inv c \<Longrightarrow> worker_step registered c c' \<Longrightarrow> worker_inv c'" for c c'
    by (auto elim!: worker_stepE intro: worker_exec_inv)
qed

lemma waiting_step:
  assumes "worker_inv c" "pc_phase c = Waiting" "worker_step registered c c'"
  shows "pc_phase c' = Waiting \<and> pc_next_id c' = pc_next_id c"
  using assms(3)
proof cases
  case (worker_event ev)
  have "\<not> WORKER_MAX_LOAD \<le> pc_load c - 1" using assms(1) by (simp add: worker_inv_def)
  then show ?thesis
    using worker_event assms(2) by (cases ev) (simp_all add: submit_result_def may_be_trigger_task_receiver_def control_stop_def)
qed

text \<open>
  A worker counts its running tasks correctly and never runs more than its maximum. But once it
  waits at full load it takes no task ever again, although all its tasks may end: the callback that
  should wake it tests whether the load is still at the maximum, after having lowered it.
\<close>

theorem worker_never_woken:
  assumes "reachable (\<lambda>c. c = ProcessControl ident) (worker_step registered) c" "(worker_step registered)\<^sup>*\<^sup>* c c'"
  shows "pc_load c' = int (length (pc_running c')) \<and> pc_load c' \<le> WORKER_MAX_LOAD \<and>
    (pc_phase c = Waiting \<longrightarrow> pc_phase c' = Waiting \<and> pc_next_id c' = pc_next_id c)"
proof -
  have inv: "worker_inv c" by (rule worker.reachable_inv[OF assms(1)])
  have "pc_phase c' = Waiting \<and> pc_next_id c' = pc_next_id c" if "pc_phase c = Waiting"
    using assms(2)
  proof (induction rule: rtranclp_induct)
    case (step d d')
    then show ?case using waiting_step[OF worker.steps_inv[OF step.hyps(1) inv]] by simp
  qed (simp add: that)
  with worker.steps_inv[OF assms(2) inv] show ?thesis by (simp add: worker_inv_def)
qed

text \<open>Five file tasks for a worker that knows the class, one of which ends again.\<close>

definition busy_worker :: process_control where
  "busy_worker = fold (worker_exec [FILE])
     (concat (replicate 5 [LoadCheck, Task (Some \<lparr>hr_handle_code = FILE, hr_args = [], hr_kwargs = []\<rparr>)]) @ [LoadCheck])
     (ProcessControl 7)"

lemma worker_step_iff: "worker_enabled ev c \<Longrightarrow> worker_exec reg ev c = c' \<Longrightarrow> worker_step reg c c'"
  using worker_event by blast

fun all_enabled :: "string list \<Rightarrow> worker_event list \<Rightarrow> process_control \<Rightarrow> bool" where
  "all_enabled reg [] c \<longleftrightarrow> True"
| "all_enabled reg (ev # evs) c \<longleftrightarrow> worker_enabled ev c \<and> all_enabled reg evs (worker_exec reg ev c)"

lemma reachable_fold:
  assumes "reachable init (worker_step reg) c" "all_enabled reg evs c"
  shows "reachable init (worker_step reg) (fold (worker_exec reg) evs c)"
  using assms by (induction evs arbitrary: c) (auto intro: reach_step worker_event)

theorem worker_never_woken_witness:
  "pc_phase (worker_exec [FILE] (TaskEnds (PStr ''7/0'') NotImplemented) busy_worker) = Waiting"
proof -
  let ?evs = "concat (replicate 5 [LoadCheck, Task (Some \<lparr>hr_handle_code = FILE, hr_args = [], hr_kwargs = []\<rparr>)]) @ [LoadCheck]"
  have run: "all_enabled [FILE] ?evs (ProcessControl 7)" by code_simp
  have w: "pc_phase busy_worker = Waiting" by code_simp
  have e: "worker_enabled (TaskEnds (PStr ''7/0'') NotImplemented) busy_worker" by code_simp
  have "reachable (\<lambda>c. c = ProcessControl 7) (worker_step [FILE]) busy_worker"
    unfolding busy_worker_def by (rule reachable_fold[OF reach_init run]) simp
  from worker_never_woken[OF this r_into_rtranclp[of "worker_step [FILE]", OF worker_event[OF e]]] w
  show ?thesis by simp
qed

lemma bare_result_kills_watcher:
  "result_watcher hs (Some (TaskHandle_call h) # q) futs = (Died TypeError, futs)"
  by (simp add: TaskHandle_call_def TaskHandle_start_def watch_result_def unpack_pair_def)

section \<open>Submissions\<close>

text \<open>
  The submissions and the thread pool in any order, with the number of submissions that raised. A
  submission that hangs is no step: the program's thread does not come back from it.
\<close>

inductive store_step :: "string list \<Rightarrow> process_store \<times> nat \<Rightarrow> process_store \<times> nat \<Rightarrow> bool" for registered where
  submit_returns: "submit_task registered new_pid taker code args kwargs p = (Returned h, p') \<Longrightarrow>
    store_step registered (p, k) (p', k)"
| submit_raises: "submit_task registered new_pid taker code args kwargs p = (Raised e, p') \<Longrightarrow>
    store_step registered (p, k) (p', Suc k)"
| task_finished: "h \<in> set (ps_running p) \<Longrightarrow> store_step registered (p, k) (pool_done h p, k)"

definition load_accounted :: "process_store \<times> nat \<Rightarrow> bool" where
  "load_accounted st \<longleftrightarrow> ps_main_thread_load (fst st) = int (length (ps_running (fst st)) + snd st) \<and>
     ps_main_thread_load (fst st) \<le> STORE_MAX_LOAD"

lemmas submit_defs = submit_task_def increment_load_def decrement_load_def add_handle_def check_process_def start_process_def
  Let_def

lemma submit_load:
  assumes "submit_task registered new_pid taker code args kwargs p = (out, p')" "load_accounted (p, k)" "out \<noteq> Hangs"
  shows "load_accounted (p', case out of Raised e \<Rightarrow> Suc k | _ \<Rightarrow> k)"
  using assms by (auto simp: submit_defs load_accounted_def STORE_MAX_LOAD_def split: if_splits sum.splits)

lemma pool_done_load:
  assumes "h \<in> set (ps_running p)" "load_accounted (p, k)"
  shows "load_accounted (pool_done h p, k)"
proof -
  obtain n where "length (ps_running p) = Suc n" using assms(1) by (cases "ps_running p") auto
  then show ?thesis
    using assms by (simp add: load_accounted_def pool_done_def decrement_load_def length_remove1)
qed

interpretation store: inv_system "\<lambda>st. st = (ProcessStore, 0)" "store_step registered" load_accounted for registered
proof unfold_locales
  show "st = (ProcessStore, 0) \<Longrightarrow> load_accounted st" for st
    by (simp add: load_accounted_def ProcessStore_def STORE_MAX_LOAD_def)
  show "load_accounted st \<Longrightarrow> store_step registered st st' \<Longrightarrow> load_accounted st'" for st st'
    by (erule store_step.cases) (auto dest: submit_load intro: pool_done_load)
qed

lemma unusable_handle_raises:
  assumes "code = FILE \<longrightarrow> args \<noteq> []" "ps_main_thread_load p < STORE_MAX_LOAD"
  shows "\<exists>e. fst (submit_task registered new_pid taker code args kwargs p) = Raised e"
    "ps_main_thread_load (snd (submit_task registered new_pid taker code args kwargs p)) = ps_main_thread_load p + 1"
  using assms by (auto simp: submit_task_def increment_load_def Let_def make_handle_def NotInUse_call_def)

lemma unusable_handle_step:
  assumes "code = FILE \<longrightarrow> args \<noteq> []" "ps_main_thread_load p < STORE_MAX_LOAD"
  shows "store_step registered (p, k) (snd (submit_task registered new_pid taker code args kwargs p), Suc k)"
proof -
  obtain e where "fst (submit_task registered new_pid taker code args kwargs p) = Raised e"
    using unusable_handle_raises(1)[OF assms] by blast
  then show ?thesis
    by (cases "submit_task registered new_pid taker code args kwargs p") (auto intro: submit_raises)
qed

text \<open>
  C37. The load of the main thread is the number of running tasks plus the number of submissions that
  ever raised, because it is raised before the handle is made and lowered only when a made handle has
  run. So after the third submission that raises, and with no class registered with the process
  manager, every submission, of whatever handle, blocks the event loop for ever; and no more than
  three ever raise.
\<close>

theorem failed_submissions_hang:
  assumes "reachable (\<lambda>st. st = (ProcessStore, 0)) (store_step registered) (p, k)"
  shows "ps_main_thread_load p = int (length (ps_running p) + k) \<and> k \<le> 3 \<and>
    (k = 3 \<longrightarrow> fst (submit_task [] new_pid taker code args kwargs p) = Hangs)"
proof -
  have "load_accounted (p, k)" by (rule store.reachable_inv[OF assms])
  then show ?thesis
    by (auto simp: load_accounted_def STORE_MAX_LOAD_def submit_task_def worker_handle_def Let_def)
qed

theorem failed_submissions_hang_witness:
  "fst (submit_task [] 9 (9, 0) FILE [] []
     (snd (submit_task [] 9 (9, 0) DIRECTORY [PStr ''d''] [] (snd (submit_task [] 9 (9, 0) FILE [PStr ''f''] []
       (snd (submit_task [] 9 (9, 0) ''Task'' [] [] ProcessStore))))))) = Hangs"
proof -
  define p1 where "p1 = snd (submit_task [] 9 (9, 0) ''Task'' [] [] ProcessStore)"
  define p2 where "p2 = snd (submit_task [] 9 (9, 0) FILE [PStr ''f''] [] p1)"
  define p3 where "p3 = snd (submit_task [] 9 (9, 0) DIRECTORY [PStr ''d''] [] p2)"
  have c: "''Task'' \<noteq> FILE" "DIRECTORY \<noteq> FILE" by (simp_all add: FILE_def DIRECTORY_def)
  have l0: "ps_main_thread_load ProcessStore = 0" by (simp add: ProcessStore_def)
  have l1: "ps_main_thread_load p1 = 1"
    unfolding p1_def using unusable_handle_raises(2)[of "''Task''" "[]" ProcessStore] c l0 by (simp add: STORE_MAX_LOAD_def)
  have l2: "ps_main_thread_load p2 = 2"
    unfolding p2_def using unusable_handle_raises(2)[of FILE "[PStr ''f'']" p1] l1 by (simp add: STORE_MAX_LOAD_def)
  have "reachable (\<lambda>st. st = (ProcessStore, 0)) (store_step []) (ProcessStore, 0)" by (rule reach_init) simp
  then have "reachable (\<lambda>st. st = (ProcessStore, 0)) (store_step []) (p1, Suc 0)"
    unfolding p1_def by (rule reach_step) (rule unusable_handle_step, simp_all add: c l0 STORE_MAX_LOAD_def)
  then have "reachable (\<lambda>st. st = (ProcessStore, 0)) (store_step []) (p2, Suc (Suc 0))"
    unfolding p2_def by (rule reach_step) (rule unusable_handle_step, simp_all add: l1 STORE_MAX_LOAD_def)
  then have "reachable (\<lambda>st. st = (ProcessStore, 0)) (store_step []) (p3, 3)"
    unfolding p3_def numeral_3_eq_3 by (rule reach_step) (rule unusable_handle_step, simp_all add: c l2 STORE_MAX_LOAD_def)
  from failed_submissions_hang[OF this] show ?thesis
    unfolding p3_def p2_def p1_def by blast
qed

end
