(* ===== verification/Spec2Isabelle.thy ===== *)
theory Spec2Isabelle
  imports Node Connections Connectivity Kad_Lookup Otm_Session Status State_Manager Sockets Call_Context Interfaces Dialogs Connect_Server Process_Manager
begin

text \<open>
  PeerConnect is a peer-to-peer program for messages and files. A node keeps one stream socket on
  which it accepts connections and one datagram socket for requests; it finds peers by multicast and
  through a Kademlia table, spreads rumours by gossip, sends files and directories over a stream
  connection, sends files to many peers over a tree of links, and shows all of it on a web page that
  it talks to over a web socket. This library models the Python of that program (the folder
  \<open>src\<close> of the repository and \<open>main.py\<close>) and proves what makes its parts correct, and
  where the code does not do what it means to, what it does instead.

  \<^bold>\<open>How the code is translated.\<close> A Python function is a function with the name of the original
  (a prefix or suffix is added where a name is taken). A class is a record, whose prefix names the
  class; an enumeration is a datatype; a method takes the record and returns it updated. An exception
  is the left side of the sum type \<open>'a res\<close>, with the class of the exception; every raise that the
  code or a library call it makes can perform is a branch. Python integers are \<open>int\<close> or
  \<open>nat\<close>, fields of the wire are written at their width, bytes are lists of \<open>8 word\<close>,
  a \<open>dict\<close> is an association list in insertion order, because the code relies on that order.
  Coroutines that interleave are step relations or lists of events, in which every await is the end of
  a step. Functions of packages outside the repository (\<open>umsgpack\<close>, \<open>json\<close>, the
  \<open>kademlia\<close> package, the operating system's sockets and address lookups, random choices, the
  clock) are arguments, with the documented behaviour the proofs rely on as hypotheses: a
  deserialiser undoes its serialiser, say.

  \<^bold>\<open>The theories\<close>, in the order of the layers of the program:

  \<^item> Prelude: exceptions, results, dictionaries and their laws (\<open>pydict_client\<close>), reachability
    and invariants of step relations (\<open>inv_system\<close>), searches with a counter
    (\<open>counter_search\<close>). Py_Float: the rounding of float arithmetic (\<open>float_rounding\<close>).
  \<^item> Struct_Codec, Net_Stream: the \<open>struct\<close> formats and self-delimiting codes
    (\<open>stream_codec\<close>); a stream socket as a list of the fragments in which its bytes arrive.
  \<^item> Wire (\<open>avails/wire.py\<close>): frames, datagrams, \<open>WireData\<close>, \<open>GossipMessage\<close>,
    \<open>DataWeaver\<close>, the records of a one-to-many session. Frames are shown to come back for every
    fragmentation of the stream, truncated ones to be refused, and no datagram to do harm.
  \<^item> Remote_Peer (\<open>avails/remotepeer.py\<close>): peers, their serial form, the XOR distance
    (\<open>xor_space\<close>).
  \<^item> Containers (\<open>avails/container.py\<close>): the dictionary of peers, the book of transfers, the store of
    files and the cache of sockets, each with its invariant under all of its operations; the cache
    refines the unbounded history of its use.
  \<^item> Useables, Call_Context, Sockets (\<open>avails/useables.py\<close>, \<open>avails/connect.py\<close>): timeouts
    and retries, reception of integers, throughput, probing of sockets; the choice between the
    synchronous and the asynchronous form of a function from the caller's frame, against its definition
    without a cache; the construction of sockets and the state they are in when the event loop gets them.
  \<^item> Mixins (\<open>avails/mixins.py\<close>, \<open>bases.py\<close>, \<open>waiters.py\<close>): registry of pending replies,
    queues, handler registration, the actuator. Replies are correlated with their requests in every
    reachable state.
  \<^item> Dispatch (\<open>core/requests.py\<close>, \<open>core/discover.py\<close>, \<open>transfers/transports.py\<close>): the
    datagram endpoint, the dispatcher of requests and its survival, discovery.
  \<^item> Gossip (\<open>transfers/rumor.py\<close>, \<open>core/gossip.py\<close>, search requests of \<open>core/peers.py\<close>): the
    list of seen messages, the sampling of peers and its uniformity, and that no rumour is sent to a
    peer twice.
  \<^item> Kademlia, Kad_Server, Kad_Lookup (\<open>core/_kademlia.py\<close>, \<open>core/peers.py\<close>): the lists of peers stored under
    twenty ids, the remote procedure calls at both ends, bootstrapping, storing, search rounds, pages of
    peers, the callbacks that tell the page of contacts, and the server's own life.
  \<^item> Node: the requests side of a node put together, from the bytes of a datagram to the component it is
    for (\<open>core/requests.py\<close>, the registration in \<open>core/gossip.py\<close> and \<open>core/discover.py\<close>): the
    invariants of its parts hold under arbitrary datagrams, and a rumour arrives as it was sent.
  \<^item> Front_End, Page (\<open>webpage_handlers\<close>): the dispatcher of web-socket messages with its buffer, the
    messages the program makes, the handlers of those it gets.
  \<^item> Acceptor (\<open>core/acceptor.py\<close>, \<open>connector.py\<close>): handshakes, the accept loop and what ends it, the
    connector and its cache. Connectivity (\<open>core/connectivity.py\<close>): the checks of reachability as
    interleaved tasks, and that nobody is given an old check or one of another peer.
  \<^item> Files, File_Transfer, Directory (\<open>transfers/files\<close>, \<open>transfers/abc.py\<close>): file items and
    free names, chunk sizes, sender and receiver with pausing, cancelling and continuing, directory
    trees. The receiver is shown to rebuild what the sender read, byte for byte. Status
    (\<open>transfers/status.py\<close>): the progress updates.
  \<^item> Transfer_Managers (\<open>managers/filemanager.py\<close>, \<open>directorymanager.py\<close>): what the book of
    transfers holds after each outcome.
  \<^item> Connections: the stream side of a node put together, from the bytes of an accepted connection to the
    handler that \<open>initiate_acceptor\<close> registers for its header: what a peer can change by it, and which
    connections the listening side survives.
  \<^item> Hypercube, Palm_Tree, Otm, Otm_Session (\<open>transfers/otm\<close>): the topology of a one-to-many
    session, the negotiation of links by which it becomes a tree, the chunked transfer of several files
    through it, and the session as a whole: announcement, messages between relays, the sender's run.
  \<^item> Profiles, Start_Up, State_Manager (\<open>managers/profilemanager.py\<close>, \<open>statemanager.py\<close>,
    \<open>configurations\<close>, \<open>main.py\<close>): the profiles on disk, addresses and ports at start-up, the
    queue of states that is the program's main loop. Interfaces (\<open>configurations/interfaces.py\<close> and the
    listings of the two platforms), Dialogs (\<open>avails/dialogs.py\<close>): what the operating system's answers are
    made into.
  \<^item> Connect_Server, Process_Manager (\<open>core/connectserver.py\<close>, \<open>managers/processmanager.py\<close>,
    \<open>core/handles.py\<close>): two parts that no other module uses, joining through a server and handing tasks
    to threads and worker processes.

  \<^bold>\<open>How the parts meet.\<close> The byte formats of Wire carry everything: Dispatch decodes datagrams into the
  requests that Gossip, Kademlia and Palm_Tree answer, Acceptor decodes handshakes into connections for
  which Transfer_Managers makes the receivers of File_Transfer and Directory. Remote_Peer and Containers
  hold what they share. Mixins correlates replies for Dispatch and Page. Theorems that cross a border
  are stated where the later component is: a file written by the sender is read by the receiver over
  Net_Stream, a contact added in Kad_Server reaches the buffer of Front_End.

  \<^bold>\<open>Bounds and fuel.\<close> Loops that the code bounds are recursions on that bound. Searches for a free
  name recurse with the number of existing names as their bound, which the locale
  \<open>counter_search\<close> shows to be enough; reading loops recurse on the bytes that are left. Loops that
  wait for events (the main loop, the dispatchers, the acceptor, discovery in passive mode) are relations,
  or functions of the list of the events, and a theorem that says that one ends, or does not, names the events.

  \<^bold>\<open>Not modelled.\<close> Hashing, printing and logging; the input and output inside the event loop and
  the order in which it picks ready tasks, other than where a step relation leaves it open; the
  browser and the scripts that are handed to other programs; the socket methods that only
  forward to the loop; \<open>DirectoryTaskHandle\<close>, which is marked as not in use;
  \<open>fill_partial_chunks\<close> and \<open>_end_of_transfer\<close> of the relay, which are empty.
\<close>

end
